(* ===== verification/Py_Prelude.thy ===== *)
theory Py_Prelude
  imports
    Complex_Main
    "HOL-Library.Multiset"
    "HOL-Library.Sublist"
    "HOL-Library.Char_ord"
    "HOL-Library.List_Lexorder"
    "HOL-Library.Product_Lexorder"
begin

text \<open>
  The shared base of the development: Python exceptions as values, the error-passing
  composition that stands for the propagation of an exception, and the string and integer
  functions of the language that the driver uses (decimal rendering with zero padding,
  \<^verbatim>\<open>int()\<close> on text, \<^verbatim>\<open>str.replace\<close>, \<^verbatim>\<open>str.isdigit\<close>), with their round trips.
  A Python \<^verbatim>\<open>str\<close> is a list of characters whose code is below 256.
\<close>

section \<open>Exceptions and results\<close>

text \<open>
  One constructor per exception class the sources raise or catch. \<open>Cancelled\<close> is
  \<^verbatim>\<open>asyncio.CancelledError\<close>; \<open>HttpStatus\<close> is the \<^verbatim>\<open>VarveHttpError\<close> of the driver and the
  \<^verbatim>\<open>HTTPStatusError\<close> of the stress probe, which carry the status code. \<open>ExternalError\<close> is an exception of a library, by its class name and text.
\<close>

datatype pyerror =
    ValueError string
  | RuntimeError string
  | TimeoutError string
  | ArgumentTypeError string
  | TypeError string
  | KeyError string
  | AttributeError string
  | IndexError string
  | AssertionError string
  | OSError string
  | Cancelled
  | SystemExit int
  | HttpStatus int string
  | ZeroDivisionError string
  | OverflowError string
  | ExternalError string string

type_synonym 'a result = "pyerror + 'a"

definition ebind :: "'a result \<Rightarrow> ('a \<Rightarrow> 'b result) \<Rightarrow> 'b result" where
  "ebind m f = (case m of Inl e \<Rightarrow> Inl e | Inr x \<Rightarrow> f x)"

definition guard :: "bool \<Rightarrow> pyerror \<Rightarrow> unit result" where
  "guard ok e = (if ok then Inr () else Inl e)"

primrec emap :: "('a \<Rightarrow> 'b result) \<Rightarrow> 'a list \<Rightarrow> 'b list result" where
  "emap f [] = Inr []"
| "emap f (x # xs) = ebind (f x) (\<lambda>y. ebind (emap f xs) (\<lambda>ys. Inr (y # ys)))"

primrec eiter :: "('a \<Rightarrow> unit result) \<Rightarrow> 'a list \<Rightarrow> unit result" where
  "eiter f [] = Inr ()"
| "eiter f (x # xs) = ebind (f x) (\<lambda>_. eiter f xs)"

named_theorems result_simps

lemma ebind_simps [simp]:
  "ebind (Inl e) f = Inl e"
  "ebind (Inr x) f = f x"
  by (simp_all add: ebind_def)

lemma ebind_Inr_iff [result_simps]:
  "ebind m f = Inr y \<longleftrightarrow> (\<exists>x. m = Inr x \<and> f x = Inr y)"
  by (cases m) auto

lemma ebindE:
  assumes "ebind m f = Inr y"
  obtains x where "m = Inr x" "f x = Inr y"
  using assms by (auto simp: ebind_Inr_iff)

lemma ebind_Inl_iff [result_simps]:
  "ebind m f = Inl e \<longleftrightarrow> m = Inl e \<or> (\<exists>x. m = Inr x \<and> f x = Inl e)"
  by (cases m) auto

lemma guard_Inr_iff [result_simps]: "guard ok e = Inr u \<longleftrightarrow> ok"
  by (simp add: guard_def)

lemma guard_Inl_iff [result_simps]: "guard ok e = Inl e' \<longleftrightarrow> \<not> ok \<and> e' = e"
  by (auto simp: guard_def)

lemma guard_simps [simp]:
  "guard True e = Inr ()"
  "guard False e = Inl e"
  by (simp_all add: guard_def)

lemma emap_Inr_iff [result_simps]:
  "emap f xs = Inr ys \<longleftrightarrow> list_all2 (\<lambda>x y. f x = Inr y) xs ys"
  by (induction xs arbitrary: ys) (auto simp: result_simps list_all2_Cons1)

lemma eiter_Inr_iff [result_simps]:
  "eiter f xs = Inr u \<longleftrightarrow> (\<forall>x \<in> set xs. f x = Inr ())"
  by (induction xs) (auto simp: result_simps)

section \<open>Lists\<close>

lemma sum_list_map_upt_const:
  "sum_list (map (\<lambda>_. c :: nat) [i..<j]) = (j - i) * c"
  by (simp add: sum_list_triv)

lemma sorted_wrt_map_upt:
  assumes "\<And>k. i \<le> k \<Longrightarrow> Suc k < j \<Longrightarrow> r (f k) (f (Suc k))" and "transp r"
  shows "sorted_wrt r (map f [i..<j])"
proof -
  have "r (f a) (f b)" if "i \<le> a" "a < b" "b < j" for a b
    using that
  proof (induction b)
    case 0
    then show ?case by simp
  next
    case (Suc b)
    show ?case
    proof (cases "a = b")
      case True
      with Suc.prems assms(1) show ?thesis by simp
    next
      case False
      with Suc have "r (f a) (f b)" by simp
      moreover from Suc.prems False assms(1) have "r (f b) (f (Suc b))" by simp
      ultimately show ?thesis using assms(2) by (blast dest: transpD)
    qed
  qed
  then show ?thesis
    by (auto simp: sorted_wrt_iff_nth_less)
qed

section \<open>Decimal text\<close>

definition digit_char :: "nat \<Rightarrow> char" where
  "digit_char d = char_of (48 + d)"

definition is_dec_digit :: "char \<Rightarrow> bool" where
  "is_dec_digit c \<longleftrightarrow> 48 \<le> (of_char c :: nat) \<and> (of_char c :: nat) \<le> 57"

definition digit_val :: "char \<Rightarrow> nat" where
  "digit_val c = of_char c - 48"

fun dec_nat :: "nat \<Rightarrow> string" where
  "dec_nat n = (if n < 10 then [digit_char n] else dec_nat (n div 10) @ [digit_char (n mod 10)])"

declare dec_nat.simps [simp del]

definition dec_int :: "int \<Rightarrow> string" where
  "dec_int i = (if i < 0 then ''-'' @ dec_nat (nat (- i)) else dec_nat (nat i))"

definition zpad :: "nat \<Rightarrow> string \<Rightarrow> string" where
  "zpad w s = replicate (w - length s) (CHR ''0'') @ s"

definition dec_value :: "string \<Rightarrow> nat" where
  "dec_value s = foldl (\<lambda>a c. a * 10 + digit_val c) 0 s"

lemma digit_val_char [simp]: "d < 10 \<Longrightarrow> digit_val (digit_char d) = d"
  by (simp add: digit_val_def digit_char_def)

lemma is_dec_digit_char [simp]: "d < 10 \<Longrightarrow> is_dec_digit (digit_char d)"
  by (simp add: is_dec_digit_def digit_char_def)

lemma digit_char_simps [simp]:
  "digit_char 0 = CHR ''0''" "digit_char 1 = CHR ''1''" "digit_char 2 = CHR ''2''" "digit_char 3 = CHR ''3''"
  "digit_char 4 = CHR ''4''" "digit_char 5 = CHR ''5''" "digit_char 6 = CHR ''6''" "digit_char 7 = CHR ''7''"
  "digit_char 8 = CHR ''8''" "digit_char 9 = CHR ''9''" "digit_char (Suc 0) = CHR ''1''"
  by (simp_all add: digit_char_def char_of_eq_iff)

lemma digit_val_zero [simp]: "digit_val (CHR ''0'') = 0"
  by (simp add: digit_val_def)

lemma dec_value_snoc [simp]: "dec_value (s @ [c]) = dec_value s * 10 + digit_val c"
  by (simp add: dec_value_def)

lemma dec_value_Nil [simp]: "dec_value [] = 0"
  by (simp add: dec_value_def)

lemma dec_value_zeros [simp]: "dec_value (replicate k (CHR ''0'') @ s) = dec_value s"
proof -
  have "foldl (\<lambda>a c. a * 10 + digit_val c) 0 (replicate k (CHR ''0'')) = 0"
    by (induction k) auto
  then show ?thesis by (simp add: dec_value_def)
qed

lemma dec_value_dec_nat [simp]: "dec_value (dec_nat n) = n"
proof (induction n rule: dec_nat.induct)
  case (1 n)
  show ?case
  proof (cases "n < 10")
    case True
    then show ?thesis
      by (subst dec_nat.simps) (simp add: dec_value_def)
  next
    case False
    then have "dec_value (dec_nat (n div 10)) = n div 10"
      using "1.IH" by simp
    with False show ?thesis
      by (subst dec_nat.simps) simp
  qed
qed

lemma dec_value_zpad [simp]: "dec_value (zpad w s) = dec_value s"
  by (simp add: zpad_def)

lemma dec_nat_inj: "dec_nat m = dec_nat n \<longleftrightarrow> m = n"
  by (metis dec_value_dec_nat)

lemma zpad_dec_nat_inj: "zpad w (dec_nat m) = zpad w (dec_nat n) \<longleftrightarrow> m = n"
  by (metis dec_value_dec_nat dec_value_zpad)

lemma dec_nat_not_Nil [simp]: "dec_nat n \<noteq> []"
  by (subst dec_nat.simps) simp

lemma dec_nat_digits: "\<forall>c \<in> set (dec_nat n). is_dec_digit c"
proof (induction n rule: dec_nat.induct)
  case (1 n)
  show ?case
  proof (cases "n < 10")
    case True
    then show ?thesis by (subst dec_nat.simps) simp
  next
    case False
    with "1.IH" show ?thesis by (subst dec_nat.simps) auto
  qed
qed

lemma length_dec_nat_le: "n < 10 ^ k \<Longrightarrow> 0 < k \<Longrightarrow> length (dec_nat n) \<le> k"
proof (induction k arbitrary: n)
  case 0
  then show ?case by simp
next
  case (Suc k)
  show ?case
  proof (cases "n < 10")
    case True
    then show ?thesis by (subst dec_nat.simps) simp
  next
    case False
    then have "k \<noteq> 0" using Suc.prems(1) by (cases k) auto
    moreover have "n div 10 < 10 ^ k"
      using Suc.prems(1) by (simp add: less_mult_imp_div_less mult.commute)
    ultimately have "length (dec_nat (n div 10)) \<le> k" by (intro Suc.IH) simp_all
    with False show ?thesis by (subst dec_nat.simps) simp
  qed
qed

lemma length_zpad: "length (zpad w s) = max w (length s)"
  by (simp add: zpad_def)

lemma zpad_dec_nat_exact: "n < 10 ^ w \<Longrightarrow> 0 < w \<Longrightarrow> length (zpad w (dec_nat n)) = w"
  using length_dec_nat_le [of n w] by (simp add: length_zpad)

section \<open>Python's int() on text\<close>

text \<open>
  White space around the literal is stripped, one sign is allowed, and a single underscore
  may stand between two digits. Everything else is a \<^verbatim>\<open>ValueError\<close>, here \<open>None\<close>.
\<close>

definition is_py_space :: "char \<Rightarrow> bool" where
  "is_py_space c \<longleftrightarrow>
     (let k = (of_char c :: nat) in (9 \<le> k \<and> k \<le> 13) \<or> (28 \<le> k \<and> k \<le> 32) \<or> k = 133 \<or> k = 160)"

definition py_strip :: "string \<Rightarrow> string" where
  "py_strip s = rev (dropWhile is_py_space (rev (dropWhile is_py_space s)))"

fun int_digits :: "nat \<Rightarrow> string \<Rightarrow> nat option" where
  "int_digits acc [] = Some acc"
| "int_digits acc (c # cs) =
     (if is_dec_digit c then int_digits (acc * 10 + digit_val c) cs
      else if c = CHR ''_'' then
        (case cs of [] \<Rightarrow> None
         | d # _ \<Rightarrow> if is_dec_digit d then int_digits acc cs else None)
      else None)"

definition int_unsigned :: "string \<Rightarrow> nat option" where
  "int_unsigned s =
     (case s of [] \<Rightarrow> None | c # _ \<Rightarrow> if is_dec_digit c then int_digits 0 s else None)"

definition py_int :: "string \<Rightarrow> int option" where
  "py_int s =
     (case py_strip s of
        [] \<Rightarrow> None
      | c # cs \<Rightarrow>
          if c = CHR ''-'' then map_option (\<lambda>n. - int n) (int_unsigned cs)
          else if c = CHR ''+'' then map_option int (int_unsigned cs)
          else map_option int (int_unsigned (c # cs)))"

text \<open>
  \<^verbatim>\<open>str.isdigit\<close> on the characters below 256: the ASCII digits and the superscripts
  two, three and one, which \<^verbatim>\<open>int()\<close> does not accept.
\<close>

definition py_isdigit :: "string \<Rightarrow> bool" where
  "py_isdigit s \<longleftrightarrow> s \<noteq> [] \<and>
     list_all (\<lambda>c. is_dec_digit c \<or> of_char c \<in> {178, 179, 185 :: nat}) s"

lemma int_digits_all_digits:
  "\<forall>c \<in> set s. is_dec_digit c \<Longrightarrow>
   int_digits acc s = Some (foldl (\<lambda>a c. a * 10 + digit_val c) acc s)"
  by (induction s arbitrary: acc) auto

lemma digit_not_space: "is_dec_digit c \<Longrightarrow> \<not> is_py_space c"
  by (auto simp: is_dec_digit_def is_py_space_def Let_def)

lemma digit_not_sign: "is_dec_digit c \<Longrightarrow> c \<noteq> CHR ''-'' \<and> c \<noteq> CHR ''+''"
  by (auto simp: is_dec_digit_def)

lemma py_strip_id: "\<forall>c \<in> set s. \<not> is_py_space c \<Longrightarrow> py_strip s = s"
proof -
  assume *: "\<forall>c \<in> set s. \<not> is_py_space c"
  have id: "dropWhile is_py_space t = t" if "\<forall>c \<in> set t. \<not> is_py_space c" for t
    using that by (cases t) auto
  from * have "dropWhile is_py_space s = s" by (rule id)
  moreover from * have "dropWhile is_py_space (rev s) = rev s" by (intro id) simp
  ultimately show ?thesis by (simp add: py_strip_def)
qed

lemma py_int_digits:
  assumes "s \<noteq> []" and "\<forall>c \<in> set s. is_dec_digit c"
  shows "py_int s = Some (int (dec_value s))"
proof -
  from assms obtain c cs where s: "s = c # cs" by (cases s) auto
  have "py_strip s = s"
    using assms(2) by (intro py_strip_id) (auto dest: digit_not_space)
  moreover have "int_unsigned s = Some (dec_value s)"
    using assms s by (simp add: int_unsigned_def int_digits_all_digits dec_value_def)
  moreover have "c \<noteq> CHR ''-''" "c \<noteq> CHR ''+''"
    using assms(2) s digit_not_sign [of c] by auto
  ultimately show ?thesis by (simp add: py_int_def s)
qed

lemma py_int_dec_nat: "py_int (dec_nat n) = Some (int n)"
  by (simp add: py_int_digits dec_nat_digits)

section \<open>str.replace\<close>

function replace_str :: "string \<Rightarrow> string \<Rightarrow> string \<Rightarrow> string" where
  "replace_str old new text =
     (if old = [] \<or> text = [] then text
      else if prefix old text then new @ replace_str old new (drop (length old) text)
      else hd text # replace_str old new (tl text))"
  by pat_completeness auto
termination
  by (relation "measure (\<lambda>(old, new, text). length text)") auto

declare replace_str.simps [simp del]

text \<open>With an empty first argument Python inserts the replacement around every character.\<close>

definition py_replace :: "string \<Rightarrow> string \<Rightarrow> string \<Rightarrow> string" where
  "py_replace old new text =
     (if old = [] then concat (map (\<lambda>c. new @ [c]) text) @ new
      else replace_str old new text)"

lemma replace_str_Nil [simp]: "replace_str old new [] = []"
  by (subst replace_str.simps) simp

lemma replace_str_match:
  "old \<noteq> [] \<Longrightarrow> replace_str old new (old @ rest) = new @ replace_str old new rest"
  by (subst replace_str.simps) simp

lemma replace_str_skip:
  "old \<noteq> [] \<Longrightarrow> \<not> prefix old (c # rest) \<Longrightarrow>
   replace_str old new (c # rest) = c # replace_str old new rest"
  by (subst replace_str.simps) simp

lemma replace_str_singleton:
  "replace_str [a] new s = concat (map (\<lambda>c. if c = a then new else [c]) s)"
proof (induction s)
  case Nil
  then show ?case by simp
next
  case (Cons c s)
  then show ?case
    using replace_str_match [of "[a]" new s] replace_str_skip [of "[a]" c s new]
    by (cases "c = a") auto
qed

end
