(* ===== verification/Py_Float.thy ===== *)
theory Py_Float
  imports Py_Prelude "HOL-Library.Log_Nat"
begin

text \<open>
  Python's \<^verbatim>\<open>float\<close>: IEEE 754 binary64. A finite float is the rational number it denotes
  (the two zeros are one value: no comparison of the sources tells them apart), \<open>fl\<close> is
  rounding to nearest, ties to even, with gradual underflow, and every arithmetic operation
  of the sources is the exact rational operation followed by \<open>fl\<close>. The locale
  \<open>rounding\<close> states what the clients need of \<open>fl\<close>: it is monotone and leaves
  every number of 53 significant bits alone. Python's \<^verbatim>\<open>round\<close>, \<^verbatim>\<open>int\<close> and \<^verbatim>\<open>math.ceil\<close> on
  floats follow.
\<close>

section \<open>Rounding to binary64\<close>

definition pow2 :: "int \<Rightarrow> rat" where
  "pow2 e = (if 0 \<le> e then 2 ^ nat e else 1 / 2 ^ nat (- e))"

text \<open>Python's \<^verbatim>\<open>round\<close> of a float to an integer: nearest, ties to even.\<close>

definition rne :: "rat \<Rightarrow> int" where
  "rne x = (let f = \<lfloor>x\<rfloor>; d = x - of_int f in
     if d < 1 / 2 then f else if 1 / 2 < d then f + 1 else if even f then f else f + 1)"

text \<open>The binary logarithm of a positive rational, rounded down.\<close>

definition ilog2 :: "rat \<Rightarrow> int" where
  "ilog2 x = (let (a, b) = quotient_of x; k = bitlen a - bitlen b in
     if pow2 k \<le> x then k else k - 1)"

definition fexp :: "rat \<Rightarrow> int" where
  "fexp x = max (- 1074) (ilog2 \<bar>x\<bar> - 52)"

definition fl :: "rat \<Rightarrow> rat" where
  "fl x = (if x = 0 then 0 else of_int (rne (x / pow2 (fexp x))) * pow2 (fexp x))"

datatype pyfloat = Fin rat | PInf | MInf | NaN

definition to_float :: "rat \<Rightarrow> pyfloat" where
  "to_float x = (let r = fl x in
     if 2 ^ 1024 \<le> r then PInf else if r \<le> - (2 ^ 1024) then MInf else Fin r)"

primrec is_finite :: "pyfloat \<Rightarrow> bool" where
  "is_finite (Fin _) = True"
| "is_finite PInf = False"
| "is_finite MInf = False"
| "is_finite NaN = False"

text \<open>\<^verbatim>\<open>int(x)\<close> truncates towards zero; \<^verbatim>\<open>math.ceil\<close> is the ceiling of the library.\<close>

definition trunc :: "rat \<Rightarrow> int" where
  "trunc x = (if 0 \<le> x then \<lfloor>x\<rfloor> else \<lceil>x\<rceil>)"

subsection \<open>Powers of two\<close>

lemma pow2_pos [simp]: "0 < pow2 e"
  by (simp add: pow2_def)

lemma pow2_nonneg [simp]: "0 \<le> pow2 e"
  by (simp add: pow2_def)

lemma pow2_neq_0 [simp]: "pow2 e \<noteq> 0"
  using pow2_pos [of e] by linarith

lemma pow2_0 [simp]: "pow2 0 = 1"
  by (simp add: pow2_def)

lemma pow2_eq_powi: "pow2 e = 2 powi e"
  by (simp add: pow2_def power_int_def field_simps)

lemma pow2_add: "pow2 (a + b) = pow2 a * pow2 b"
  by (simp add: pow2_eq_powi power_int_add)

lemma pow2_diff: "pow2 (a - b) = pow2 a / pow2 b"
  by (simp add: pow2_eq_powi power_int_diff)

lemma pow2_mono: "a \<le> b \<Longrightarrow> pow2 a \<le> pow2 b"
  by (simp add: pow2_eq_powi power_int_increasing)

lemma pow2_strict_mono: "a < b \<Longrightarrow> pow2 a < pow2 b"
  by (simp add: pow2_eq_powi power_int_strict_increasing)

lemma pow2_nat: "0 \<le> e \<Longrightarrow> pow2 e = of_int (2 ^ nat e)"
  by (simp add: pow2_def)

lemma pow2_scale: "e \<le> f \<Longrightarrow> pow2 f = of_int (2 ^ nat (f - e)) * pow2 e"
  using pow2_add [of "f - e" e] pow2_nat [of "f - e"] by simp

lemma pow2_quotient: "e \<le> f \<Longrightarrow> pow2 f / pow2 e = of_int (2 ^ nat (f - e))"
  by (subst pow2_scale [of e f]) simp_all

subsection \<open>Round to nearest, ties to even\<close>

lemma rne_of_int [simp]: "rne (of_int n) = n"
  by (simp add: rne_def)

lemma rne_bounds: "x - 1 / 2 \<le> of_int (rne x)" "of_int (rne x) \<le> x + 1 / 2"
  by (auto simp: rne_def Let_def; linarith)+

lemma rne_mono: "x \<le> y \<Longrightarrow> rne x \<le> rne y"
proof -
  assume le: "x \<le> y"
  then have fle: "\<lfloor>x\<rfloor> \<le> \<lfloor>y\<rfloor>" by (rule floor_mono)
  show "rne x \<le> rne y"
  proof (cases "\<lfloor>x\<rfloor> = \<lfloor>y\<rfloor>")
    case True
    with le show ?thesis by (auto simp: rne_def Let_def)
  next
    case False
    with fle have "\<lfloor>x\<rfloor> + 1 \<le> \<lfloor>y\<rfloor>" by simp
    moreover have "rne x \<le> \<lfloor>x\<rfloor> + 1" by (simp add: rne_def Let_def)
    moreover have "\<lfloor>y\<rfloor> \<le> rne y" by (simp add: rne_def Let_def)
    ultimately show ?thesis by simp
  qed
qed

lemma rne_neg: "rne (- x) = - rne x"
proof (cases "x = of_int \<lfloor>x\<rfloor>")
  case True
  then show ?thesis by (metis of_int_minus rne_of_int)
next
  case False
  have fl: "\<lfloor>- x\<rfloor> = - \<lfloor>x\<rfloor> - 1"
  proof (rule floor_unique)
    show "of_int (- \<lfloor>x\<rfloor> - 1) \<le> - x" using floor_correct [of x] by simp
    show "- x < of_int (- \<lfloor>x\<rfloor> - 1) + 1"
      using False of_int_floor_le [of x] by (simp add: less_le)
  qed
  have d: "- x - of_int \<lfloor>- x\<rfloor> = 1 - (x - of_int \<lfloor>x\<rfloor>)" using fl by simp
  show ?thesis
    unfolding rne_def Let_def d unfolding fl by (auto simp: field_simps)
qed

subsection \<open>The binary logarithm\<close>

lemma bitlen_pow2_bounds:
  assumes "0 < a"
  shows "pow2 (bitlen a - 1) \<le> of_int a" and "of_int a < pow2 (bitlen a)"
proof -
  from bitlen_bounds [OF assms]
  have b: "2 ^ nat (bitlen a - 1) \<le> a" "a < 2 ^ nat (bitlen a)" by simp_all
  have pos: "0 \<le> bitlen a - 1"
    using assms bitlen_nonneg [of a] bitlen_eq_zero_iff [of a] by linarith
  show "pow2 (bitlen a - 1) \<le> of_int a"
    using b(1) pos by (simp only: pow2_nat of_int_le_iff)
  show "of_int a < pow2 (bitlen a)"
    using b(2) bitlen_nonneg [of a] by (simp only: pow2_nat of_int_less_iff)
qed

lemma ilog2_bounds:
  assumes "0 < x"
  shows "pow2 (ilog2 x) \<le> x" and "x < pow2 (ilog2 x + 1)"
proof -
  obtain a b where q: "quotient_of x = (a, b)" by fastforce
  then have b: "0 < b" and x: "x = of_int a / of_int b"
    by (auto dest: quotient_of_denom_pos quotient_of_div)
  with assms have a: "0 < a" by (simp add: zero_less_divide_iff)
  let ?k = "bitlen a - bitlen b"
  have b1: "1 \<le> bitlen b"
    using b bitlen_nonneg [of b] bitlen_eq_zero_iff [of b] by linarith
  have up: "x < pow2 (?k + 1)"
  proof -
    have "x < pow2 (bitlen a) / of_int b"
      using x b bitlen_pow2_bounds(2) [OF a] by (simp add: divide_strict_right_mono)
    also have "\<dots> \<le> pow2 (bitlen a) / pow2 (bitlen b - 1)"
      using bitlen_pow2_bounds(1) [OF b] by (intro divide_left_mono) (simp_all add: b)
    also have "\<dots> = pow2 (?k + 1)" by (simp flip: pow2_diff add: algebra_simps)
    finally show ?thesis .
  qed
  have lo: "pow2 (?k - 1) \<le> x"
  proof -
    have "pow2 (?k - 1) = pow2 (bitlen a - 1) / pow2 (bitlen b)"
      by (simp flip: pow2_diff add: algebra_simps)
    also have "\<dots> \<le> of_int a / of_int b"
      using bitlen_pow2_bounds(1) [OF a] bitlen_pow2_bounds(2) [OF b] a b
      by (intro frac_le) simp_all
    finally show ?thesis using x by simp
  qed
  show "pow2 (ilog2 x) \<le> x" using lo by (simp add: ilog2_def q Let_def)
  show "x < pow2 (ilog2 x + 1)" using up by (simp add: ilog2_def q Let_def)
qed

lemma ilog2_less: "0 < x \<Longrightarrow> x < pow2 k \<Longrightarrow> ilog2 x < k"
proof (rule ccontr)
  assume x: "0 < x" "x < pow2 k" and "\<not> ilog2 x < k"
  then have "pow2 k \<le> pow2 (ilog2 x)" by (intro pow2_mono) simp
  with ilog2_bounds(1) [OF x(1)] x(2) show False by simp
qed

lemma ilog2_mono: "0 < x \<Longrightarrow> x \<le> y \<Longrightarrow> ilog2 x \<le> ilog2 y"
proof -
  assume xy: "0 < x" "x \<le> y"
  then have "x < pow2 (ilog2 y + 1)" using ilog2_bounds(2) [of y] by linarith
  with xy(1) have "ilog2 x < ilog2 y + 1" by (rule ilog2_less)
  then show ?thesis by simp
qed

subsection \<open>The laws of rounding\<close>

lemma fl_0 [simp]: "fl 0 = 0"
  by (simp add: fl_def)

lemma fl_neg: "fl (- x) = - fl x"
  by (simp add: fl_def fexp_def rne_neg)

lemma fl_dyadic:
  assumes "\<bar>m\<bar> < 2 ^ 53" and "- 1074 \<le> e"
  shows "fl (of_int m * pow2 e) = of_int m * pow2 e"
proof (cases "m = 0")
  case False
  let ?y = "of_int m * pow2 e :: rat"
  have "\<bar>?y\<bar> = of_int \<bar>m\<bar> * pow2 e" by (simp add: abs_mult)
  also have "\<dots> < of_int (2 ^ 53) * pow2 e"
    using assms(1) by (intro mult_strict_right_mono) (simp_all only: of_int_less_iff pow2_pos)
  also have "\<dots> = pow2 (e + 53)" by (simp add: pow2_add) (simp add: pow2_def)
  finally have "ilog2 \<bar>?y\<bar> < e + 53" using False by (intro ilog2_less) simp_all
  then have le: "fexp ?y \<le> e" using assms(2) by (simp add: fexp_def)
  then have "?y / pow2 (fexp ?y) = of_int (m * 2 ^ nat (e - fexp ?y))"
    using pow2_quotient [OF le] by (simp flip: times_divide_eq_right)
  then have "rne (?y / pow2 (fexp ?y)) = m * 2 ^ nat (e - fexp ?y)"
    by (metis rne_of_int)
  then show ?thesis using pow2_scale [OF le] False by (simp add: fl_def)
qed simp

lemma fl_mono_pos:
  assumes "0 < x" "x \<le> y"
  shows "fl x \<le> fl y"
proof (cases "fexp x = fexp y")
  case True
  with assms show ?thesis
    by (auto simp: fl_def intro!: mult_right_mono rne_mono divide_right_mono)
next
  case False
  have y: "0 < y" using assms by simp
  have ill: "ilog2 x \<le> ilog2 y" using assms by (rule ilog2_mono)
  with False assms y have lt: "ilog2 x < ilog2 y" and ey: "fexp y = ilog2 y - 52"
    and ex: "fexp x < fexp y" by (auto simp: fexp_def max_def split: if_splits)
  let ?b = "pow2 (ilog2 y)"
  have xb: "x \<le> ?b"
    using ilog2_bounds(2) [OF assms(1)] lt pow2_mono [of "ilog2 x + 1" "ilog2 y"] by linarith
  have step: "rne (?b / pow2 e) = 2 ^ nat (ilog2 y - e)" if "e \<le> ilog2 y" for e
    by (metis pow2_quotient [OF that] rne_of_int)
  have unscale: "of_int (2 ^ nat (ilog2 y - e)) * pow2 e = ?b" if "e \<le> ilog2 y" for e
    by (rule pow2_scale [OF that, symmetric])
  have exl: "fexp x \<le> ilog2 y" using ex ey by simp
  have "fl x \<le> of_int (rne (?b / pow2 (fexp x))) * pow2 (fexp x)"
    using assms(1) xb by (auto simp: fl_def intro!: mult_right_mono rne_mono divide_right_mono)
  also have "\<dots> = ?b" using step [OF exl] unscale [OF exl] by simp
  finally have 1: "fl x \<le> ?b" .
  have eyl: "fexp y \<le> ilog2 y" using ey by simp
  have "?b = of_int (rne (?b / pow2 (fexp y))) * pow2 (fexp y)"
    using step [OF eyl] unscale [OF eyl] by simp
  also have "\<dots> \<le> fl y"
    using y ilog2_bounds(1) [OF y]
    by (auto simp: fl_def intro!: mult_right_mono rne_mono divide_right_mono)
  finally show ?thesis using 1 by simp
qed

lemma fl_nonneg: "0 \<le> x \<Longrightarrow> 0 \<le> fl x"
proof -
  assume "0 \<le> x"
  then have "rne 0 \<le> rne (x / pow2 (fexp x))" by (intro rne_mono) simp
  then have "0 \<le> rne (x / pow2 (fexp x))" using rne_of_int [of 0] by simp
  then show ?thesis by (simp add: fl_def)
qed

lemma fl_mono: "x \<le> y \<Longrightarrow> fl x \<le> fl y"
proof -
  assume le: "x \<le> y"
  consider "0 < x" | "x \<le> 0" "0 \<le> y" | "y < 0" by linarith
  then show "fl x \<le> fl y"
  proof cases
    case 1
    then show ?thesis using le by (rule fl_mono_pos)
  next
    case 2
    then have "0 \<le> fl (- x)" "0 \<le> fl y" by (simp_all add: fl_nonneg)
    then show ?thesis by (simp add: fl_neg)
  next
    case 3
    with le have "fl (- y) \<le> fl (- x)" by (intro fl_mono_pos) simp_all
    then show ?thesis by (simp add: fl_neg)
  qed
qed

section \<open>What the clients need of rounding\<close>

locale rounding =
  fixes rnd :: "rat \<Rightarrow> rat"
  assumes mono: "x \<le> y \<Longrightarrow> rnd x \<le> rnd y"
    and exact: "\<bar>m\<bar> < 2 ^ 53 \<Longrightarrow> - 1074 \<le> e \<Longrightarrow> rnd (of_int m * pow2 e) = of_int m * pow2 e"
begin

lemma int_exact: "\<bar>n\<bar> < 2 ^ 53 \<Longrightarrow> rnd (of_int n) = of_int n"
  using exact [of n 0] by simp

lemma scaled_exact:
  assumes "\<bar>n\<bar> < 2 ^ 53" and "k \<le> 1074"
  shows "rnd (of_int n / 2 ^ k) = of_int n / 2 ^ k"
proof -
  have "pow2 (- int k) = 1 / 2 ^ k" by (cases "k = 0") (simp_all add: pow2_def)
  with exact [of n "- int k"] assms show ?thesis by simp
qed

lemma quarter_exact: "\<bar>n\<bar> < 2 ^ 53 \<Longrightarrow> rnd (of_int n / 4) = of_int n / 4"
  using scaled_exact [of n 2] by simp

lemma quarter_roundtrip: "\<bar>n\<bar> < 2 ^ 53 \<Longrightarrow> rne (rnd (rnd (of_int n / 4) * 4)) = n"
  by (simp add: quarter_exact int_exact)

text \<open>
  Rounding moves no number across a representable one, so the ceiling of a rounded number is
  the ceiling of the number whenever it stays a dyadic gap above the integer below.
\<close>

lemma ceiling_stable:
  assumes lo: "of_int (c - 1) + 1 / 2 ^ k \<le> x" and hi: "x \<le> of_int c"
    and c: "\<bar>c\<bar> < 2 ^ 53" and ck: "\<bar>(c - 1) * 2 ^ k + 1\<bar> < 2 ^ 53" and k: "k \<le> 1074"
  shows "\<lceil>rnd x\<rceil> = c"
proof (rule ceiling_unique)
  have "rnd (of_int ((c - 1) * 2 ^ k + 1) / 2 ^ k) = of_int ((c - 1) * 2 ^ k + 1) / 2 ^ k"
    using ck k by (rule scaled_exact)
  moreover have eq: "of_int ((c - 1) * 2 ^ k + 1) / 2 ^ k = (of_int (c - 1) + 1 / 2 ^ k :: rat)"
    by (simp add: field_simps)
  ultimately have "of_int (c - 1) + 1 / 2 ^ k \<le> rnd x"
    using mono [OF lo] by metis
  moreover have "(0 :: rat) < 1 / 2 ^ k" by simp
  ultimately have "of_int (c - 1) < rnd x" by linarith
  then show "of_int c - 1 < rnd x" by simp
next
  show "rnd x \<le> of_int c" using mono [OF hi] int_exact [OF c] by simp
qed

text \<open>The same for truncation of a nonnegative number that stays below the next integer.\<close>

lemma floor_stable:
  assumes lo: "of_int c \<le> x" and hi: "x \<le> of_int (c + 1) - 1 / 2 ^ k"
    and c: "\<bar>c\<bar> < 2 ^ 53" and ck: "\<bar>(c + 1) * 2 ^ k - 1\<bar> < 2 ^ 53" and k: "k \<le> 1074"
  shows "\<lfloor>rnd x\<rfloor> = c"
proof (rule floor_unique)
  show "of_int c \<le> rnd x" using mono [OF lo] int_exact [OF c] by simp
next
  have "rnd (of_int ((c + 1) * 2 ^ k - 1) / 2 ^ k) = of_int ((c + 1) * 2 ^ k - 1) / 2 ^ k"
    using ck k by (rule scaled_exact)
  moreover have "of_int ((c + 1) * 2 ^ k - 1) / 2 ^ k = (of_int (c + 1) - 1 / 2 ^ k :: rat)"
    by (simp add: field_simps)
  ultimately have le: "rnd x \<le> of_int (c + 1) - 1 / 2 ^ k"
    using mono [OF hi] by simp
  have "(0 :: rat) < 1 / 2 ^ k" by simp
  with le have "rnd x < of_int (c + 1)" by linarith
  then show "rnd x < of_int c + 1" by simp
qed

end

interpretation b64: rounding fl
  by unfold_locales (simp_all only: fl_mono fl_dyadic)

end
