(* ===== verification/Sha256.thy ===== *)
theory Sha256
  imports Py_Prelude "HOL-Library.Word"
begin

unbundle bit_operations_syntax

text \<open>
  \<^verbatim>\<open>hashlib.sha256(text.encode()).hexdigest()\<close>: the UTF-8 encoding of a string, the FIPS 180-4
  hash of its bytes on 32-bit words, and the lower-case hexadecimal digest. The driver uses
  the digest to derive the owned names of a run, to fingerprint payloads and reports, and as
  the checked receipt of a batch; what those uses rely on is its length and its alphabet.
\<close>

section \<open>Bytes\<close>

definition utf8_char :: "char \<Rightarrow> nat list" where
  "utf8_char c = (let k = of_char c in if k < 128 then [k] else [192 + k div 64, 128 + k mod 64])"

definition utf8 :: "string \<Rightarrow> nat list" where
  "utf8 s = concat (map utf8_char s)"

lemma utf8_char_byte: "b \<in> set (utf8_char c) \<Longrightarrow> b < 256"
proof -
  assume b: "b \<in> set (utf8_char c)"
  have k: "of_char c < (256 :: nat)" by simp
  then have "of_char c div 64 < (4 :: nat)" by linarith
  moreover have "of_char c mod 64 < (64 :: nat)" by simp
  ultimately show ?thesis using b by (auto simp: utf8_char_def Let_def split: if_splits)
qed

lemma utf8_byte: "b \<in> set (utf8 s) \<Longrightarrow> b < 256"
  by (auto simp: utf8_def dest: utf8_char_byte)

lemma utf8_Nil [simp]: "utf8 [] = []"
  by (simp add: utf8_def)

lemma utf8_append [simp]: "utf8 (s @ t) = utf8 s @ utf8 t"
  by (simp add: utf8_def)

section \<open>The compression function\<close>

type_synonym u32 = "32 word"

definition rotr :: "nat \<Rightarrow> u32 \<Rightarrow> u32" where
  "rotr n w = drop_bit n w OR push_bit (32 - n) w"

definition round_keys :: "u32 list" where
  "round_keys = [
   1116352408, 1899447441, 3049323471, 3921009573, 961987163, 1508970993, 2453635748, 2870763221,
   3624381080, 310598401, 607225278, 1426881987, 1925078388, 2162078206, 2614888103, 3248222580,
   3835390401, 4022224774, 264347078, 604807628, 770255983, 1249150122, 1555081692, 1996064986,
   2554220882, 2821834349, 2952996808, 3210313671, 3336571891, 3584528711, 113926993, 338241895,
   666307205, 773529912, 1294757372, 1396182291, 1695183700, 1986661051, 2177026350, 2456956037,
   2730485921, 2820302411, 3259730800, 3345764771, 3516065817, 3600352804, 4094571909,
   275423344, 430227734, 506948616, 659060556, 883997877, 958139571, 1322822218, 1537002063,
   1747873779, 1955562222, 2024104815, 2227730452, 2361852424, 2428436474, 2756734187,
   3204031479, 3329325298]"

definition initial_hash :: "u32 list" where
  "initial_hash = [
   1779033703, 3144134277, 1013904242, 2773480762, 1359893119, 2600822924, 528734635, 1541459225]"

definition sha_ch :: "u32 \<Rightarrow> u32 \<Rightarrow> u32 \<Rightarrow> u32" where
  "sha_ch e f g = (e AND f) XOR (NOT e AND g)"

definition sha_maj :: "u32 \<Rightarrow> u32 \<Rightarrow> u32 \<Rightarrow> u32" where
  "sha_maj a b c = (a AND b) XOR (a AND c) XOR (b AND c)"

text \<open>The message schedule keeps the last sixteen words, newest first.\<close>

definition schedule_word :: "u32 list \<Rightarrow> u32" where
  "schedule_word recent =
     (let w15 = recent ! 14; w2 = recent ! 1;
          s0 = rotr 7 w15 XOR rotr 18 w15 XOR drop_bit 3 w15;
          s1 = rotr 17 w2 XOR rotr 19 w2 XOR drop_bit 10 w2
      in recent ! 15 + s0 + recent ! 6 + s1)"

primrec extend_schedule :: "nat \<Rightarrow> u32 list \<Rightarrow> u32 list" where
  "extend_schedule 0 recent = recent"
| "extend_schedule (Suc n) recent = extend_schedule n (schedule_word recent # recent)"

type_synonym hash_state = "u32 \<times> u32 \<times> u32 \<times> u32 \<times> u32 \<times> u32 \<times> u32 \<times> u32"

fun sha_round :: "hash_state \<Rightarrow> u32 \<times> u32 \<Rightarrow> hash_state" where
  "sha_round (a, b, c, d, e, f, g, h) (k, w) =
     (let t1 = h + (rotr 6 e XOR rotr 11 e XOR rotr 25 e) + sha_ch e f g + k + w;
          t2 = (rotr 2 a XOR rotr 13 a XOR rotr 22 a) + sha_maj a b c
      in (t1 + t2, a, b, c, d + t1, e, f, g))"

fun state_words :: "hash_state \<Rightarrow> u32 list" where
  "state_words (a, b, c, d, e, f, g, h) = [a, b, c, d, e, f, g, h]"

fun words_state :: "u32 list \<Rightarrow> hash_state" where
  "words_state [a, b, c, d, e, f, g, h] = (a, b, c, d, e, f, g, h)"
| "words_state _ = (0, 0, 0, 0, 0, 0, 0, 0)"

definition compress :: "u32 list \<Rightarrow> u32 list \<Rightarrow> u32 list" where
  "compress hash block =
     (let w = rev (extend_schedule 48 (rev block));
          out = state_words (foldl sha_round (words_state hash) (zip round_keys w))
      in map2 (+) hash out)"

section \<open>Padding and the digest\<close>

definition word_of_bytes :: "nat list \<Rightarrow> u32" where
  "word_of_bytes bs = foldl (\<lambda>a b. push_bit 8 a OR of_nat b) 0 bs"

fun chunks :: "nat \<Rightarrow> 'a list \<Rightarrow> 'a list list" where
  "chunks n xs = (if n = 0 \<or> xs = [] then [] else take n xs # chunks n (drop n xs))"

declare chunks.simps [simp del]

primrec be_bytes :: "nat \<Rightarrow> nat \<Rightarrow> nat list" where
  "be_bytes 0 k = []"
| "be_bytes (Suc n) k = be_bytes n (k div 256) @ [k mod 256]"

definition sha_pad :: "nat list \<Rightarrow> nat list" where
  "sha_pad bs =
     bs @ [128] @ replicate ((119 - length bs mod 64) mod 64) 0 @ be_bytes 8 (8 * length bs)"

definition sha256_words :: "nat list \<Rightarrow> u32 list" where
  "sha256_words bs =
     foldl compress initial_hash (map (\<lambda>b. map word_of_bytes (chunks 4 b)) (chunks 64 (sha_pad bs)))"

definition hex_digit :: "nat \<Rightarrow> char" where
  "hex_digit d = char_of (if d < 10 then 48 + d else 87 + d)"

definition hex_word :: "u32 \<Rightarrow> string" where
  "hex_word w = map (\<lambda>i. hex_digit (unat (drop_bit (28 - 4 * i) w AND 15))) [0..<8]"

definition sha256_bytes :: "nat list \<Rightarrow> string" where
  "sha256_bytes bs = concat (map hex_word (sha256_words bs))"

definition sha256_hex :: "string \<Rightarrow> string" where
  "sha256_hex s = sha256_bytes (utf8 s)"

section \<open>Length and alphabet of the digest\<close>

definition is_hex_char :: "char \<Rightarrow> bool" where
  "is_hex_char c \<longleftrightarrow> is_dec_digit c \<or> 97 \<le> (of_char c :: nat) \<and> (of_char c :: nat) \<le> 102"

lemma length_state_words [simp]: "length (state_words s) = 8"
  by (cases s rule: state_words.cases) simp

lemma length_compress: "length h = 8 \<Longrightarrow> length (compress h b) = 8"
  by (simp add: compress_def Let_def)

lemma length_foldl_compress: "length h = 8 \<Longrightarrow> length (foldl compress h bs) = 8"
  by (induction bs arbitrary: h) (simp_all add: length_compress)

lemma length_sha256_words [simp]: "length (sha256_words bs) = 8"
  by (simp add: sha256_words_def length_foldl_compress initial_hash_def)

lemma length_hex_word [simp]: "length (hex_word w) = 8"
  by (simp add: hex_word_def)

lemma hex_digit_char: "d < 16 \<Longrightarrow> is_hex_char (hex_digit d)"
  by (auto simp: is_hex_char_def is_dec_digit_def hex_digit_def)

lemma unat_nibble: "unat (w AND 15 :: u32) < 16"
proof -
  have "w AND 15 \<le> (15 :: u32)" by (rule word_and_le1)
  then have "unat (w AND 15) \<le> unat (15 :: u32)" by (simp add: word_le_nat_alt)
  then show ?thesis by simp
qed

lemma hex_word_chars: "c \<in> set (hex_word w) \<Longrightarrow> is_hex_char c"
  by (auto simp: hex_word_def intro!: hex_digit_char unat_nibble)

lemma length_sha256_bytes [simp]: "length (sha256_bytes bs) = 64"
proof -
  have "length (concat (map hex_word ws)) = 8 * length ws" for ws
    by (induction ws) simp_all
  then show ?thesis by (simp add: sha256_bytes_def)
qed

lemma length_sha256_hex [simp]: "length (sha256_hex s) = 64"
  by (simp add: sha256_hex_def)

lemma sha256_bytes_chars: "c \<in> set (sha256_bytes bs) \<Longrightarrow> is_hex_char c"
  by (auto simp: sha256_bytes_def dest: hex_word_chars)

lemma sha256_hex_chars: "c \<in> set (sha256_hex s) \<Longrightarrow> is_hex_char c"
  by (simp add: sha256_hex_def sha256_bytes_chars)

section \<open>Padding fills whole blocks\<close>

lemma length_be_bytes [simp]: "length (be_bytes n k) = n"
  by (induction n arbitrary: k) simp_all

lemma length_sha_pad: "length (sha_pad bs) mod 64 = 0"
proof -
  have len: "length (sha_pad bs) = length bs + 9 + (119 - length bs mod 64) mod 64"
    by (simp add: sha_pad_def)
  have "(n + 9 + (119 - n mod 64) mod 64) mod 64 = 0" for n :: nat
  proof -
    define r q where "r = n mod 64" and "q = n div 64"
    have n: "n = 64 * q + r" and r: "r < 64" by (simp_all add: r_def q_def)
    have "\<exists>k. (119 - r) mod 64 + r + 9 = 64 * k"
    proof (cases "r \<le> 55")
      case True
      then have eq: "119 - r = 64 + (55 - r)" by simp
      have "(119 - r) mod 64 = 55 - r" unfolding eq by simp
      with True have "(119 - r) mod 64 + r + 9 = 64 * 1" by simp
      then show ?thesis ..
    next
      case False
      with r have "(119 - r) mod 64 = 119 - r" by (intro mod_less) simp
      with r have "(119 - r) mod 64 + r + 9 = 64 * 2" by simp
      then show ?thesis ..
    qed
    then obtain k where k: "(119 - r) mod 64 + r + 9 = 64 * k"..
    have "n + 9 + (119 - r) mod 64 = 64 * (q + k)"
      using k by (simp add: n algebra_simps)
    then show ?thesis unfolding r_def [symmetric] by (metis mod_mult_self1_is_0)
  qed
  then show ?thesis by (simp only: len)
qed

end
