(* ===== verification/Json.thy ===== *)
theory Json
  imports Py_Float Sha256
begin

text \<open>
  The values \<^verbatim>\<open>json.loads\<close> returns and \<^verbatim>\<open>json.dumps\<close> takes, Python's \<^verbatim>\<open>==\<close> on them (an
  \<^verbatim>\<open>int\<close>, a \<^verbatim>\<open>bool\<close> and a \<^verbatim>\<open>float\<close> that denote one number are equal), dictionary access,
  and the encoder with the options the driver uses. A dictionary is an association list in
  insertion order.
\<close>

section \<open>Values and dictionaries\<close>

datatype json =
    JNull
  | JBool bool
  | JInt int
  | JFloat pyfloat
  | JStr string
  | JList "json list"
  | JObj "(string \<times> json) list"

type_synonym dict = "(string \<times> json) list"

text \<open>\<^verbatim>\<open>d.get(k)\<close>: a missing key reads as \<^verbatim>\<open>None\<close>.\<close>

definition dget :: "dict \<Rightarrow> string \<Rightarrow> json" where
  "dget d k = (case map_of d k of None \<Rightarrow> JNull | Some v \<Rightarrow> v)"

text \<open>\<^verbatim>\<open>d[k]\<close>: a missing key raises.\<close>

definition dindex :: "dict \<Rightarrow> string \<Rightarrow> json result" where
  "dindex d k = (case map_of d k of None \<Rightarrow> Inl (KeyError k) | Some v \<Rightarrow> Inr v)"

text \<open>\<^verbatim>\<open>d[k] = v\<close>: replaced in place, appended when new.\<close>

fun dset :: "dict \<Rightarrow> string \<Rightarrow> json \<Rightarrow> dict" where
  "dset [] k v = [(k, v)]"
| "dset ((k', v') # d) k v = (if k' = k then (k, v) # d else (k', v') # dset d k v)"

text \<open>\<^verbatim>\<open>x.get(k) if isinstance(x, dict) else None\<close>.\<close>

definition jget :: "json \<Rightarrow> string \<Rightarrow> json" where
  "jget x k = (case x of JObj d \<Rightarrow> dget d k | _ \<Rightarrow> JNull)"

lemma map_of_dset: "map_of (dset d k v) = (map_of d)(k \<mapsto> v)"
  by (induction d k v rule: dset.induct) auto

lemma dget_dset [simp]: "dget (dset d k v) j = (if j = k then v else dget d j)"
  by (simp add: dget_def map_of_dset)

lemma distinct_dset: "distinct (map fst d) \<Longrightarrow> distinct (map fst (dset d k v))"
proof -
  have keys: "set (map fst (dset d k v)) = insert k (set (map fst d))"
    by (induction d k v rule: dset.induct) auto
  then show "distinct (map fst d) \<Longrightarrow> distinct (map fst (dset d k v))"
  proof (induction d k v rule: dset.induct)
    case (2 k' v' d k v)
    have "set (map fst (dset d k v)) = insert k (set (map fst d))"
      by (induction d k v rule: dset.induct) auto
    with 2 show ?case by auto
  qed simp
qed

definition is_dict :: "json \<Rightarrow> bool" where
  "is_dict x = (case x of JObj _ \<Rightarrow> True | _ \<Rightarrow> False)"

definition is_int :: "json \<Rightarrow> bool" where
  "is_int x = (case x of JInt _ \<Rightarrow> True | _ \<Rightarrow> False)"

definition is_str :: "json \<Rightarrow> bool" where
  "is_str x = (case x of JStr _ \<Rightarrow> True | _ \<Rightarrow> False)"

section \<open>Python equality\<close>

text \<open>The number a value denotes, if it is a \<^verbatim>\<open>bool\<close>, an \<^verbatim>\<open>int\<close> or a \<^verbatim>\<open>float\<close>.\<close>

definition json_num :: "json \<Rightarrow> pyfloat option" where
  "json_num x = (case x of
     JBool b \<Rightarrow> Some (Fin (if b then 1 else 0))
   | JInt i \<Rightarrow> Some (Fin (of_int i))
   | JFloat f \<Rightarrow> Some f
   | _ \<Rightarrow> None)"

definition num_eq :: "pyfloat \<Rightarrow> pyfloat \<Rightarrow> bool" where
  "num_eq a b \<longleftrightarrow> a = b \<and> a \<noteq> NaN"

fun py_eq :: "json \<Rightarrow> json \<Rightarrow> bool" where
  "py_eq JNull y = (y = JNull)"
| "py_eq (JStr s) y = (y = JStr s)"
| "py_eq (JList xs) y = (case y of JList ys \<Rightarrow> list_all2 py_eq xs ys | _ \<Rightarrow> False)"
| "py_eq (JObj d) y =
     (case y of JObj e \<Rightarrow>
        length d = length e \<and>
        list_all (\<lambda>kv. case map_of e (fst kv) of None \<Rightarrow> False | Some w \<Rightarrow> py_eq (snd kv) w) d
      | _ \<Rightarrow> False)"
| "py_eq x y = (case (json_num x, json_num y) of (Some a, Some b) \<Rightarrow> num_eq a b | _ \<Rightarrow> False)"

section \<open>The text of a float\<close>

text \<open>
  \<^verbatim>\<open>repr\<close> of a float: the fewest decimal digits that read back as the same float, the
  closest to it among those, positional when the decimal exponent is in \<open>-4..15\<close>.
\<close>

definition pow10 :: "int \<Rightarrow> rat" where
  "pow10 e = (if 0 \<le> e then 10 ^ nat e else 1 / 10 ^ nat (- e))"

definition ilog10 :: "rat \<Rightarrow> int" where
  "ilog10 x = (let k = (ilog2 x * 30103) div 100000 in
     if pow10 (k + 1) \<le> x then k + 1 else if pow10 k \<le> x then k else k - 1)"

definition repr_candidates :: "rat \<Rightarrow> int" where
  "repr_candidates s = (let n = rne s in if n = \<lfloor>s\<rfloor> then \<lfloor>s\<rfloor> + 1 else \<lfloor>s\<rfloor>)"

fun repr_search :: "nat list \<Rightarrow> rat \<Rightarrow> int \<Rightarrow> int \<times> int" where
  "repr_search [] x e = (rne (x / pow10 (e - 16)), e - 16)"
| "repr_search (n # ns) x e =
     (let q = e + 1 - int n; s = x / pow10 q; near = rne s; other = repr_candidates s in
      if fl (of_int near * pow10 q) = x then (near, q)
      else if fl (of_int other * pow10 q) = x then (other, q)
      else repr_search ns x e)"

fun strip_zeros :: "nat \<Rightarrow> int \<Rightarrow> int \<Rightarrow> int \<times> int" where
  "strip_zeros 0 m q = (m, q)"
| "strip_zeros (Suc k) m q = (if m mod 10 = 0 \<and> m \<noteq> 0 then strip_zeros k (m div 10) (q + 1) else (m, q))"

definition positional :: "string \<Rightarrow> int \<Rightarrow> string" where
  "positional ds point =
     (let n = int (length ds) in
      if point \<le> 0 then ''0.'' @ replicate (nat (- point)) (CHR ''0'') @ ds
      else if n \<le> point then ds @ replicate (nat (point - n)) (CHR ''0'') @ ''.0''
      else take (nat point) ds @ ''.'' @ drop (nat point) ds)"

definition scientific :: "string \<Rightarrow> int \<Rightarrow> string" where
  "scientific ds e =
     (let mant = (case ds of [] \<Rightarrow> [] | [d] \<Rightarrow> [d] | d # rest \<Rightarrow> d # CHR ''.'' # rest) in
      mant @ ''e'' @ (if e < 0 then ''-'' else ''+'') @ zpad 2 (dec_nat (nat \<bar>e\<bar>)))"

definition float_repr :: "rat \<Rightarrow> string" where
  "float_repr x =
     (if x = 0 then ''0.0'' else
      let a = \<bar>x\<bar>;
          (m0, q0) = repr_search [1..<18] a (ilog10 a);
          (m, q) = strip_zeros 17 m0 q0;
          ds = dec_nat (nat m);
          point = int (length ds) + q;
          body = (if - 4 < point \<and> point \<le> 16 then positional ds point else scientific ds (point - 1))
      in (if x < 0 then ''-'' else []) @ body)"

text \<open>A Python number that is an \<^verbatim>\<open>int\<close> or a \<^verbatim>\<open>float\<close>, its value and its \<^verbatim>\<open>str\<close>.\<close>

type_synonym pynum = "int + rat"

definition num_val :: "pynum \<Rightarrow> rat" where
  "num_val n = (case n of Inl i \<Rightarrow> of_int i | Inr x \<Rightarrow> x)"

definition num_str :: "pynum \<Rightarrow> string" where
  "num_str n = (case n of Inl i \<Rightarrow> dec_int i | Inr x \<Rightarrow> float_repr x)"

section \<open>The encoder\<close>

definition esc_char :: "bool \<Rightarrow> char \<Rightarrow> string" where
  "esc_char ascii c =
     (let k = (of_char c :: nat) in
      if c = CHR 0x22 then [CHR 0x5C, CHR 0x22]
      else if c = CHR 0x5C then [CHR 0x5C, CHR 0x5C]
      else if k = 10 then [CHR 0x5C, CHR ''n'']
      else if k = 13 then [CHR 0x5C, CHR ''r'']
      else if k = 9 then [CHR 0x5C, CHR ''t'']
      else if k = 12 then [CHR 0x5C, CHR ''f'']
      else if k = 8 then [CHR 0x5C, CHR ''b'']
      else if k < 32 \<or> (ascii \<and> 126 < k) then
        [CHR 0x5C, CHR ''u'', CHR ''0'', CHR ''0'', hex_digit (k div 16), hex_digit (k mod 16)]
      else [c])"

definition enc_str :: "bool \<Rightarrow> string \<Rightarrow> string" where
  "enc_str ascii s = [CHR 0x22] @ concat (map (esc_char ascii) s) @ [CHR 0x22]"

fun join_str :: "string \<Rightarrow> string list \<Rightarrow> string" where
  "join_str sep [] = []"
| "join_str sep [s] = s"
| "join_str sep (s # ss) = s @ sep @ join_str sep ss"

text \<open>
  \<open>opts\<close> is the pair of options \<open>(sort_keys, ensure_ascii)\<close>; the separators are always
  \<^verbatim>\<open>(",", ":")\<close> and \<^verbatim>\<open>allow_nan\<close> is always false.
\<close>

fun json_text :: "bool \<Rightarrow> bool \<Rightarrow> json \<Rightarrow> string" where
  "json_text srt asc JNull = ''null''"
| "json_text srt asc (JBool b) = (if b then ''true'' else ''false'')"
| "json_text srt asc (JInt i) = dec_int i"
| "json_text srt asc (JFloat f) = (case f of Fin x \<Rightarrow> float_repr x | _ \<Rightarrow> [])"
| "json_text srt asc (JStr s) = enc_str asc s"
| "json_text srt asc (JList xs) = ''['' @ join_str '','' (map (json_text srt asc) xs) @ '']''"
| "json_text srt asc (JObj d) =
     (let parts = map (\<lambda>kv. (fst kv, json_text srt asc (snd kv))) d;
          ordered = (if srt then sort_key fst parts else parts)
      in ''{'' @ join_str '','' (map (\<lambda>(k, t). enc_str asc k @ '':'' @ t) ordered) @ ''}'')"

text \<open>A float that is not finite makes the encoder raise.\<close>

fun json_finite :: "json \<Rightarrow> bool" where
  "json_finite (JFloat f) = is_finite f"
| "json_finite (JList xs) = list_all json_finite xs"
| "json_finite (JObj d) = list_all (\<lambda>kv. json_finite (snd kv)) d"
| "json_finite _ = True"

definition dumps :: "bool \<Rightarrow> bool \<Rightarrow> json \<Rightarrow> string result" where
  "dumps srt asc v =
     (if json_finite v then Inr (json_text srt asc v)
      else Inl (ValueError ''Out of range float values are not JSON compliant''))"

end
