(* ===== verification/Py_Number_Text.thy ===== *)
theory Py_Number_Text
  imports Py_Float
begin

text \<open>
  \<^verbatim>\<open>float()\<close> on text: white space is stripped, a sign and the words for infinity and
  not-a-number are accepted, a decimal literal may have a point and an exponent, and an
  underscore may stand between two digits. Anything else is a \<^verbatim>\<open>ValueError\<close>, here \<open>None\<close>.
\<close>

definition lower_char :: "char \<Rightarrow> char" where
  "lower_char c = (let k = (of_char c :: nat) in if 65 \<le> k \<and> k \<le> 90 then char_of (k + 32) else c)"

fun drop_underscores :: "bool \<Rightarrow> string \<Rightarrow> string option" where
  "drop_underscores after_digit [] = Some []"
| "drop_underscores after_digit (c # cs) =
     (if c = CHR ''_'' then
        (case cs of [] \<Rightarrow> None
         | d # _ \<Rightarrow> if after_digit \<and> is_dec_digit d then drop_underscores False cs else None)
      else map_option (\<lambda>t. c # t) (drop_underscores (is_dec_digit c) cs))"

definition split_at_char :: "(char \<Rightarrow> bool) \<Rightarrow> string \<Rightarrow> string \<times> string option" where
  "split_at_char p s =
     (case dropWhile (\<lambda>c. \<not> p c) s of [] \<Rightarrow> (s, None) | _ # rest \<Rightarrow> (takeWhile (\<lambda>c. \<not> p c) s, Some rest))"

definition all_digits :: "string \<Rightarrow> bool" where
  "all_digits s = list_all is_dec_digit s"

definition read_exponent :: "string option \<Rightarrow> int option" where
  "read_exponent e = (case e of None \<Rightarrow> Some 0
     | Some t \<Rightarrow>
         (let (neg, ds) = (case t of [] \<Rightarrow> (False, [])
                | c # cs \<Rightarrow> if c = CHR ''-'' then (True, cs) else if c = CHR ''+'' then (False, cs) else (False, t))
          in if ds \<noteq> [] \<and> all_digits ds then Some ((if neg then - 1 else 1) * int (dec_value ds)) else None))"

definition ten_to :: "int \<Rightarrow> rat" where
  "ten_to e = (if 0 \<le> e then 10 ^ nat e else 1 / 10 ^ nat (- e))"

definition read_unsigned :: "string \<Rightarrow> pyfloat option" where
  "read_unsigned s =
     (let low = map lower_char s in
      if low = ''inf'' \<or> low = ''infinity'' then Some PInf
      else if low = ''nan'' then Some NaN
      else case drop_underscores False s of None \<Rightarrow> None
       | Some t \<Rightarrow>
          (let (mant, ex) = split_at_char (\<lambda>c. c = CHR ''e'' \<or> c = CHR ''E'') t;
               (whole, frac) = split_at_char (\<lambda>c. c = CHR ''.'') mant;
               fs = (case frac of None \<Rightarrow> [] | Some f \<Rightarrow> f)
           in if \<not> all_digits whole \<or> \<not> all_digits fs \<or> whole @ fs = [] then None
              else case read_exponent ex of None \<Rightarrow> None
               | Some e \<Rightarrow> Some (to_float (of_nat (dec_value (whole @ fs)) * ten_to (e - int (length fs))))))"

primrec neg_float :: "pyfloat \<Rightarrow> pyfloat" where
  "neg_float (Fin x) = Fin (- x)"
| "neg_float PInf = MInf"
| "neg_float MInf = PInf"
| "neg_float NaN = NaN"

definition py_float :: "string \<Rightarrow> pyfloat option" where
  "py_float s =
     (case py_strip s of [] \<Rightarrow> None
      | c # cs \<Rightarrow>
          if c = CHR ''-'' then map_option neg_float (read_unsigned cs)
          else if c = CHR ''+'' then read_unsigned cs
          else read_unsigned (c # cs))"

end
