(* ===== verification/Core.thy ===== *)
theory Core
  imports Json Py_Number_Text
begin

text \<open>
  The pure primitives of the comparison runner (\<^verbatim>\<open>core.py\<close>): the deterministic data set, the
  integer-quarter oracle that predicts every query result, canonical payload digests, latency
  percentiles, bounded argument parsing, safe identifiers and the outer deadline. The lemmas
  of each part are in \<open>Core_Laws\<close> and \<open>Dataset\<close>.
\<close>

section \<open>Measurements\<close>

definition SERIES_COUNT :: int where "SERIES_COUNT = 1024"
definition TENANT_COUNT :: int where "TENANT_COUNT = 4"
definition BUCKET_US :: int where "BUCKET_US = 60000000"
definition DATASET_SEED :: int where "DATASET_SEED = 20260915"

record Measurement =
  timestamp_us :: int
  tenant :: string
  series :: string
  value_q :: int

text \<open>\<^verbatim>\<open>value_q / 4.0\<close>: the integer is converted to a float, then divided.\<close>

definition quarter_float :: "int \<Rightarrow> rat" where
  "quarter_float q = fl (fl (of_int q) / 4)"

definition m_value :: "Measurement \<Rightarrow> rat" where
  "m_value row = quarter_float (value_q row)"

definition m_varve :: "Measurement \<Rightarrow> json" where
  "m_varve row = JObj [
     (''timestamp_us'', JInt (timestamp_us row)),
     (''tenant'', JStr (tenant row)),
     (''series'', JStr (series row)),
     (''value'', JFloat (Fin (m_value row))),
     (''tags'', JObj [])]"

text \<open>The row of the COPY and INSERT statements; the timestamp in microseconds since the epoch.\<close>

type_synonym pg_row = "int \<times> string \<times> string \<times> rat \<times> dict"

definition m_postgres :: "Measurement \<Rightarrow> pg_row" where
  "m_postgres row = (timestamp_us row, tenant row, series row, m_value row, [])"

definition aligned_base_us :: "int \<Rightarrow> int" where
  "aligned_base_us now_us = ((now_us - 24 * 60 * 60 * 1000000) div BUCKET_US) * BUCKET_US"

definition tenant_name :: "int \<Rightarrow> string" where
  "tenant_name k = ''tenant_'' @ dec_int k"

definition series_name :: "int \<Rightarrow> string" where
  "series_name k = ''series_'' @ zpad 4 (dec_nat (nat k))"

definition measurement_row :: "int \<Rightarrow> int \<Rightarrow> Measurement" where
  "measurement_row index base_us =
     (let series_index = index mod SERIES_COUNT in
      \<lparr>timestamp_us = base_us + (index div SERIES_COUNT) * 1000000 + series_index,
       tenant = tenant_name ((index div SERIES_COUNT) mod TENANT_COUNT),
       series = series_name series_index,
       value_q = (index * 17) mod 10000\<rparr>)"

definition measurement :: "int \<Rightarrow> int \<Rightarrow> Measurement result" where
  "measurement index base_us =
     (if index < 0 then Inl (ValueError ''measurement index must be nonnegative'')
      else Inr (measurement_row index base_us))"

definition late_row :: "int \<Rightarrow> int \<Rightarrow> Measurement" where
  "late_row index base_us =
     (let series_index = (index * 73) mod SERIES_COUNT in
      \<lparr>timestamp_us = base_us - 60000000 - (index mod 16) * 1000000 + series_index,
       tenant = tenant_name (index mod TENANT_COUNT),
       series = series_name series_index,
       value_q = - 4000 + (index * 29) mod 8000\<rparr>)"

definition late_measurement :: "int \<Rightarrow> int \<Rightarrow> Measurement result" where
  "late_measurement index base_us =
     (if index < 0 then Inl (ValueError ''late measurement index must be nonnegative'')
      else Inr (late_row index base_us))"

section \<open>Statistics\<close>

record Stats =
  st_count :: int
  sum_q :: int
  min_q :: "int option"
  max_q :: "int option"

definition empty_stats :: Stats where
  "empty_stats = \<lparr>st_count = 0, sum_q = 0, min_q = None, max_q = None\<rparr>"

definition stats_add :: "Stats \<Rightarrow> Measurement \<Rightarrow> Stats" where
  "stats_add s row =
     s\<lparr>st_count := st_count s + 1,
       sum_q := sum_q s + value_q row,
       min_q := (case min_q s of None \<Rightarrow> Some (value_q row) | Some m \<Rightarrow> Some (min m (value_q row))),
       max_q := (case max_q s of None \<Rightarrow> Some (value_q row) | Some m \<Rightarrow> Some (max m (value_q row)))\<rparr>"

definition quarter_json :: "int option \<Rightarrow> json" where
  "quarter_json q = (case q of None \<Rightarrow> JNull | Some k \<Rightarrow> JFloat (Fin (quarter_float k)))"

definition stats_json :: "Stats \<Rightarrow> dict" where
  "stats_json s = [
     (''count'', JInt (st_count s)),
     (''sum'', JFloat (Fin (quarter_float (sum_q s)))),
     (''min'', quarter_json (min_q s)),
     (''max'', quarter_json (max_q s))]"

section \<open>The oracle\<close>

text \<open>\<^verbatim>\<open>d.setdefault(k, Stats()).add(row)\<close> on a dictionary in insertion order.\<close>

fun setdefault_add :: "('k \<times> Stats) list \<Rightarrow> 'k \<Rightarrow> Measurement \<Rightarrow> ('k \<times> Stats) list" where
  "setdefault_add [] k row = [(k, stats_add empty_stats row)]"
| "setdefault_add ((k', s) # d) k row =
     (if k' = k then (k', stats_add s row) # d else (k', s) # setdefault_add d k row)"

record Oracle =
  all_stats :: Stats
  tenants :: "(string \<times> Stats) list"
  groups :: "((string \<times> string) \<times> Stats) list"
  selected_buckets :: "(int \<times> Stats) list"
  selected_rows :: "Measurement list"

definition selected :: "string \<times> string" where
  "selected = (''tenant_0'', ''series_0000'')"

definition empty_oracle :: Oracle where
  "empty_oracle =
     \<lparr>all_stats = empty_stats, tenants = [], groups = [], selected_buckets = [], selected_rows = []\<rparr>"

definition bucket_of :: "int \<Rightarrow> int" where
  "bucket_of ts = (ts div BUCKET_US) * BUCKET_US"

definition oracle_add :: "Oracle \<Rightarrow> Measurement \<Rightarrow> Oracle" where
  "oracle_add orc row =
     (let orc1 = orc\<lparr>all_stats := stats_add (all_stats orc) row,
                  tenants := setdefault_add (tenants orc) (tenant row) row,
                  groups := setdefault_add (groups orc) (tenant row, series row) row\<rparr>
      in if (tenant row, series row) = selected
         then orc1\<lparr>selected_buckets :=
                     setdefault_add (selected_buckets orc1) (bucket_of (timestamp_us row)) row,
                   selected_rows := selected_rows orc1 @ [row]\<rparr>
         else orc1)"

definition oracle_extend :: "Oracle \<Rightarrow> Measurement list \<Rightarrow> Oracle" where
  "oracle_extend orc rows = foldl oracle_add orc rows"

text \<open>\<^verbatim>\<open>sorted(xs, key=f, reverse=True)\<close> keeps equal elements in their order.\<close>

definition sorted_reverse :: "('a \<Rightarrow> 'b::linorder) \<Rightarrow> 'a list \<Rightarrow> 'a list" where
  "sorted_reverse f xs = rev (sort_key f (rev xs))"

definition selected_window :: "Oracle \<Rightarrow> nat \<Rightarrow> (int \<times> rat) list" where
  "selected_window orc limit =
     (let ordered = take limit (sorted_reverse (\<lambda>row. (timestamp_us row, value_q row)) (selected_rows orc))
      in map (\<lambda>row. (timestamp_us row, m_value row)) ordered)"

definition selected_recent :: "Oracle \<Rightarrow> int \<Rightarrow> int \<Rightarrow> Stats" where
  "selected_recent orc start_us end_us =
     foldl (\<lambda>s row. if start_us \<le> timestamp_us row \<and> timestamp_us row < end_us then stats_add s row else s)
       empty_stats (selected_rows orc)"

definition stats_at :: "('k \<times> Stats) list \<Rightarrow> 'k \<Rightarrow> Stats" where
  "stats_at d k = (case map_of d k of None \<Rightarrow> empty_stats | Some s \<Rightarrow> s)"

definition window_json :: "(int \<times> rat) list \<Rightarrow> json" where
  "window_json w = JList (map (\<lambda>(t, v). JObj [(''timestamp_us'', JInt t), (''value'', JFloat (Fin v))]) w)"

definition oracle_snapshot :: "Oracle \<Rightarrow> dict" where
  "oracle_snapshot orc = [
     (''global'', JObj (stats_json (all_stats orc))),
     (''tenants'', JObj (map (\<lambda>k. (k, JObj (stats_json (stats_at (tenants orc) k)))) (sort (map fst (tenants orc))))),
     (''selected_group'', JObj (stats_json (stats_at (groups orc) selected))),
     (''selected_buckets'',
        JObj (map (\<lambda>k. (dec_int k, JObj (stats_json (stats_at (selected_buckets orc) k))))
          (sort (map fst (selected_buckets orc))))),
     (''selected_window'', window_json (selected_window orc 5))]"

section \<open>Digests\<close>

definition canonical_json_sha256 :: "json \<Rightarrow> string result" where
  "canonical_json_sha256 v = ebind (dumps True False v) (\<lambda>encoded. Inr (sha256_hex encoded))"

definition canonical_payload :: "Measurement list \<Rightarrow> json" where
  "canonical_payload rows =
     JObj [(''format'', JStr ''varve-timescale-batch-v1''),
           (''rows'', JList (map (\<lambda>row. JList [JInt (timestamp_us row), JStr (tenant row), JStr (series row),
                                               JInt (value_q row), JObj []]) rows))]"

definition canonical_payload_digest :: "Measurement list \<Rightarrow> string" where
  "canonical_payload_digest rows = sha256_hex (json_text True False (canonical_payload rows))"

section \<open>Percentiles\<close>

definition percentile_index :: "nat \<Rightarrow> rat \<Rightarrow> int" where
  "percentile_index n fraction = max 0 (\<lceil>fl (fl (of_nat n) * fraction)\<rceil> - 1)"

definition percentile :: "rat list \<Rightarrow> rat \<Rightarrow> rat option result" where
  "percentile values fraction =
     (if \<not> (0 < fraction \<and> fraction \<le> 1) then Inl (ValueError ''fraction must be in (0, 1]'')
      else let ordered = sort values in
        if ordered = [] then Inr None
        else Inr (Some (ordered ! nat (percentile_index (length ordered) fraction))))"

record latency_report =
  samples :: nat
  p50_ms :: "rat option"
  p95_ms :: "rat option"
  p99_ms :: "rat option"
  max_ms :: "rat option"

definition latency_summary :: "rat list \<Rightarrow> latency_report result" where
  "latency_summary values =
     ebind (percentile values (fl (1 / 2))) (\<lambda>p50.
     ebind (percentile values (fl (19 / 20))) (\<lambda>p95.
     ebind (percentile values (fl (99 / 100))) (\<lambda>p99.
     Inr \<lparr>samples = length values, p50_ms = p50, p95_ms = p95, p99_ms = p99,
          max_ms = (if values = [] then None else Some (Max (set values)))\<rparr>)))"

section \<open>Bounded arguments and safe names\<close>

definition parse_bounded_int :: "string \<Rightarrow> string \<Rightarrow> int \<Rightarrow> int \<Rightarrow> int result" where
  "parse_bounded_int value name minimum maximum =
     (case py_int value of
        None \<Rightarrow> Inl (ValueError (name @ '' must be an integer''))
      | Some parsed \<Rightarrow>
          if minimum \<le> parsed \<and> parsed \<le> maximum then Inr parsed
          else Inl (ValueError (name @ '' must be in '' @ dec_int minimum @ ''..'' @ dec_int maximum)))"

definition parse_bounded_float :: "string \<Rightarrow> string \<Rightarrow> pynum \<Rightarrow> pynum \<Rightarrow> rat result" where
  "parse_bounded_float value name minimum maximum =
     (let range = Inl (ValueError (name @ '' must be finite and in '' @ num_str minimum @ ''..'' @ num_str maximum))
      in case py_float value of
        None \<Rightarrow> Inl (ValueError (name @ '' must be numeric''))
      | Some (Fin parsed) \<Rightarrow>
          if num_val minimum \<le> parsed \<and> parsed \<le> num_val maximum then Inr parsed else range
      | Some _ \<Rightarrow> range)"

definition is_lower :: "char \<Rightarrow> bool" where
  "is_lower c \<longleftrightarrow> 97 \<le> (of_char c :: nat) \<and> (of_char c :: nat) \<le> 122"

definition is_name_char :: "char \<Rightarrow> bool" where
  "is_name_char c \<longleftrightarrow> is_lower c \<or> is_dec_digit c \<or> c = CHR ''_''"

text \<open>The patterns \<^verbatim>\<open>[a-z][a-z0-9_]{0,62}\<close> and \<^verbatim>\<open>[a-z0-9][a-z0-9_]{0,23}\<close>, matched in full.\<close>

definition identifier_match :: "string \<Rightarrow> bool" where
  "identifier_match s =
     (case s of [] \<Rightarrow> False | c # cs \<Rightarrow> is_lower c \<and> length cs \<le> 62 \<and> list_all is_name_char cs)"

definition run_id_match :: "string \<Rightarrow> bool" where
  "run_id_match s =
     (case s of [] \<Rightarrow> False
      | c # cs \<Rightarrow> (is_lower c \<or> is_dec_digit c) \<and> length cs \<le> 23 \<and> list_all is_name_char cs)"

definition checked_identifier :: "string \<Rightarrow> string result" where
  "checked_identifier value =
     (if \<not> identifier_match value then Inl (ValueError ''unsafe SQL identifier'') else Inr value)"

definition checked_run_id :: "string \<Rightarrow> string result" where
  "checked_run_id value =
     (if \<not> run_id_match value then Inl (ValueError ''run-id must match [a-z0-9][a-z0-9_]{0,23}'')
      else Inr value)"

section \<open>The outer deadline\<close>

text \<open>The clock readings are arguments: the monotonic clock at construction and at each call.\<close>

record Deadline =
  dl_started :: rat
  dl_ends :: rat

definition new_deadline :: "rat \<Rightarrow> rat \<Rightarrow> Deadline result" where
  "new_deadline seconds now =
     (if \<not> (0 < seconds \<and> seconds \<le> 1800) then Inl (ValueError ''deadline seconds must be in (0, 1800]'')
      else Inr \<lparr>dl_started = now, dl_ends = fl (now + seconds)\<rparr>)"

definition dl_remaining :: "Deadline \<Rightarrow> rat \<Rightarrow> rat" where
  "dl_remaining d now = max 0 (fl (dl_ends d - now))"

definition dl_timeout :: "Deadline \<Rightarrow> rat \<Rightarrow> rat \<Rightarrow> rat result" where
  "dl_timeout d now per_call =
     (let remaining = dl_remaining d now in
      if remaining \<le> 0 then Inl (TimeoutError ''outer benchmark wall-clock ceiling reached'')
      else Inr (min per_call remaining))"

section \<open>The generator's own environment\<close>

text \<open>
  \<open>usage\<close> is what \<^verbatim>\<open>resource.getrusage\<close> returned; \<open>read_file\<close> is the operating
  system's answer for a path, \<open>None\<close> when the read or the decoding fails.
\<close>

definition cpu_snapshot :: "rat \<times> rat \<Rightarrow> dict" where
  "cpu_snapshot usage = [(''user_seconds'', JFloat (Fin (fst usage))), (''system_seconds'', JFloat (Fin (snd usage)))]"

definition cgroup_entry :: "(string \<Rightarrow> string option) \<Rightarrow> string \<Rightarrow> string \<times> json" where
  "cgroup_entry read_file name =
     (name, case read_file (''/sys/fs/cgroup/'' @ name) of
        Some content \<Rightarrow> JStr (py_strip (take 128 content))
      | None \<Rightarrow> JStr ''unavailable'')"

definition generator_platform :: "(string \<Rightarrow> string option) \<Rightarrow> string \<Rightarrow> string \<Rightarrow> json \<Rightarrow> dict" where
  "generator_platform read_file plat python cpus = [
     (''platform'', JStr plat),
     (''python'', JStr python),
     (''logical_cpus'', cpus),
     (''cgroup_v2'', JObj (map (cgroup_entry read_file) [''cpu.max'', ''memory.max'']))]"

end
