(* ===== verification/Core_Laws.thy ===== *)
theory Core_Laws
  imports Core
begin

text \<open>
  What the oracle of \<^verbatim>\<open>core.py\<close> computes. \<open>stats_spec\<close> says what the statistics of a
  list of quarter values are; the incremental \<open>stats_add\<close>, the dictionaries of statistics
  and the whole oracle are shown to compute it for the rows added, whatever their order.
\<close>

section \<open>Statistics of a list of values\<close>

definition stats_spec :: "int list \<Rightarrow> Stats" where
  "stats_spec qs =
     \<lparr>st_count = int (length qs), sum_q = sum_list qs,
      min_q = (if qs = [] then None else Some (Min (set qs))),
      max_q = (if qs = [] then None else Some (Max (set qs)))\<rparr>"

definition row_stats :: "Measurement list \<Rightarrow> Stats" where
  "row_stats rows = stats_spec (map value_q rows)"

lemma stats_spec_Nil [simp]: "stats_spec [] = empty_stats"
  by (simp add: stats_spec_def empty_stats_def)

lemma row_stats_Nil [simp]: "row_stats [] = empty_stats"
  by (simp add: row_stats_def)

lemma row_stats_snoc [simp]: "row_stats (rows @ [row]) = stats_add (row_stats rows) row"
  by (auto simp: row_stats_def stats_spec_def stats_add_def min.commute max.commute)

lemma stats_spec_mset: "mset xs = mset ys \<Longrightarrow> stats_spec xs = stats_spec ys"
proof -
  assume eq: "mset xs = mset ys"
  have "length xs = length ys" using eq by (rule mset_eq_length)
  moreover have "set xs = set ys" using eq by (rule mset_eq_setD)
  moreover have "sum_list xs = sum_list ys" using eq by (metis sum_mset_sum_list)
  moreover have "xs = [] \<longleftrightarrow> ys = []" using \<open>length xs = length ys\<close> by auto
  ultimately show ?thesis by (simp add: stats_spec_def)
qed

lemma row_stats_mset: "mset xs = mset ys \<Longrightarrow> row_stats xs = row_stats ys"
  unfolding row_stats_def by (rule stats_spec_mset) (simp add: mset_map)

lemma foldl_stats_add: "foldl stats_add empty_stats rows = row_stats rows"
  by (induction rows rule: rev_induct) simp_all

section \<open>Dictionaries of statistics\<close>

definition group_by :: "(Measurement \<Rightarrow> 'k) \<Rightarrow> Measurement list \<Rightarrow> ('k \<times> Stats) list" where
  "group_by key rows = foldl (\<lambda>d row. setdefault_add d (key row) row) [] rows"

lemma group_by_Nil [simp]: "group_by key [] = []"
  by (simp add: group_by_def)

lemma group_by_snoc [simp]: "group_by key (rows @ [row]) = setdefault_add (group_by key rows) (key row) row"
  by (simp add: group_by_def)

lemma setdefault_add_keys: "set (map fst (setdefault_add d k row)) = insert k (set (map fst d))"
  by (induction d k row rule: setdefault_add.induct) auto

lemma setdefault_add_distinct: "distinct (map fst d) \<Longrightarrow> distinct (map fst (setdefault_add d k row))"
proof (induction d k row rule: setdefault_add.induct)
  case (2 k' s d k row)
  then show ?case using setdefault_add_keys [of d k row] by auto
qed simp

lemma map_of_setdefault_add:
  "map_of (setdefault_add d k row) = (map_of d)(k \<mapsto> stats_add (stats_at d k) row)"
  by (induction d k row rule: setdefault_add.induct) (auto simp: stats_at_def)

lemma stats_at_setdefault_add:
  "stats_at (setdefault_add d k row) j = (if j = k then stats_add (stats_at d k) row else stats_at d j)"
  by (simp add: stats_at_def map_of_setdefault_add)

lemma group_by_keys: "set (map fst (group_by key rows)) = key ` set rows"
  by (induction rows rule: rev_induct) (simp_all add: setdefault_add_keys del: set_map)

lemma group_by_distinct: "distinct (map fst (group_by key rows))"
  by (induction rows rule: rev_induct) (simp_all add: setdefault_add_distinct)

lemma group_by_at: "stats_at (group_by key rows) k = row_stats (filter (\<lambda>r. key r = k) rows)"
proof (induction rows rule: rev_induct)
  case Nil
  then show ?case by (simp add: stats_at_def)
next
  case (snoc row rows)
  then show ?case by (auto simp: stats_at_setdefault_add)
qed

lemma map_of_group_by:
  "map_of (group_by key rows) k =
     (if k \<in> key ` set rows then Some (row_stats (filter (\<lambda>r. key r = k) rows)) else None)"
proof (cases "map_of (group_by key rows) k")
  case None
  then have "k \<notin> key ` set rows" by (simp only: map_of_eq_None_iff flip: group_by_keys) simp
  with None show ?thesis by simp
next
  case (Some s)
  then have "k \<in> key ` set rows" by (metis group_by_keys map_of_SomeD set_map image_eqI fst_conv)
  with Some group_by_at [of key rows k] show ?thesis by (simp add: stats_at_def)
qed

lemma sort_keys_group_by: "sort (map fst (group_by key rows)) = sorted_list_of_set (key ` set rows)"
  using sorted_list_of_set_sort_remdups [of "map fst (group_by key rows)"] group_by_distinct [of key rows]
  by (simp only: group_by_keys distinct_remdups_id)

section \<open>The oracle\<close>

definition is_selected :: "Measurement \<Rightarrow> bool" where
  "is_selected row \<longleftrightarrow> (tenant row, series row) = selected"

definition oracle_of :: "Measurement list \<Rightarrow> Oracle" where
  "oracle_of rows = oracle_extend empty_oracle rows"

text \<open>Every field of the oracle after any sequence of additions, in terms of the rows alone.\<close>

lemma oracle_of_eq:
  "oracle_of rows =
     \<lparr>all_stats = row_stats rows,
      tenants = group_by tenant rows,
      groups = group_by (\<lambda>r. (tenant r, series r)) rows,
      selected_buckets = group_by (\<lambda>r. bucket_of (timestamp_us r)) (filter is_selected rows),
      selected_rows = filter is_selected rows\<rparr>"
proof (induction rows rule: rev_induct)
  case Nil
  then show ?case by (simp add: oracle_of_def oracle_extend_def empty_oracle_def)
next
  case (snoc row rows)
  have "oracle_of (rows @ [row]) = oracle_add (oracle_of rows) row"
    by (simp add: oracle_of_def oracle_extend_def)
  then show ?case using snoc by (simp add: oracle_add_def is_selected_def Let_def)
qed

lemma oracle_extend_of: "oracle_extend (oracle_of rows) later = oracle_of (rows @ later)"
  by (simp add: oracle_of_def oracle_extend_def)

lemma selected_window_eq:
  "selected_window (oracle_of rows) k =
     map (\<lambda>(t, q). (t, quarter_float q))
       (take k (rev (sort (map (\<lambda>r. (timestamp_us r, value_q r)) (filter is_selected rows)))))"
proof -
  let ?key = "\<lambda>r. (timestamp_us r, value_q r)"
  let ?sel = "filter is_selected rows"
  have "map ?key (sorted_reverse ?key ?sel) = rev (sort (map ?key ?sel))"
  proof -
    have "map ?key (sort_key ?key (rev ?sel)) = sort (map ?key (rev ?sel))"
    proof (rule sym, rule properties_for_sort)
      show "mset (map ?key (sort_key ?key (rev ?sel))) = mset (map ?key (rev ?sel))" by simp
      show "sorted (map ?key (sort_key ?key (rev ?sel)))" by simp
    qed
    moreover have "sort (map ?key (rev ?sel)) = sort (map ?key ?sel)"
      by (rule properties_for_sort) simp_all
    ultimately show ?thesis by (simp add: sorted_reverse_def flip: rev_map)
  qed
  moreover have "selected_window (oracle_of rows) k =
      map (\<lambda>(t, q). (t, quarter_float q)) (take k (map ?key (sorted_reverse ?key ?sel)))"
    by (simp add: selected_window_def oracle_of_eq m_value_def take_map case_prod_unfold comp_def)
  ultimately show ?thesis by simp
qed

lemma selected_recent_eq:
  "selected_recent (oracle_of rows) a b =
     row_stats (filter (\<lambda>r. is_selected r \<and> a \<le> timestamp_us r \<and> timestamp_us r < b) rows)"
proof -
  have "foldl (\<lambda>s r. if p r then stats_add s r else s) empty_stats xs = row_stats (filter p xs)"
    for p and xs :: "Measurement list"
    by (induction xs rule: rev_induct) simp_all
  then show ?thesis by (simp add: selected_recent_def oracle_of_eq conj_commute)
qed

text \<open>The snapshot, like every prediction read from the oracle, forgets the order of the rows.\<close>

lemma oracle_snapshot_mset:
  assumes "mset rows = mset rows'"
  shows "oracle_snapshot (oracle_of rows) = oracle_snapshot (oracle_of rows')"
proof -
  have set_eq: "set rows = set rows'" using assms by (rule mset_eq_setD)
  have filt: "row_stats (filter p rows) = row_stats (filter p rows')" for p
    by (rule row_stats_mset) (simp add: mset_filter assms)
  have filt2: "row_stats (filter p (filter q rows)) = row_stats (filter p (filter q rows'))" for p q
    by (rule row_stats_mset) (simp add: mset_filter assms)
  have win: "selected_window (oracle_of rows) 5 = selected_window (oracle_of rows') 5"
    unfolding selected_window_eq by (intro arg_cong [where f = "\<lambda>s. map _ (take 5 (rev s))"] properties_for_sort)
      (simp_all add: mset_map mset_filter assms)
  have "row_stats rows = row_stats rows'" using assms by (rule row_stats_mset)
  then show ?thesis
    unfolding oracle_snapshot_def win
    by (simp add: oracle_of_eq sort_keys_group_by group_by_at set_eq filt filt2)
qed

section \<open>What the oracle predicts\<close>

text \<open>
  C1: after any rows have been added one by one, the oracle holds the exact statistics of
  all of them, of every tenant, of every group, of every minute bucket of the selected group
  and of every time window of the selected group, with no entry for a key no row has.
\<close>

theorem oracle_predicts_rows:
  "all_stats (oracle_extend empty_oracle rows) = row_stats rows \<and>
   map_of (tenants (oracle_extend empty_oracle rows)) t =
     (if t \<in> tenant ` set rows then Some (row_stats (filter (\<lambda>r. tenant r = t) rows)) else None) \<and>
   map_of (groups (oracle_extend empty_oracle rows)) g =
     (if g \<in> (\<lambda>r. (tenant r, series r)) ` set rows
      then Some (row_stats (filter (\<lambda>r. (tenant r, series r) = g) rows)) else None) \<and>
   map_of (selected_buckets (oracle_extend empty_oracle rows)) b =
     (if b \<in> (\<lambda>r. bucket_of (timestamp_us r)) ` set (filter is_selected rows)
      then Some (row_stats (filter (\<lambda>r. is_selected r \<and> bucket_of (timestamp_us r) = b) rows)) else None) \<and>
   selected_recent (oracle_extend empty_oracle rows) lo hi =
     row_stats (filter (\<lambda>r. is_selected r \<and> lo \<le> timestamp_us r \<and> timestamp_us r < hi) rows)"
  unfolding oracle_of_def [symmetric] selected_recent_eq
  by (simp add: oracle_of_eq map_of_group_by conj_commute)

text \<open>
  C38: the oracle's whole snapshot depends on the rows added only as a multiset. Concurrent
  writers may acknowledge batches in any order without changing what the run is checked against.
\<close>

theorem oracle_order_independent:
  assumes "mset rows = mset rows'"
  shows "oracle_snapshot (oracle_extend empty_oracle rows) = oracle_snapshot (oracle_extend empty_oracle rows')"
  using oracle_snapshot_mset [OF assms] by (simp add: oracle_of_def)

theorem oracle_order_independent_witness:
  "oracle_snapshot (oracle_extend empty_oracle [measurement_row 0 0, late_row 1 0]) =
   oracle_snapshot (oracle_extend empty_oracle [late_row 1 0, measurement_row 0 0])"
  by (rule oracle_order_independent) simp

end
