(* ===== verification/Dataset.thy ===== *)
theory Dataset
  imports Core_Laws
begin

text \<open>
  The deterministic data set: the initial stream is strictly increasing in time, the late
  stream lies strictly before it, and a late timestamp determines the residue class of its
  index, so equal timestamps mean equal tenant and series.
\<close>

lemmas dataset_consts = SERIES_COUNT_def TENANT_COUNT_def BUCKET_US_def

lemma measurement_nonneg: "0 \<le> i \<Longrightarrow> measurement i base = Inr (measurement_row i base)"
  by (simp add: measurement_def)

lemma late_measurement_nonneg: "0 \<le> i \<Longrightarrow> late_measurement i base = Inr (late_row i base)"
  by (simp add: late_measurement_def)

lemma measurement_row_simps [simp]:
  "timestamp_us (measurement_row i base) = base + (i div 1024) * 1000000 + i mod 1024"
  "tenant (measurement_row i base) = tenant_name ((i div 1024) mod 4)"
  "series (measurement_row i base) = series_name (i mod 1024)"
  "value_q (measurement_row i base) = (i * 17) mod 10000"
  by (simp_all add: measurement_row_def dataset_consts Let_def)

lemma late_row_simps [simp]:
  "timestamp_us (late_row i base) = base - 60000000 - (i mod 16) * 1000000 + (i * 73) mod 1024"
  "tenant (late_row i base) = tenant_name (i mod 4)"
  "series (late_row i base) = series_name ((i * 73) mod 1024)"
  "value_q (late_row i base) = - 4000 + (i * 29) mod 8000"
  by (simp_all add: late_row_def dataset_consts Let_def)

section \<open>Names\<close>

lemma series_name_inj:
  "0 \<le> a \<Longrightarrow> 0 \<le> b \<Longrightarrow> series_name a = series_name b \<longleftrightarrow> a = b"
  by (auto simp: series_name_def zpad_dec_nat_inj)

lemma tenant_name_inj:
  "0 \<le> a \<Longrightarrow> 0 \<le> b \<Longrightarrow> tenant_name a = tenant_name b \<longleftrightarrow> a = b"
  by (auto simp: tenant_name_def dec_int_def dec_nat_inj)

lemma tenant_name_0: "tenant_name 0 = ''tenant_0''"
  by (simp add: tenant_name_def dec_int_def dec_nat.simps)

lemma series_name_0: "series_name 0 = ''series_0000''"
  by (simp add: series_name_def zpad_def dec_nat.simps numeral_eq_Suc)

section \<open>The initial stream\<close>

lemma measurement_ts_strict_mono:
  assumes "i < j"
  shows "timestamp_us (measurement_row i base) < timestamp_us (measurement_row j base)"
proof -
  have b: "0 \<le> i mod 1024" "i mod 1024 < 1024" "0 \<le> j mod 1024" "j mod 1024 < 1024" by simp_all
  have ij: "i = 1024 * (i div 1024) + i mod 1024" "j = 1024 * (j div 1024) + j mod 1024" by simp_all
  from ij b assms have "i div 1024 < j div 1024 \<or> (i div 1024 = j div 1024 \<and> i mod 1024 < j mod 1024)"
    by linarith
  with b show ?thesis by auto
qed

lemma measurement_ts_inj:
  "timestamp_us (measurement_row i base) = timestamp_us (measurement_row j base) \<longleftrightarrow> i = j"
  using measurement_ts_strict_mono [of i j base] measurement_ts_strict_mono [of j i base]
  by (metis less_irrefl linorder_cases)

lemma measurement_ts_ge: "0 \<le> i \<Longrightarrow> base \<le> timestamp_us (measurement_row i base)"
  by simp

lemma measurement_value_bounds: "0 \<le> value_q (measurement_row i base)" "value_q (measurement_row i base) < 10000"
  by simp_all

section \<open>The late stream\<close>

lemma late_ts_bounds:
  "base - 76000000 < timestamp_us (late_row i base)"
  "timestamp_us (late_row i base) \<le> base - 60000000 + 1023"
proof -
  have "0 \<le> i mod 16" "i mod 16 \<le> 15" "0 \<le> (i * 73) mod 1024" "(i * 73) mod 1024 \<le> 1023"
    using pos_mod_bound [of 16 i] pos_mod_bound [of 1024 "i * 73"] by simp_all
  then show "base - 76000000 < timestamp_us (late_row i base)"
    "timestamp_us (late_row i base) \<le> base - 60000000 + 1023" by simp_all
qed

lemma late_value_bounds: "- 4000 \<le> value_q (late_row i base)" "value_q (late_row i base) < 4000"
  using pos_mod_bound [of 8000 "i * 29"] by simp_all

text \<open>The multiplier 73 is invertible modulo 1024: its inverse is 505.\<close>

lemma mult_73_505: "(i * 73 * 505) mod 1024 = i mod (1024 :: int)"
proof -
  have "i * 73 * 505 = i + 1024 * (36 * i)" by simp
  then show ?thesis by (simp only: mod_mult_self2)
qed

lemma mult_73_mod_inj: "(i * 73) mod 1024 = (j * 73) mod (1024 :: int) \<longleftrightarrow> i mod 1024 = j mod 1024"
proof
  assume "(i * 73) mod 1024 = (j * 73) mod 1024"
  then have "(i * 73 * 505) mod 1024 = (j * 73 * 505) mod 1024" by (rule mod_mult_cong) simp
  then show "i mod 1024 = j mod 1024" by (simp only: mult_73_505)
next
  assume "i mod 1024 = j mod 1024"
  then show "(i * 73) mod 1024 = (j * 73) mod 1024" by (rule mod_mult_cong) simp
qed

lemma mod_16_of_1024: "i mod 1024 = j mod 1024 \<Longrightarrow> i mod 16 = j mod (16 :: int)"
  using mod_mod_cancel [of 16 1024 i] mod_mod_cancel [of 16 1024 j] by simp

lemma gap_zero:
  "0 \<le> a \<Longrightarrow> a < 1024 \<Longrightarrow> 0 \<le> b \<Longrightarrow> b < 1024 \<Longrightarrow> a - b = 1000000 * d \<Longrightarrow> d = (0 :: int)"
  by (cases "d = 0", simp, cases "1 \<le> d", linarith, linarith)

lemma gap_diff:
  "base - 60000000 - x * 1000000 + a = base - 60000000 - y * 1000000 + b \<Longrightarrow> a - b = 1000000 * (x - y :: int)"
  by simp

lemma late_ts_eq_iff:
  "timestamp_us (late_row i base) = timestamp_us (late_row j base) \<longleftrightarrow> i mod 1024 = j mod 1024"
proof
  let ?a = "(i * 73) mod 1024" and ?b = "(j * 73) mod 1024"
  have r: "0 \<le> ?a" "?a < 1024" "0 \<le> ?b" "?b < 1024" by simp_all
  assume "timestamp_us (late_row i base) = timestamp_us (late_row j base)"
  then have eq: "?a - ?b = 1000000 * (i mod 16 - j mod 16)" unfolding late_row_simps by (rule gap_diff)
  from gap_zero [OF r eq] have "i mod 16 = j mod 16" by simp
  with eq have "?a - ?b = 0" by (simp only: diff_self mult_zero_right)
  then have "?a = ?b" by (simp only: right_minus_eq)
  then show "i mod 1024 = j mod 1024" using mult_73_mod_inj by blast
next
  assume eq: "i mod 1024 = j mod 1024"
  then have "i mod 16 = j mod 16" by (rule mod_16_of_1024)
  moreover have "(i * 73) mod 1024 = (j * 73) mod 1024" using eq mult_73_mod_inj by blast
  ultimately show "timestamp_us (late_row i base) = timestamp_us (late_row j base)"
    by (simp only: late_row_simps)
qed

section \<open>The two streams together\<close>

text \<open>
  C39: the initial stream is strictly increasing in time and starts at the base timestamp, and
  every late row lies before the base, so no late row ever shares a timestamp with an initial row.
\<close>

theorem dataset_timeline:
  assumes "0 \<le> i" "i < j" "0 \<le> k"
  shows "\<exists>a b l. measurement i base = Inr a \<and> measurement j base = Inr b \<and> late_measurement k base = Inr l \<and>
    timestamp_us l < base \<and> base \<le> timestamp_us a \<and> timestamp_us a < timestamp_us b"
proof -
  have "timestamp_us (late_row k base) < base" using late_ts_bounds(2) [of k base] by linarith
  then show ?thesis
    using assms measurement_ts_ge [of i base] measurement_ts_strict_mono [of i j base]
    by (auto simp: measurement_nonneg late_measurement_nonneg simp del: measurement_row_simps late_row_simps)
qed

theorem dataset_timeline_witness:
  "\<exists>a b l. measurement 1023 1800000000 = Inr a \<and> measurement 1024 1800000000 = Inr b \<and>
    late_measurement 7 1800000000 = Inr l \<and>
    timestamp_us l < 1800000000 \<and> 1800000000 \<le> timestamp_us a \<and> timestamp_us a < timestamp_us b"
  by (rule dataset_timeline) simp_all

text \<open>
  Two late rows have the same timestamp exactly when their indices agree modulo 1024, and
  then they belong to the same tenant and series.
\<close>

lemma late_stream_collisions:
  "timestamp_us (late_row i base) = timestamp_us (late_row j base) \<longleftrightarrow>
     i mod 1024 = j mod 1024 \<and>
     tenant (late_row i base) = tenant (late_row j base) \<and>
     series (late_row i base) = series (late_row j base)"
proof -
  have "i mod 4 = j mod 4" if "i mod 1024 = j mod 1024"
    using mod_mod_cancel [of 4 1024 i] mod_mod_cancel [of 4 1024 j] that by simp
  then show ?thesis
    using late_ts_eq_iff [of i base j] mult_73_mod_inj [of i j] unfolding late_row_simps(2,3) by metis
qed

end
