(* ===== verification/Percentiles.thy ===== *)
theory Percentiles
  imports Core
begin

text \<open>
  The percentile of \<^verbatim>\<open>core.py\<close> is the nearest-rank percentile although its rank is computed in
  binary64: the index is always in range, the result is one of the samples, and for the
  fractions the driver uses the rank is the exact ceiling of the rational product.
\<close>

lemma percentile_index_bounds:
  assumes "0 < n" "n < 2 ^ 53" "0 < f" "f \<le> 1"
  shows "0 \<le> percentile_index n f" "percentile_index n f < int n"
proof -
  have n: "\<bar>int n\<bar> < 2 ^ 53" using assms(2) by (metis abs_of_nat of_nat_less_iff of_nat_numeral of_nat_power)
  have eq: "fl (of_nat n) = of_nat n" using b64.int_exact [OF n] by simp
  have "fl (of_nat n * f) \<le> fl (of_nat n)"
    by (rule fl_mono) (use assms in \<open>simp add: mult_left_le\<close>)
  then have "\<lceil>fl (fl (of_nat n) * f)\<rceil> \<le> int n" by (simp add: eq ceiling_le_iff)
  with assms(1) show "percentile_index n f < int n" by (simp add: percentile_index_def)
qed (simp add: percentile_index_def)

lemma percentile_member:
  assumes "percentile xs f = Inr (Some v)" "length xs < 2 ^ 53"
  shows "v \<in> set xs"
proof -
  from assms(1) have f: "0 < f" "f \<le> 1" and xs: "xs \<noteq> []"
    and v: "v = sort xs ! nat (percentile_index (length xs) f)"
    by (auto simp: percentile_def Let_def split: if_splits)
  from percentile_index_bounds [of "length xs" f] assms(2) f xs
  have "nat (percentile_index (length xs) f) < length (sort xs)" by simp
  then have "v \<in> set (sort xs)" unfolding v by (rule nth_mem)
  then show ?thesis by simp
qed

text \<open>
  A fraction \<open>f\<close> a little below \<open>p / q\<close> gives the rank of \<open>p / q\<close> itself: the
  product stays at least \<open>1 / 128\<close> above the integer below it, which rounding cannot cross.
\<close>

lemma ceiling_range:
  "0 < c \<Longrightarrow> c < 2 ^ 40 \<Longrightarrow> \<bar>c\<bar> < 2 ^ 53 \<and> \<bar>(c - 1) * 2 ^ 7 + 1\<bar> < (2 ^ 53 :: int)"
  by simp

lemma rank_exact:
  fixes n p q :: int
  assumes n: "0 < n" "n < 2 ^ 40" and q: "0 < q" "q \<le> 100" and p: "0 < p" "p \<le> q"
    and f: "f \<le> of_int p / of_int q" "of_int p / of_int q \<le> f + 1 / 2 ^ 50"
  shows "\<lceil>fl (of_int n * f)\<rceil> = \<lceil>of_int (n * p) / (of_int q :: rat)\<rceil>"
proof -
  let ?x = "of_int (n * p) / of_int q :: rat"
  let ?c = "\<lceil>?x\<rceil>"
  have x: "?x = of_int n * (of_int p / of_int q)" by simp
  have hi: "of_int n * f \<le> of_int ?c"
  proof -
    have "of_int n * f \<le> of_int n * (of_int p / of_int q)" using n(1) f(1) by (intro mult_left_mono) simp_all
    also have "\<dots> = ?x" by (rule x [symmetric])
    also have "\<dots> \<le> of_int ?c" by (rule le_of_int_ceiling)
    finally show ?thesis .
  qed
  have "of_int (?c - 1) < ?x" by (simp add: ceiling_correct)
  then have "of_int ((?c - 1) * q) < (of_int (n * p) :: rat)" using q(1) by (simp add: pos_less_divide_eq)
  then have "(?c - 1) * q + 1 \<le> n * p" by (simp only: of_int_less_iff)
  then have "of_int ((?c - 1) * q + 1) \<le> (of_int (n * p) :: rat)" by (simp only: of_int_le_iff)
  then have "(of_int ((?c - 1) * q + 1) :: rat) / of_int q \<le> ?x" using q(1) by (simp add: divide_right_mono)
  then have gap: "of_int (?c - 1) + 1 / of_int q \<le> ?x" using q(1) by (simp add: add_divide_distrib)
  have "?x - of_int n * (1 / 2 ^ 50) \<le> of_int n * f"
    unfolding x using n(1) f(2) mult_left_mono [of "of_int p / of_int q" "f + 1 / 2 ^ 50" "of_int n"]
    by (simp add: algebra_simps)
  moreover have "of_int n * (1 / 2 ^ 50) \<le> (1 / 2 ^ 10 :: rat)"
  proof -
    have "(of_int n :: rat) \<le> of_int (2 ^ 40)" using n(2) by (simp only: of_int_le_iff less_imp_le)
    then show ?thesis by simp
  qed
  moreover have "(1 / 100 :: rat) \<le> 1 / of_int q"
    using q by (intro divide_left_mono) simp_all
  ultimately have lo: "of_int (?c - 1) + 1 / 2 ^ 7 \<le> of_int n * f" using gap by simp
  have c: "0 < ?c" "?c \<le> n"
  proof -
    have "0 < ?x" using n(1) p(1) q(1) by (simp add: zero_less_divide_iff)
    then show "0 < ?c" by (simp add: zero_less_ceiling)
    have "?x \<le> of_int n" using n(1) p q(1) by (simp add: divide_le_eq mult_left_mono flip: of_int_mult)
    then show "?c \<le> n" by (simp add: ceiling_le_iff)
  qed
  have small: "?c < 2 ^ 40" using c(2) n(2) by (rule le_less_trans)
  show ?thesis
  proof (rule b64.ceiling_stable [OF lo hi])
    show "\<bar>?c\<bar> < 2 ^ 53" "\<bar>(?c - 1) * 2 ^ 7 + 1\<bar> < 2 ^ 53"
      using ceiling_range [OF c(1) small] by simp_all
  qed simp
qed

lemma fl_95: "fl (19 / 20) = 4278419646001971 / 4503599627370496"
  by code_simp

lemma fl_99: "fl (99 / 100) = 4458563631096791 / 4503599627370496"
  by code_simp

lemma fl_50: "fl (1 / 2) = 1 / 2"
  using b64.scaled_exact [of 1 1] by simp

lemma percentile_rank:
  assumes n: "0 < n" "n < 2 ^ 40"
  shows "percentile_index n (fl (1 / 2)) = \<lceil>of_nat n / (2 :: rat)\<rceil> - 1"
    and "percentile_index n (fl (19 / 20)) = \<lceil>of_nat (n * 19) / (20 :: rat)\<rceil> - 1"
    and "percentile_index n (fl (99 / 100)) = \<lceil>of_nat (n * 99) / (100 :: rat)\<rceil> - 1"
proof -
  have "int n < int (2 ^ 40)" using n(2) by (simp only: of_nat_less_iff)
  then have i: "0 < int n" "int n < 2 ^ 40" using n(1) by simp_all
  then have "\<bar>int n\<bar> < 2 ^ 53" by simp
  then have flo: "fl (of_nat n) = of_nat n" using b64.int_exact [of "int n"] by simp
  have idx: "percentile_index n f = \<lceil>of_int (int n * p) / (of_int q :: rat)\<rceil> - 1"
    if "0 < q" "q \<le> 100" "0 < p" "p \<le> q" "f \<le> of_int p / of_int q" "of_int p / of_int q \<le> f + 1 / 2 ^ 50" for f p q
  proof -
    have pos: "0 < (of_int (int n * p) / of_int q :: rat)" using that i(1) by (simp add: zero_less_divide_iff)
    have "\<lceil>fl (fl (of_nat n) * f)\<rceil> = \<lceil>of_int (int n * p) / (of_int q :: rat)\<rceil>"
      using rank_exact [OF i that] by (simp add: flo)
    moreover have "0 < \<lceil>of_int (int n * p) / (of_int q :: rat)\<rceil>" using pos by (simp only: zero_less_ceiling)
    ultimately show ?thesis by (simp add: percentile_index_def)
  qed
  show "percentile_index n (fl (1 / 2)) = \<lceil>of_nat n / (2 :: rat)\<rceil> - 1"
    using idx [of 2 1 "fl (1 / 2)"] by (simp add: fl_50)
  show "percentile_index n (fl (19 / 20)) = \<lceil>of_nat (n * 19) / (20 :: rat)\<rceil> - 1"
    using idx [of 20 19 "fl (19 / 20)"] by (simp add: fl_95)
  show "percentile_index n (fl (99 / 100)) = \<lceil>of_nat (n * 99) / (100 :: rat)\<rceil> - 1"
    using idx [of 100 99 "fl (99 / 100)"] by (simp add: fl_99)
qed

section \<open>Nearest rank\<close>


text \<open>The entry of rank \<open>k\<close> of a sorted list separates the samples.\<close>

lemma sorted_nth_filter_le:
  assumes "sorted ys" "k < length ys"
  shows "Suc k \<le> length (filter (\<lambda>y. y \<le> ys ! k) ys)"
proof -
  have "y \<le> ys ! k" if "y \<in> set (take (Suc k) ys)" for y
  proof -
    from that obtain i where "i < Suc k" "i < length ys" "y = ys ! i"
      by (auto simp: in_set_conv_nth)
    then show ?thesis using assms by (simp add: sorted_nth_mono)
  qed
  then have "filter (\<lambda>y. y \<le> ys ! k) (take (Suc k) ys) = take (Suc k) ys" by (simp add: filter_id_conv)
  then have "filter (\<lambda>y. y \<le> ys ! k) ys =
      take (Suc k) ys @ filter (\<lambda>y. y \<le> ys ! k) (drop (Suc k) ys)"
    by (metis append_take_drop_id filter_append)
  then show ?thesis using assms(2) by simp
qed

lemma sorted_nth_filter_less:
  assumes "sorted ys" "k < length ys"
  shows "length (filter (\<lambda>y. y < ys ! k) ys) \<le> k"
proof -
  have "\<not> y < ys ! k" if "y \<in> set (drop k ys)" for y
  proof -
    from that obtain i where "i < length ys - k" "y = ys ! (k + i)"
      by (auto simp: in_set_conv_nth)
    then show ?thesis using assms by (simp add: sorted_nth_mono not_less)
  qed
  then have "filter (\<lambda>y. y < ys ! k) (drop k ys) = []" by (simp add: filter_empty_conv)
  then have "filter (\<lambda>y. y < ys ! k) ys = filter (\<lambda>y. y < ys ! k) (take k ys)"
    by (metis append_Nil2 append_take_drop_id filter_append)
  then show ?thesis using length_filter_le [of _ "take k ys"] by (simp add: order_trans)
qed

lemma length_filter_sort: "length (filter P (sort xs)) = length (filter P xs)"
  by (metis mset_filter mset_sort size_mset)

lemma nearest_rank:
  fixes xs :: "rat list"
  assumes xs: "xs \<noteq> []" "length xs < 2 ^ 40" and f: "0 < f" "f \<le> 1"
    and pq: "0 < p" "p \<le> q"
    and rank: "percentile_index (length xs) f = \<lceil>of_nat (length xs * p) / (of_nat q :: rat)\<rceil> - 1"
  shows "\<exists>v. percentile xs f = Inr (Some v) \<and>
    length xs * p \<le> length (filter (\<lambda>x. x \<le> v) xs) * q \<and>
    length (filter (\<lambda>x. x < v) xs) * q < length xs * p"
proof -
  let ?n = "length xs"
  let ?x = "of_nat (?n * p) / (of_nat q :: rat)"
  have idx: "0 \<le> percentile_index ?n f" "percentile_index ?n f < int ?n"
    using percentile_index_bounds [of ?n f] xs f by auto
  then obtain k where idx_k: "percentile_index ?n f = int k" and "k < ?n" by (metis nonneg_int_cases of_nat_less_iff)
  then have k: "k < length (sort xs)" by simp
  let ?v = "sort xs ! k"
  have q: "0 < (of_nat q :: rat)" using pq by simp
  have ck: "\<lceil>?x\<rceil> = int (Suc k)" using idx_k rank by simp
  have "?x \<le> of_int (int (Suc k))" using le_of_int_ceiling [of ?x] unfolding ck .
  then have "of_nat (?n * p) \<le> (of_nat (Suc k * q) :: rat)" using q by (simp add: pos_divide_le_eq distrib_right)
  then have up: "?n * p \<le> Suc k * q" by (simp only: of_nat_le_iff)
  have "of_int \<lceil>?x\<rceil> - 1 < ?x" by (simp add: ceiling_correct)
  then have "of_nat k < ?x" unfolding ck by simp
  then have "of_nat (k * q) < (of_nat (?n * p) :: rat)" using q by (simp add: pos_less_divide_eq)
  then have dn: "k * q < ?n * p" by (simp only: of_nat_less_iff)
  have "Suc k \<le> length (filter (\<lambda>x. x \<le> ?v) xs)" "length (filter (\<lambda>x. x < ?v) xs) \<le> k"
    using sorted_nth_filter_le [OF sorted_sort k] sorted_nth_filter_less [OF sorted_sort k]
    by (simp_all add: length_filter_sort)
  then have "?n * p \<le> length (filter (\<lambda>x. x \<le> ?v) xs) * q" "length (filter (\<lambda>x. x < ?v) xs) * q < ?n * p"
    using up dn by (meson mult_le_mono1 order_trans le_less_trans)+
  moreover have "percentile xs f = Inr (Some ?v)"
    using xs f by (simp add: percentile_def Let_def idx_k) (metis length_0_conv length_sort)
  ultimately show ?thesis by blast
qed


text \<open>
  C5: for the three fractions the driver reports (0.5, 0.95 and 0.99, each rounded to
  binary64) the percentile of a nonempty sample of fewer than \<open>2 ^ 40\<close> values is the nearest-rank
  percentile: at least that share of the samples is at or below the result, and less than that
  share is below it.
\<close>

theorem percentile_nearest_rank:
  assumes "xs \<noteq> []" "length xs < 2 ^ 40" "(p, q) \<in> {(1, 2), (19, 20), (99, 100)}"
  shows "\<exists>v. percentile xs (fl (of_nat p / of_nat q)) = Inr (Some v) \<and>
    length xs * p \<le> length (filter (\<lambda>x. x \<le> v) xs) * q \<and>
    length (filter (\<lambda>x. x < v) xs) * q < length xs * p"
proof -
  have n: "0 < length xs" using assms(1) by simp
  have "(p = 1 \<and> q = 2) \<or> (p = 19 \<and> q = 20) \<or> (p = 99 \<and> q = 100)" using assms(3) by auto
  then show ?thesis
  proof (elim disjE conjE)
    assume [simp]: "p = 1" "q = 2"
    show ?thesis using percentile_rank(1) [OF n assms(2)] by (intro nearest_rank [OF assms(1,2)]) (simp_all add: fl_50)
  next
    assume [simp]: "p = 19" "q = 20"
    show ?thesis using percentile_rank(2) [OF n assms(2)] by (intro nearest_rank [OF assms(1,2)]) (simp_all add: fl_95)
  next
    assume [simp]: "p = 99" "q = 100"
    show ?thesis using percentile_rank(3) [OF n assms(2)] by (intro nearest_rank [OF assms(1,2)]) (simp_all add: fl_99)
  qed
qed

theorem percentile_nearest_rank_witness:
  "\<exists>v. percentile [3, 1, 2, 5, 4] (fl (of_nat 19 / of_nat 20)) = Inr (Some v) \<and> v = 5 \<and>
     5 * 19 \<le> length (filter (\<lambda>x. x \<le> v) [3, 1, 2, 5, 4]) * 20"
proof -
  have "percentile [3, 1, 2, 5, 4] (fl (19 / 20)) = Inr (Some 5)"
    by (simp add: percentile_def percentile_index_def fl_95) code_simp
  then show ?thesis using percentile_nearest_rank [of "[3, 1, 2, 5, 4]" 19 20] by simp
qed

end
