(* ===== verification/Json_Parse.thy ===== *)
theory Json_Parse
  imports Json Py_Number_Text
begin

text \<open>
  The decoder of \<^verbatim>\<open>json.loads\<close> as the driver uses it: CPython's scanner, with the messages
  of its \<^verbatim>\<open>JSONDecodeError\<close>. The scanner is recursive on the text that is left; every call
  gets one unit of fuel less, and \<open>loads\<close> starts with more fuel than the text has characters,
  which \<open>scan_encoded\<close> shows to be enough for every text the encoder prints.
\<close>

section \<open>Tokens\<close>

text \<open>
  \<open>Decode\<close> carries the \<^verbatim>\<open>msg\<close> of a \<^verbatim>\<open>JSONDecodeError\<close>; \<open>Constant\<close> is the call of a
  \<^verbatim>\<open>parse_constant\<close> hook that raises; \<open>Wide\<close> marks an escaped character outside the
  range the model's strings have.
\<close>

datatype json_error = Decode string | Constant string | Wide

definition is_ws :: "char \<Rightarrow> bool" where
  "is_ws c \<longleftrightarrow> c = CHR '' '' \<or> (of_char c :: nat) \<in> {9, 10, 13}"

definition skip_ws :: "string \<Rightarrow> string" where
  "skip_ws s = dropWhile is_ws s"

definition is_hex_digit :: "char \<Rightarrow> bool" where
  "is_hex_digit c \<longleftrightarrow> is_hex_char (lower_char c)"

definition hex_value :: "char \<Rightarrow> nat" where
  "hex_value c = (let k = of_char c in if k \<le> 57 then k - 48 else k - 87)"

definition hex4 :: "string \<Rightarrow> nat option" where
  "hex4 s =
     (if 4 \<le> length s \<and> list_all is_hex_digit (take 4 s)
      then Some (foldl (\<lambda>n c. 16 * n + hex_value (lower_char c)) 0 (take 4 s)) else None)"

definition simple_escape :: "char \<Rightarrow> char option" where
  "simple_escape c =
     map_of [(CHR 0x22, CHR 0x22), (CHR 0x5C, CHR 0x5C), (CHR ''/'', CHR ''/''), (CHR ''b'', CHR 0x08),
             (CHR ''f'', CHR 0x0C), (CHR ''n'', CHR 0x0A), (CHR ''r'', CHR 0x0D),
             (CHR ''t'', CHR 0x09)] c"

text \<open>The characters after an opening quote up to the closing one, and the text after it.\<close>

fun scan_string :: "string \<Rightarrow> json_error + (string \<times> string)" where
  "scan_string [] = Inl (Decode ''Unterminated string starting at'')"
| "scan_string (c # cs) =
     (if c = CHR 0x22 then Inr ([], cs)
      else if c = CHR 0x5C then
        (case cs of
           [] \<Rightarrow> Inl (Decode ''Unterminated string starting at'')
         | e # rest \<Rightarrow>
             if e = CHR ''u'' then
               (case hex4 rest of
                  None \<Rightarrow> Inl (Decode (''Invalid '' @ [CHR 0x5C] @ ''uXXXX escape''))
                | Some k \<Rightarrow>
                    if 256 \<le> k then Inl Wide
                    else map_sum id (\<lambda>(s, r). (char_of k # s, r)) (scan_string (drop 4 rest)))
             else
               (case simple_escape e of
                  None \<Rightarrow> Inl (Decode (''Invalid '' @ [CHR 0x5C] @ ''escape''))
                | Some d \<Rightarrow> map_sum id (\<lambda>(s, r). (d # s, r)) (scan_string rest)))
      else if (of_char c :: nat) < 32 then Inl (Decode ''Invalid control character at'')
      else map_sum id (\<lambda>(s, r). (c # s, r)) (scan_string cs))"

text \<open>
  \<^verbatim>\<open>-?(0|[1-9][0-9]*)(\.[0-9]+)?([eE][+-]?[0-9]+)?\<close> at the head of the text: the characters
  of the number, whether it is a float, and the rest. \<open>None\<close> when no number starts there.
\<close>

definition scan_fraction :: "string \<Rightarrow> string \<times> string" where
  "scan_fraction s =
     (case s of
        d # e # rest \<Rightarrow>
          if d = CHR ''.'' \<and> is_dec_digit e
          then (d # takeWhile is_dec_digit (e # rest), dropWhile is_dec_digit (e # rest)) else ([], s)
      | _ \<Rightarrow> ([], s))"

definition scan_exponent :: "string \<Rightarrow> string \<times> string" where
  "scan_exponent s =
     (case s of
        e # rest \<Rightarrow>
          if e = CHR ''e'' \<or> e = CHR ''E'' then
            (let (sign, ds) = (case rest of
                 c # cs \<Rightarrow> if c = CHR ''+'' \<or> c = CHR ''-'' then ([c], cs) else ([], rest) | [] \<Rightarrow> ([], []))
             in if takeWhile is_dec_digit ds = [] then ([], s)
                else (e # sign @ takeWhile is_dec_digit ds, dropWhile is_dec_digit ds))
          else ([], s)
      | [] \<Rightarrow> ([], []))"

definition scan_whole :: "string \<Rightarrow> (string \<times> string) option" where
  "scan_whole s =
     (case s of
        c # cs \<Rightarrow>
          if c = CHR ''0'' then Some ([c], cs)
          else if is_dec_digit c then Some (takeWhile is_dec_digit s, dropWhile is_dec_digit s)
          else None
      | [] \<Rightarrow> None)"

definition scan_unsigned :: "bool \<Rightarrow> string \<Rightarrow> (json \<times> string) option" where
  "scan_unsigned neg s =
     (case scan_whole s of
        None \<Rightarrow> None
      | Some (whole, rest) \<Rightarrow>
          (let (frac, rest1) = scan_fraction rest; (ex, rest2) = scan_exponent rest1 in
           if frac = [] \<and> ex = [] then
             Some (JInt (if neg then - int (dec_value whole) else int (dec_value whole)), rest2)
           else
             (case read_unsigned (whole @ frac @ ex) of
                None \<Rightarrow> None
              | Some f \<Rightarrow> Some (JFloat (if neg then neg_float f else f), rest2))))"

definition scan_number :: "string \<Rightarrow> (json \<times> string) option" where
  "scan_number s =
     (case s of c # cs \<Rightarrow> if c = CHR ''-'' then scan_unsigned True cs else scan_unsigned False s | [] \<Rightarrow> None)"

text \<open>The literal words, tried in the order of the scanner; \<open>strict\<close> says a constant hook raises.\<close>

definition scan_word :: "bool \<Rightarrow> string \<Rightarrow> (json_error + (json \<times> string)) option" where
  "scan_word strict s =
     (if prefix ''null'' s then Some (Inr (JNull, drop 4 s))
      else if prefix ''true'' s then Some (Inr (JBool True, drop 4 s))
      else if prefix ''false'' s then Some (Inr (JBool False, drop 5 s))
      else if prefix ''NaN'' s then
        Some (if strict then Inl (Constant ''NaN'') else Inr (JFloat NaN, drop 3 s))
      else if prefix ''Infinity'' s then
        Some (if strict then Inl (Constant ''Infinity'') else Inr (JFloat PInf, drop 8 s))
      else if prefix ''-Infinity'' s then
        Some (if strict then Inl (Constant ''-Infinity'') else Inr (JFloat MInf, drop 9 s))
      else None)"

section \<open>The scanner\<close>

definition pbind :: "(json_error + 'a) \<Rightarrow> ('a \<Rightarrow> json_error + 'b) \<Rightarrow> json_error + 'b" where
  "pbind m f = (case m of Inl e \<Rightarrow> Inl e | Inr x \<Rightarrow> f x)"

lemma pbind_simps [simp]: "pbind (Inl e) f = Inl e" "pbind (Inr x) f = f x"
  by (simp_all add: pbind_def)

fun scan_value :: "bool \<Rightarrow> nat \<Rightarrow> string \<Rightarrow> json_error + (json \<times> string)"
  and scan_items :: "bool \<Rightarrow> nat \<Rightarrow> string \<Rightarrow> json_error + (json list \<times> string)"
  and scan_members :: "bool \<Rightarrow> nat \<Rightarrow> dict \<Rightarrow> string \<Rightarrow> json_error + (dict \<times> string)" where
  "scan_value strict 0 s = Inl (Decode ''Expecting value'')"
| "scan_value strict (Suc n) s =
     (case s of
        [] \<Rightarrow> Inl (Decode ''Expecting value'')
      | c # cs \<Rightarrow>
          if c = CHR 0x22 then map_sum id (\<lambda>(t, r). (JStr t, r)) (scan_string cs)
          else if c = CHR ''{'' then
            (case skip_ws cs of
               d # ds \<Rightarrow> if d = CHR ''}'' then Inr (JObj [], ds)
                         else map_sum id (\<lambda>(m, r). (JObj m, r)) (scan_members strict n [] (d # ds))
             | [] \<Rightarrow> Inl (Decode ''Expecting property name enclosed in double quotes''))
          else if c = CHR ''['' then
            (case skip_ws cs of
               d # ds \<Rightarrow> if d = CHR '']'' then Inr (JList [], ds)
                         else map_sum id (\<lambda>(xs, r). (JList xs, r)) (scan_items strict n (d # ds))
             | [] \<Rightarrow> Inl (Decode ''Expecting value''))
          else
            (case scan_word strict s of
               Some outcome \<Rightarrow> outcome
             | None \<Rightarrow> (case scan_number s of None \<Rightarrow> Inl (Decode ''Expecting value'') | Some p \<Rightarrow> Inr p)))"
| "scan_items strict 0 s = Inl (Decode ''Expecting value'')"
| "scan_items strict (Suc n) s =
     pbind (scan_value strict n s) (\<lambda>(v, r).
       (case skip_ws r of
          c # cs \<Rightarrow>
            if c = CHR '']'' then Inr ([v], cs)
            else if c = CHR '','' then
              pbind (scan_items strict n (skip_ws cs)) (\<lambda>(vs, t). Inr (v # vs, t))
            else Inl (Decode (''Expecting '' @ [CHR 0x27] @ '','' @ [CHR 0x27] @ '' delimiter''))
        | [] \<Rightarrow> Inl (Decode (''Expecting '' @ [CHR 0x27] @ '','' @ [CHR 0x27] @ '' delimiter''))))"
| "scan_members strict 0 acc s = Inl (Decode ''Expecting value'')"
| "scan_members strict (Suc n) acc s =
     (case s of
        c # cs \<Rightarrow>
          if c = CHR 0x22 then
            pbind (scan_string cs) (\<lambda>(k, r).
              (case skip_ws r of
                 d # ds \<Rightarrow>
                   if d = CHR '':'' then
                     pbind (scan_value strict n (skip_ws ds)) (\<lambda>(v, t).
                       (case skip_ws t of
                          e # es \<Rightarrow>
                            if e = CHR ''}'' then Inr (dset acc k v, es)
                            else if e = CHR '','' then scan_members strict n (dset acc k v) (skip_ws es)
                            else Inl (Decode (''Expecting '' @ [CHR 0x27] @ '','' @ [CHR 0x27] @ '' delimiter''))
                        | [] \<Rightarrow> Inl (Decode (''Expecting '' @ [CHR 0x27] @ '','' @ [CHR 0x27] @ '' delimiter''))))
                   else Inl (Decode (''Expecting '' @ [CHR 0x27] @ '':'' @ [CHR 0x27] @ '' delimiter''))
               | [] \<Rightarrow> Inl (Decode (''Expecting '' @ [CHR 0x27] @ '':'' @ [CHR 0x27] @ '' delimiter''))))
          else Inl (Decode ''Expecting property name enclosed in double quotes'')
      | [] \<Rightarrow> Inl (Decode ''Expecting property name enclosed in double quotes''))"

definition loads_with :: "bool \<Rightarrow> string \<Rightarrow> json_error + json" where
  "loads_with strict s =
     pbind (scan_value strict (length s + 2) (skip_ws s)) (\<lambda>(v, r).
       if skip_ws r = [] then Inr v else Inl (Decode ''Extra data''))"

definition loads :: "string \<Rightarrow> json_error + json" where
  "loads s = loads_with False s"

section \<open>Reading back a printed string\<close>

lemma hex_value_digit: "d < 16 \<Longrightarrow> hex_value (hex_digit d) = d"
  by (simp add: hex_value_def hex_digit_def)

lemma of_char_eq_char: "of_char c = (k :: nat) \<Longrightarrow> c = char_of k"
  by auto

lemma lower_hex_digit: "d < 16 \<Longrightarrow> lower_char (hex_digit d) = hex_digit d"
  by (simp add: lower_char_def hex_digit_def Let_def)

lemma hex4_of_digits:
  "a < 16 \<Longrightarrow> b < 16 \<Longrightarrow> hex4 (CHR ''0'' # CHR ''0'' # hex_digit a # hex_digit b # t) = Some (16 * a + b)"
proof -
  assume "a < 16" "b < 16"
  moreover have "CHR ''0'' = hex_digit 0" by code_simp
  ultimately show ?thesis
    by (simp add: hex4_def is_hex_digit_def lower_hex_digit hex_digit_char hex_value_digit)
qed

lemma scan_string_esc:
  "scan_string (esc_char asc c @ t) = map_sum id (\<lambda>(s, r). (c # s, r)) (scan_string t)"
proof -
  let ?k = "of_char c :: nat"
  have k: "?k < 256" by simp
  have h: "?k div 16 < 16" "?k mod 16 < 16" using k by linarith+
  have narrow: "(256 \<le> ?k) = False" using k by (simp only: not_le [symmetric] simp_thms)
  have named: "?k = 10 \<Longrightarrow> c = CHR 0x0A" "?k = 13 \<Longrightarrow> c = CHR 0x0D" "?k = 9 \<Longrightarrow> c = CHR 0x09"
    "?k = 12 \<Longrightarrow> c = CHR 0x0C" "?k = 8 \<Longrightarrow> c = CHR 0x08"
    by (auto dest!: of_char_eq_char simp: char_of_eq_iff)
  consider (quote) "c = CHR 0x22" | (slash) "c = CHR 0x5C"
    | (short) "?k \<in> {10, 13, 9, 12, 8}"
    | (long) "c \<noteq> CHR 0x22" "c \<noteq> CHR 0x5C" "?k \<notin> {10, 13, 9, 12, 8}" "?k < 32 \<or> asc \<and> 126 < ?k"
    | (plain) "c \<noteq> CHR 0x22" "c \<noteq> CHR 0x5C" "?k \<notin> {10, 13, 9, 12, 8}" "\<not> (?k < 32 \<or> asc \<and> 126 < ?k)"
    by blast
  then show ?thesis
  proof cases
    case quote
    then show ?thesis by (simp add: esc_char_def Let_def simple_escape_def)
  next
    case slash
    then show ?thesis by (simp add: esc_char_def Let_def simple_escape_def)
  next
    case short
    then have "c \<in> {CHR 0x0A, CHR 0x0D, CHR 0x09, CHR 0x0C, CHR 0x08}" using named by blast
    then show ?thesis by (elim insertE emptyE) (simp_all add: esc_char_def simple_escape_def)
  next
    case long
    then show ?thesis
      by (simp add: esc_char_def Let_def hex4_of_digits [OF h] narrow del: char_of_eq_iff of_char_eq_iff)
  next
    case plain
    then show ?thesis by (cases asc) (simp_all add: esc_char_def Let_def)
  qed
qed

lemma scan_enc_str: "scan_string (concat (map (esc_char asc) s) @ CHR 0x22 # r) = Inr (s, r)"
  by (induction s) (simp_all add: scan_string_esc)

section \<open>Reading back a printed integer\<close>

definition no_digit_first :: "string \<Rightarrow> bool" where
  "no_digit_first r = (case r of [] \<Rightarrow> True | c # _ \<Rightarrow> \<not> is_dec_digit c)"

definition no_number_first :: "string \<Rightarrow> bool" where
  "no_number_first r =
     (case r of [] \<Rightarrow> True | c # _ \<Rightarrow> \<not> is_dec_digit c \<and> c \<notin> {CHR ''.'', CHR ''e'', CHR ''E''})"

lemma takeWhile_digits:
  "\<forall>c \<in> set s. is_dec_digit c \<Longrightarrow> no_digit_first r \<Longrightarrow>
   takeWhile is_dec_digit (s @ r) = s \<and> dropWhile is_dec_digit (s @ r) = r"
  by (induction s) (auto simp: no_digit_first_def split: list.splits)

lemma scan_fraction_stop: "no_number_first r \<Longrightarrow> scan_fraction r = ([], r)"
  by (auto simp: scan_fraction_def no_number_first_def split: list.splits)

lemma scan_exponent_stop: "no_number_first r \<Longrightarrow> scan_exponent r = ([], r)"
  by (auto simp: scan_exponent_def no_number_first_def split: list.splits)

lemma dec_nat_head: "\<exists>c cs. dec_nat n = c # cs \<and> is_dec_digit c \<and> (c = CHR ''0'' \<longrightarrow> n = 0 \<and> cs = [])"
proof (induction n rule: less_induct)
  case (less n)
  show ?case
  proof (cases "n < 10")
    case True
    then have "digit_char n = CHR ''0'' \<longrightarrow> n = 0" by (metis digit_val_char digit_val_zero)
    with True show ?thesis by (simp add: dec_nat.simps [of n])
  next
    case False
    with less [of "n div 10"] show ?thesis by (auto simp: dec_nat.simps [of n])
  qed
qed

lemma scan_unsigned_dec_nat:
  assumes "no_number_first r"
  shows "scan_unsigned neg (dec_nat n @ r) = Some (JInt (if neg then - int n else int n), r)"
proof -
  have r: "no_digit_first r" using assms by (auto simp: no_number_first_def no_digit_first_def split: list.splits)
  obtain c cs where c: "dec_nat n = c # cs" "is_dec_digit c" "c = CHR ''0'' \<longrightarrow> n = 0 \<and> cs = []"
    using dec_nat_head [of n] by blast
  have "scan_whole (dec_nat n @ r) = Some (dec_nat n, r)"
  proof (cases "c = CHR ''0''")
    case True
    with c show ?thesis by (simp add: scan_whole_def)
  next
    case False
    have "takeWhile is_dec_digit (c # cs @ r) = c # cs" "dropWhile is_dec_digit (c # cs @ r) = r"
      using takeWhile_digits [OF dec_nat_digits [of n] r] c(1) by simp_all
    with False c show ?thesis by (simp add: scan_whole_def)
  qed
  then show ?thesis
    using assms by (simp add: scan_unsigned_def scan_fraction_stop scan_exponent_stop)
qed

lemma scan_number_dec_int:
  assumes "no_number_first r"
  shows "scan_number (dec_int i @ r) = Some (JInt i, r)"
proof (cases "i < 0")
  case True
  then show ?thesis using scan_unsigned_dec_nat [OF assms] by (simp add: scan_number_def dec_int_def)
next
  case False
  obtain c cs where c: "dec_nat (nat i) = c # cs" "is_dec_digit c" using dec_nat_head by blast
  then have "c \<noteq> CHR ''-''" using digit_not_sign by blast
  with c False show ?thesis
    using scan_unsigned_dec_nat [OF assms, of False "nat i"] by (simp add: scan_number_def dec_int_def)
qed

section \<open>The decoder reads back what the encoder prints\<close>

text \<open>Values without floats whose objects have distinct keys.\<close>

fun json_plain :: "json \<Rightarrow> bool" where
  "json_plain (JFloat f) = False"
| "json_plain (JList xs) = list_all json_plain xs"
| "json_plain (JObj d) = (distinct (map fst d) \<and> list_all (\<lambda>kv. json_plain (snd kv)) d)"
| "json_plain v = True"

definition stops :: "string \<Rightarrow> bool" where
  "stops r = (case r of [] \<Rightarrow> True | c # _ \<Rightarrow> c \<in> {CHR '','', CHR '']'', CHR ''}''})"

lemma stops_simps [simp]: "stops []" "stops (CHR '','' # r)" "stops (CHR '']'' # r)" "stops (CHR ''}'' # r)"
  by (simp_all add: stops_def)

lemma stops_no_number: "stops r \<Longrightarrow> no_number_first r"
  by (auto simp: stops_def no_number_first_def is_dec_digit_def split: list.splits)

lemma skip_ws_simps [simp]:
  "skip_ws [] = []" "skip_ws (CHR '','' # r) = CHR '','' # r" "skip_ws (CHR '']'' # r) = CHR '']'' # r"
  "skip_ws (CHR ''}'' # r) = CHR ''}'' # r" "skip_ws (CHR '':'' # r) = CHR '':'' # r"
  "skip_ws (CHR 0x22 # r) = CHR 0x22 # r"
  by (simp_all add: skip_ws_def is_ws_def)

text \<open>The first character of a printed value is neither white space nor a closing bracket.\<close>

definition opens :: "char \<Rightarrow> bool" where
  "opens c \<longleftrightarrow> \<not> is_ws c \<and> c \<noteq> CHR '']'' \<and> c \<noteq> CHR ''}''"

lemma dec_int_opens: "\<exists>c cs. dec_int i = c # cs \<and> (is_dec_digit c \<or> c = CHR ''-'' \<and> (\<exists>d ds. cs = d # ds \<and> is_dec_digit d))"
proof -
  obtain c cs where "dec_nat (nat \<bar>i\<bar>) = c # cs" "is_dec_digit c" using dec_nat_head by blast
  then show ?thesis by (cases "i < 0") (auto simp: dec_int_def)
qed

lemma json_text_opens: "json_plain v \<Longrightarrow> \<exists>c cs. json_text False asc v = c # cs \<and> opens c"
proof (cases v)
  case (JInt i)
  obtain c cs where c: "dec_int i = c # cs" "is_dec_digit c \<or> c = CHR ''-''" using dec_int_opens [of i] by blast
  have "\<forall>x \<in> {CHR '' '', CHR '']'', CHR ''}''}. \<not> is_dec_digit x" by (simp add: is_dec_digit_def)
  moreover have "is_dec_digit c \<Longrightarrow> of_char c \<notin> {9, 10, 13 :: nat}" by (auto simp: is_dec_digit_def)
  ultimately have "opens c" using c(2) unfolding opens_def is_ws_def by (elim disjE) (blast, simp)
  with JInt c show ?thesis by simp
next
  case (JBool b)
  then show ?thesis by (cases b) (simp_all add: opens_def is_ws_def)
qed (simp_all add: opens_def is_ws_def enc_str_def Let_def)

lemma skip_ws_opens: "opens c \<Longrightarrow> skip_ws (c # cs) = c # cs"
  by (simp add: opens_def skip_ws_def)

lemma scan_word_dec_int: "scan_word strict (dec_int i @ r) = None"
proof -
  obtain c cs where c: "dec_int i = c # cs"
    and d: "is_dec_digit c \<or> c = CHR ''-'' \<and> (\<exists>d ds. cs = d # ds \<and> is_dec_digit d)"
    using dec_int_opens [of i] by blast
  have "\<forall>x \<in> {CHR ''n'', CHR ''t'', CHR ''f'', CHR ''N'', CHR ''I'', CHR ''-''}. \<not> is_dec_digit x"
    by (simp add: is_dec_digit_def)
  then have digit: "x \<notin> {CHR ''n'', CHR ''t'', CHR ''f'', CHR ''N'', CHR ''I'', CHR ''-''}" if "is_dec_digit x" for x
    using that by blast
  from d show ?thesis
  proof
    assume "is_dec_digit c"
    from digit [OF this] show ?thesis by (simp add: scan_word_def c eq_commute [of _ c])
  next
    assume "c = CHR ''-'' \<and> (\<exists>d ds. cs = d # ds \<and> is_dec_digit d)"
    then obtain e es where "c = CHR ''-''" "cs = e # es" "is_dec_digit e" by blast
    with digit [of e] show ?thesis by (simp add: scan_word_def c eq_commute [of _ e])
  qed
qed

lemma dset_new: "k \<notin> fst ` set d \<Longrightarrow> dset d k v = d @ [(k, v)]"
  by (induction d k v rule: dset.induct) auto

lemma join_str_Cons: "ss \<noteq> [] \<Longrightarrow> join_str sep (s # ss) = s @ sep @ join_str sep ss"
  by (cases ss) simp_all

definition reads_value :: "bool \<Rightarrow> bool \<Rightarrow> json \<Rightarrow> bool" where
  "reads_value strict asc v \<longleftrightarrow>
     (\<forall>n r. length (json_text False asc v) < n \<longrightarrow> stops r \<longrightarrow>
       scan_value strict n (json_text False asc v @ r) = Inr (v, r))"

lemma reads_valueD:
  "reads_value strict asc v \<Longrightarrow> length (json_text False asc v) < n \<Longrightarrow> stops r \<Longrightarrow>
   scan_value strict n (json_text False asc v @ r) = Inr (v, r)"
  by (simp add: reads_value_def)

lemma reads_valueI:
  assumes "\<And>n r. length (json_text False asc v) < Suc n \<Longrightarrow> stops r \<Longrightarrow>
    scan_value strict (Suc n) (json_text False asc v @ r) = Inr (v, r)"
  shows "reads_value strict asc v"
  unfolding reads_value_def using assms by (metis less_nat_zero_code not0_implies_Suc)

lemma scan_items_printed:
  assumes "vs \<noteq> []" "\<forall>v \<in> set vs. json_plain v \<and> reads_value strict asc v"
    and "length (join_str '','' (map (json_text False asc) vs)) + 1 < n"
  shows "scan_items strict n (join_str '','' (map (json_text False asc) vs) @ CHR '']'' # r) = Inr (vs, r)"
  using assms
proof (induction vs arbitrary: n)
  case (Cons v vs)
  then obtain m where n: "n = Suc m" by (cases n) auto
  have v: "scan_value strict m (json_text False asc v @ t) = Inr (v, t)"
    if "length (json_text False asc v) < m" "stops t" for t
    using Cons.prems(2) that by (simp add: reads_value_def)
  show ?case
  proof (cases "vs = []")
    case True
    with Cons.prems v [of "CHR '']'' # r"] show ?thesis by (simp add: n)
  next
    case False
    obtain w ws where vs: "vs = w # ws" using False by (cases vs) auto
    obtain c cs where c: "json_text False asc w = c # cs" "opens c"
      using json_text_opens [of w asc] Cons.prems(2) vs by auto
    let ?rest = "join_str '','' (map (json_text False asc) vs)"
    have "\<exists>t. ?rest = c # t" using c by (cases ws) (auto simp: vs)
    then have skip: "skip_ws (?rest @ CHR '']'' # r) = ?rest @ CHR '']'' # r"
      using c(2) skip_ws_opens by auto
    have len: "length (json_text False asc v) + 1 + length ?rest + 1 < Suc m"
      using Cons.prems(3) False by (simp add: n join_str_Cons)
    have "scan_items strict m (?rest @ CHR '']'' # r) = Inr (vs, r)"
      using Cons.prems False len by (intro Cons.IH) auto
    with len v [of "CHR '','' # ?rest @ CHR '']'' # r"] show ?thesis
      using False by (simp add: n join_str_Cons skip)
  qed
qed simp

definition member_text :: "bool \<Rightarrow> string \<times> json \<Rightarrow> string" where
  "member_text asc kv = enc_str asc (fst kv) @ '':'' @ json_text False asc (snd kv)"

lemma scan_members_printed:
  assumes "d \<noteq> []" "\<forall>kv \<in> set d. json_plain (snd kv) \<and> reads_value strict asc (snd kv)"
    and "distinct (map fst (acc @ d))"
    and "length (join_str '','' (map (member_text asc) d)) + 1 < n"
  shows "scan_members strict n acc (join_str '','' (map (member_text asc) d) @ CHR ''}'' # r) = Inr (acc @ d, r)"
  using assms
proof (induction d arbitrary: n acc)
  case (Cons kv d)
  obtain k v where kv: "kv = (k, v)" by (cases kv)
  obtain m where n: "n = Suc m" using Cons.prems(4) by (cases n) auto
  obtain c cs where c: "json_text False asc v = c # cs" "opens c"
    using json_text_opens [of v asc] Cons.prems(2) kv by auto
  have skip_v: "skip_ws (json_text False asc v @ t) = json_text False asc v @ t" for t
    using c skip_ws_opens by simp
  have v: "scan_value strict m (json_text False asc v @ t) = Inr (v, t)"
    if "length (json_text False asc v) < m" "stops t" for t
    using Cons.prems(2) that kv by (simp add: reads_value_def)
  have key: "scan_string (concat (map (esc_char asc) k) @ CHR 0x22 # t) = Inr (k, t)" for t
    by (rule scan_enc_str)
  have member: "member_text asc (k, v) =
      CHR 0x22 # concat (map (esc_char asc) k) @ CHR 0x22 # CHR '':'' # json_text False asc v"
    by (simp add: member_text_def enc_str_def)
  have new: "dset acc k v = acc @ [(k, v)]" using Cons.prems(3) kv by (intro dset_new) auto
  show ?case
  proof (cases "d = []")
    case True
    with Cons.prems v [of "CHR ''}'' # r"] show ?thesis
      by (simp add: n kv member key skip_v new)
  next
    case False
    let ?rest = "join_str '','' (map (member_text asc) d)"
    have "\<exists>t. ?rest = CHR 0x22 # t" using False by (cases d rule: remdups_adj.cases) (auto simp: member_text_def enc_str_def)
    then have skip: "skip_ws (?rest @ CHR ''}'' # r) = ?rest @ CHR ''}'' # r" by auto
    have len: "length (json_text False asc v) + 3 + length ?rest < m"
      using Cons.prems(4) False by (simp add: n kv join_str_Cons member)
    have "scan_members strict m (acc @ [(k, v)]) (?rest @ CHR ''}'' # r) = Inr (acc @ kv # d, r)"
      using Cons.IH [of "acc @ [(k, v)]" m] Cons.prems False len by (simp add: kv)
    with len v [of "CHR '','' # ?rest @ CHR ''}'' # r"] show ?thesis
      using False by (simp add: n kv join_str_Cons member key skip_v new skip)
  qed
qed simp

lemma scan_encoded: "json_plain v \<Longrightarrow> reads_value strict asc v"
proof (induction v)
  case (JInt i)
  show ?case
  proof (rule reads_valueI)
    fix m r assume n: "length (json_text False asc (JInt i)) < Suc m" and r: "stops r"
    obtain c cs where c: "dec_int i = c # cs" "is_dec_digit c \<or> c = CHR ''-''" using dec_int_opens [of i] by blast
    have "\<forall>x \<in> {CHR 0x22, CHR ''{'', CHR ''[''}. \<not> is_dec_digit x \<and> x \<noteq> CHR ''-''" by (simp add: is_dec_digit_def)
    with c(2) have "c \<noteq> CHR 0x22" "c \<noteq> CHR ''{''" "c \<noteq> CHR ''[''" by blast+
    then show "scan_value strict (Suc m) (json_text False asc (JInt i) @ r) = Inr (JInt i, r)"
      using scan_word_dec_int [of strict i r] scan_number_dec_int [OF stops_no_number [OF r], of i]
      by (simp add: c(1))
  qed
next
  case (JList xs)
  show ?case
  proof (rule reads_valueI)
    fix m r assume n: "length (json_text False asc (JList xs)) < Suc m" and "stops r"
    show "scan_value strict (Suc m) (json_text False asc (JList xs) @ r) = Inr (JList xs, r)"
    proof (cases xs)
      case Nil
      then show ?thesis by simp
    next
      case (Cons w ws)
      obtain c cs where c: "json_text False asc w = c # cs" "opens c"
        using json_text_opens [of w asc] JList.prems Cons by auto
      let ?t = "join_str '','' (map (json_text False asc) xs)"
      have "scan_items strict m (?t @ CHR '']'' # r) = Inr (xs, r)"
        using JList n by (intro scan_items_printed) (auto simp: Cons list_all_iff)
      moreover obtain t where t: "?t @ CHR '']'' # r = c # t" using c by (cases ws) (auto simp: Cons)
      ultimately show ?thesis using skip_ws_opens [OF c(2)] c(2) by (simp add: opens_def)
    qed
  qed
next
  case (JObj d)
  show ?case
  proof (rule reads_valueI)
    fix m r assume n: "length (json_text False asc (JObj d)) < Suc m" and "stops r"
    have printed: "json_text False asc (JObj d) = CHR ''{'' # join_str '','' (map (member_text asc) d) @ ''}''"
      by (simp add: Let_def member_text_def [abs_def] comp_def case_prod_unfold)
    show "scan_value strict (Suc m) (json_text False asc (JObj d) @ r) = Inr (JObj d, r)"
    proof (cases d)
      case Nil
      then show ?thesis by simp
    next
      case (Cons kv e)
      let ?t = "join_str '','' (map (member_text asc) d)"
      have vals: "\<forall>x \<in> set d. json_plain (snd x) \<and> reads_value strict asc (snd x)"
      proof
        fix x assume x: "x \<in> set d"
        obtain k w where "x = (k, w)" by (cases x)
        with JObj.IH [OF x, of w] JObj.prems x show "json_plain (snd x) \<and> reads_value strict asc (snd x)"
          by (auto simp: list_all_iff)
      qed
      have "scan_members strict m [] (?t @ CHR ''}'' # r) = Inr ([] @ d, r)"
        using vals JObj.prems n unfolding printed by (intro scan_members_printed) (simp_all add: Cons)
      moreover obtain t where "?t @ CHR ''}'' # r = CHR 0x22 # t"
        by (cases e) (auto simp: Cons member_text_def enc_str_def)
      ultimately show ?thesis unfolding printed by simp
    qed
  qed
next
  case (JBool b)
  then show ?case by (cases b) (auto intro!: reads_valueI simp: scan_word_def)
next
  case (JStr s)
  then show ?case by (auto intro!: reads_valueI simp: enc_str_def scan_enc_str)
qed (auto intro!: reads_valueI simp: scan_word_def)

text \<open>
  Decoding what the encoder printed gives the value back, whichever of the two character options
  was used, for every value without floats whose objects have distinct keys. In particular the
  fuel of \<open>loads\<close> is enough for all of them.
\<close>

lemma loads_with_printed:
  assumes "json_plain v"
  shows "loads_with strict (json_text False asc v) = Inr v"
proof -
  obtain c cs where c: "json_text False asc v = c # cs" "opens c" using json_text_opens [OF assms] by blast
  have "scan_value strict (length (json_text False asc v) + 2) (json_text False asc v @ []) = Inr (v, [])"
    by (rule reads_valueD [OF scan_encoded [OF assms]]) simp_all
  with skip_ws_opens [OF c(2)] c(1) show ?thesis by (simp add: loads_with_def)
qed

lemma loads_dumps:
  assumes "json_plain v"
  shows "dumps False asc v = Inr (json_text False asc v) \<and> loads (json_text False asc v) = Inr v"
proof
  show "loads (json_text False asc v) = Inr v" using loads_with_printed [OF assms] by (simp add: loads_def)
  have "json_plain w \<Longrightarrow> json_finite w" for w
    by (induction w) (auto simp: list_all_iff)
  with assms show "dumps False asc v = Inr (json_text False asc v)" by (simp add: dumps_def)
qed

end
