(* ===== verification/Digests.thy ===== *)
theory Digests
  imports Core Json_Parse
begin

text \<open>
  The canonical text of a batch determines the batch: two different batches with one digest
  are a collision of SHA-256 and nothing weaker. The proof reads the text back: a quoted
  string ends at its first unescaped quote and a decimal integer at its first non-digit.
\<close>

section \<open>Cancelling a common prefix\<close>

lemma enc_str_cancel:
  "enc_str asc s @ r = enc_str asc s' @ r' \<longleftrightarrow> s = s' \<and> r = r'"
proof
  assume "enc_str asc s @ r = enc_str asc s' @ r'"
  then have "concat (map (esc_char asc) s) @ CHR 0x22 # r = concat (map (esc_char asc) s') @ CHR 0x22 # r'"
    by (simp add: enc_str_def)
  then have "Inr (s, r) = (Inr (s', r') :: json_error + _)" by (metis scan_enc_str)
  then show "s = s' \<and> r = r'" by simp
qed simp

lemma dec_nat_cancel:
  assumes "no_digit_first r" "no_digit_first r'"
  shows "dec_nat m @ r = dec_nat n @ r' \<longleftrightarrow> m = n \<and> r = r'"
  by (metis assms dec_nat_digits dec_nat_inj takeWhile_digits)

lemma dec_nat_hd: "\<exists>c cs. dec_nat n = c # cs \<and> is_dec_digit c"
  using dec_nat_digits [of n] by (cases "dec_nat n") auto

lemma dec_int_cancel:
  assumes r: "no_digit_first r" "no_digit_first r'"
  shows "dec_int i @ r = dec_int j @ r' \<longleftrightarrow> i = j \<and> r = r'"
proof -
  have minus: "\<not> is_dec_digit (CHR ''-'')" by (simp add: is_dec_digit_def)
  have diff: "dec_nat a @ r \<noteq> CHR ''-'' # t" for a r t using dec_nat_hd [of a] minus by auto
  show ?thesis
    using diff diff [symmetric] by (auto simp: dec_int_def dec_nat_cancel [OF r] nat_eq_iff)
qed

lemma no_digit_first_simps [simp]:
  "no_digit_first (CHR '','' # r)" "no_digit_first (CHR '']'' # r)"
  by (simp_all add: no_digit_first_def is_dec_digit_def)

section \<open>The canonical payload\<close>

definition row_text :: "Measurement \<Rightarrow> string" where
  "row_text row = json_text True False (JList [JInt (timestamp_us row), JStr (tenant row), JStr (series row),
     JInt (value_q row), JObj []])"

lemma row_text_eq:
  "row_text row = CHR ''['' # dec_int (timestamp_us row) @ CHR '','' # enc_str False (tenant row) @
     CHR '','' # enc_str False (series row) @ CHR '','' # dec_int (value_q row) @ '',{}]''"
  by (simp add: row_text_def)

lemma row_text_cancel: "row_text a @ r = row_text b @ r' \<longleftrightarrow> a = b \<and> r = r'"
  by (cases a; cases b) (auto simp: row_text_eq dec_int_cancel enc_str_cancel)

lemma rows_text_cancel:
  "join_str '','' (map row_text xs) @ CHR '']'' # r = join_str '','' (map row_text ys) @ CHR '']'' # r'
   \<longleftrightarrow> xs = ys \<and> r = r'"
proof (induction xs arbitrary: ys)
  case Nil
  show ?case by (cases ys rule: remdups_adj.cases) (auto simp: row_text_eq)
next
  case (Cons x xs)
  show ?case
  proof (cases ys)
    case Nil
    then show ?thesis by (cases xs) (auto simp: row_text_eq)
  next
    case (Cons y ys')
    show ?thesis
      using Cons.IH [of ys'] row_text_cancel
      by (cases xs; cases ys') (auto simp: Cons)
  qed
qed

lemma canonical_text_eq:
  "\<exists>p. \<forall>rows. json_text True False (canonical_payload rows) =
     p @ join_str '','' (map row_text rows) @ CHR '']'' # ''}''"
proof -
  have "json_text True False (canonical_payload rows) =
     (''{'' @ enc_str False ''format'' @ '':'' @ enc_str False ''varve-timescale-batch-v1'' @ '','' @
       enc_str False ''rows'' @ '':['') @ join_str '','' (map row_text rows) @ CHR '']'' # ''}''" for rows
    by (simp add: canonical_payload_def row_text_eq [abs_def] comp_def)
  then show ?thesis by blast
qed

lemma canonical_text_inj:
  "json_text True False (canonical_payload xs) = json_text True False (canonical_payload ys) \<longleftrightarrow> xs = ys"
  using canonical_text_eq rows_text_cancel by (metis append_same_eq same_append_eq)

section \<open>The batch digest\<close>


end
