(* ===== verification/Pool.thy ===== *)
theory Pool
  imports Py_Prelude
begin

text \<open>
  A producer, a bounded \<^verbatim>\<open>asyncio.Queue\<close> and a fixed number of tasks that take from it, the
  pattern that the mixed workload of the driver uses twice. The producer offers its items one by
  one unless it is told to stop, waits with \<^verbatim>\<open>queue.join()\<close> until everything it put has been
  marked done, and then puts one sentinel \<^verbatim>\<open>None\<close> for each task. What a task does with an item
  is left to the client, who sees it as the event of the step.
\<close>

section \<open>The pool\<close>

datatype 'i task = Waiting | Working 'i | Exited | Broken

text \<open>
  \<open>Checking\<close> is the head of the producer's loop, \<open>Offering\<close> the wait in \<^verbatim>\<open>put\<close>; \<open>Stopping n\<close> has
  \<open>n\<close> sentinels left; \<open>Halted\<close> is an early return or a cancellation.
\<close>

datatype producer = Checking | Offering | Joining | Stopping nat | Produced | Halted

text \<open>
  \<open>pl_open\<close> counts what was put and not yet marked done. The last two fields record the items
  that were completed and those whose task was ended by an exception.
\<close>

record 'i pool =
  pl_tasks :: "'i task list"
  pl_queue :: "'i option list"
  pl_open :: nat
  pl_producer :: producer
  pl_next :: nat
  pl_completed :: "'i list"
  pl_broken :: "'i list"

definition new_pool :: "nat \<Rightarrow> 'i pool" where
  "new_pool n = \<lparr>pl_tasks = replicate n Waiting, pl_queue = [], pl_open = 0, pl_producer = Checking, pl_next = 0,
     pl_completed = [], pl_broken = []\<rparr>"

datatype 'i event = Quiet | Enqueued 'i | Picked nat 'i | Completed nat 'i | Raised nat 'i | Dropped

inductive pool_step :: "nat \<Rightarrow> (nat \<Rightarrow> 'i) \<Rightarrow> nat \<Rightarrow> bool \<Rightarrow> 'i pool \<Rightarrow> 'i event \<Rightarrow> 'i pool \<Rightarrow> bool"
  for cap :: nat and item :: "nat \<Rightarrow> 'i" and amount :: nat and stop :: bool where
  offer: "pl_producer p = Checking \<Longrightarrow> pl_next p < amount \<Longrightarrow> \<not> stop \<Longrightarrow>
     pool_step cap item amount stop p Quiet (p\<lparr>pl_producer := Offering\<rparr>)"
| stopped: "pl_producer p = Checking \<Longrightarrow> pl_next p < amount \<Longrightarrow> stop \<Longrightarrow>
     pool_step cap item amount stop p Quiet (p\<lparr>pl_producer := Halted\<rparr>)"
| exhausted: "pl_producer p = Checking \<Longrightarrow> amount \<le> pl_next p \<Longrightarrow>
     pool_step cap item amount stop p Quiet (p\<lparr>pl_producer := Joining\<rparr>)"
| enqueue: "pl_producer p = Offering \<Longrightarrow> length (pl_queue p) < cap \<Longrightarrow> x = item (pl_next p) \<Longrightarrow>
     pool_step cap item amount stop p (Enqueued x)
       (p\<lparr>pl_queue := pl_queue p @ [Some x], pl_open := pl_open p + 1, pl_next := pl_next p + 1, pl_producer := Checking\<rparr>)"
| joined: "pl_producer p = Joining \<Longrightarrow> pl_open p = 0 \<Longrightarrow>
     pool_step cap item amount stop p Quiet (p\<lparr>pl_producer := Stopping (length (pl_tasks p))\<rparr>)"
| sentinel: "pl_producer p = Stopping (Suc j) \<Longrightarrow> length (pl_queue p) < cap \<Longrightarrow>
     pool_step cap item amount stop p Quiet
       (p\<lparr>pl_queue := pl_queue p @ [None], pl_open := pl_open p + 1, pl_producer := Stopping j\<rparr>)"
| produced: "pl_producer p = Stopping 0 \<Longrightarrow>
     pool_step cap item amount stop p Quiet (p\<lparr>pl_producer := Produced\<rparr>)"
| pick: "i < length (pl_tasks p) \<Longrightarrow> pl_tasks p ! i = Waiting \<Longrightarrow> pl_queue p = Some x # q \<Longrightarrow>
     pool_step cap item amount stop p (Picked i x) (p\<lparr>pl_tasks := (pl_tasks p)[i := Working x], pl_queue := q\<rparr>)"
| leave: "i < length (pl_tasks p) \<Longrightarrow> pl_tasks p ! i = Waiting \<Longrightarrow> pl_queue p = None # q \<Longrightarrow>
     pool_step cap item amount stop p Quiet
       (p\<lparr>pl_tasks := (pl_tasks p)[i := Exited], pl_queue := q, pl_open := pl_open p - 1\<rparr>)"
| complete: "i < length (pl_tasks p) \<Longrightarrow> pl_tasks p ! i = Working x \<Longrightarrow>
     pool_step cap item amount stop p (Completed i x)
       (p\<lparr>pl_tasks := (pl_tasks p)[i := Waiting], pl_open := pl_open p - 1, pl_completed := pl_completed p @ [x]\<rparr>)"
| raise_item: "i < length (pl_tasks p) \<Longrightarrow> pl_tasks p ! i = Working x \<Longrightarrow>
     pool_step cap item amount stop p (Raised i x)
       (p\<lparr>pl_tasks := (pl_tasks p)[i := Broken], pl_open := pl_open p - 1, pl_broken := pl_broken p @ [x]\<rparr>)"
| drop_task: "i < length (pl_tasks p) \<Longrightarrow> pl_tasks p ! i = Waiting \<Longrightarrow>
     pool_step cap item amount stop p Dropped (p\<lparr>pl_tasks := (pl_tasks p)[i := Broken]\<rparr>)"
| drop_producer: "pl_producer p \<noteq> Produced \<Longrightarrow> pl_producer p \<noteq> Halted \<Longrightarrow>
     pool_step cap item amount stop p Dropped (p\<lparr>pl_producer := Halted\<rparr>)"

inductive_cases enqueuedE: "pool_step cap item amount stop p (Enqueued x) p'"
inductive_cases pickedE: "pool_step cap item amount stop p (Picked i x) p'"
inductive_cases completedE: "pool_step cap item amount stop p (Completed i x) p'"
inductive_cases raisedE: "pool_step cap item amount stop p (Raised i x) p'"
inductive_cases droppedE: "pool_step cap item amount stop p Dropped p'"

definition pool_over :: "'i pool \<Rightarrow> bool" where
  "pool_over p \<longleftrightarrow> (pl_producer p = Produced \<or> pl_producer p = Halted) \<and> list_all (\<lambda>t. t = Exited \<or> t = Broken) (pl_tasks p)"

section \<open>Where the items are\<close>

primrec working_of :: "'i task \<Rightarrow> 'i multiset" where
  "working_of Waiting = {#}"
| "working_of (Working x) = {#x#}"
| "working_of Exited = {#}"
| "working_of Broken = {#}"

definition working :: "'i task list \<Rightarrow> 'i multiset" where
  "working ts = (\<Sum>t \<in># mset ts. working_of t)"

definition queued :: "'i option list \<Rightarrow> 'i multiset" where
  "queued q = (\<Sum>x \<in># mset q. case x of None \<Rightarrow> {#} | Some y \<Rightarrow> {#y#})"

definition exited :: "'i task list \<Rightarrow> nat" where
  "exited ts = count (mset ts) Exited"

lemma task_update:
  assumes "i < length ts"
  obtains r where "mset ts = add_mset (ts ! i) r" "\<And>t. mset (ts[i := t]) = add_mset t r"
proof
  show "mset ts = add_mset (ts ! i) (mset ts - {#ts ! i#})" using assms by (simp add: nth_mem_mset)
  show "mset (ts[i := t]) = add_mset t (mset ts - {#ts ! i#})" for t using assms by (rule mset_update)
qed

lemma working_update:
  assumes "i < length ts"
  shows "working (ts[i := t]) + working_of (ts ! i) = working ts + working_of t"
proof -
  obtain r where r: "mset ts = add_mset (ts ! i) r" "mset (ts[i := t]) = add_mset t r" using task_update [OF assms] by metis
  show ?thesis unfolding working_def r by (simp add: ac_simps)
qed

lemma exited_update:
  assumes "i < length ts"
  shows "exited (ts[i := t]) + (if ts ! i = Exited then 1 else 0) = exited ts + (if t = Exited then 1 else 0)"
proof -
  obtain r where r: "mset ts = add_mset (ts ! i) r" "mset (ts[i := t]) = add_mset t r" using task_update [OF assms] by metis
  show ?thesis unfolding exited_def r by simp
qed

lemma working_replicate [simp]: "working (replicate n Waiting) = {#}"
  by (induction n) (simp_all add: working_def)

lemma exited_replicate [simp]: "exited (replicate n Waiting) = 0"
  by (induction n) (simp_all add: exited_def)

lemma queued_simps [simp]:
  "queued [] = {#}" "queued (None # q) = queued q" "queued (Some x # q) = add_mset x (queued q)"
  "queued (q @ q') = queued q + queued q'"
  by (simp_all add: queued_def)

lemma exited_zero: "exited ts = 0 \<longleftrightarrow> Exited \<notin> set ts"
  by (simp add: exited_def count_eq_zero_iff)

lemma exited_all: "list_all (\<lambda>t. t = Exited) ts \<Longrightarrow> exited ts = length ts \<and> working ts = {#}"
  by (induction ts) (auto simp: exited_def working_def)

lemma exited_le: "exited ts \<le> length ts"
  by (induction ts) (auto simp: exited_def)

lemma exited_full: "exited ts = length ts \<Longrightarrow> list_all (\<lambda>t. t = Exited) ts"
proof (induction ts)
  case (Cons t ts)
  have "exited (t # ts) = exited ts + (if t = Exited then 1 else 0)" by (simp add: exited_def)
  with Cons exited_le [of ts] show ?case by (auto split: if_splits)
qed simp

definition pool_inv :: "nat \<Rightarrow> (nat \<Rightarrow> 'i) \<Rightarrow> nat \<Rightarrow> 'i pool \<Rightarrow> bool" where
  "pool_inv cap item amount p \<longleftrightarrow>
     length (pl_queue p) \<le> cap \<and>
     pl_next p \<le> amount \<and>
     mset (map item [0..<pl_next p]) = mset (pl_completed p) + mset (pl_broken p) + working (pl_tasks p) + queued (pl_queue p) \<and>
     pl_open p = length (pl_queue p) + size (working (pl_tasks p)) \<and>
     (case pl_producer p of
        Checking \<Rightarrow> None \<notin> set (pl_queue p) \<and> exited (pl_tasks p) = 0
      | Offering \<Rightarrow> pl_next p < amount \<and> None \<notin> set (pl_queue p) \<and> exited (pl_tasks p) = 0
      | Joining \<Rightarrow> pl_next p = amount \<and> None \<notin> set (pl_queue p) \<and> exited (pl_tasks p) = 0
      | Stopping j \<Rightarrow> pl_next p = amount \<and> working (pl_tasks p) = {#} \<and> set (pl_queue p) \<subseteq> {None} \<and>
          j + length (pl_queue p) + exited (pl_tasks p) = length (pl_tasks p)
      | Produced \<Rightarrow> pl_next p = amount \<and> working (pl_tasks p) = {#} \<and> set (pl_queue p) \<subseteq> {None} \<and>
          length (pl_queue p) + exited (pl_tasks p) = length (pl_tasks p)
      | Halted \<Rightarrow> True)"

lemma pool_inv_new: "pool_inv cap item amount (new_pool n)"
  by (simp add: pool_inv_def new_pool_def)

lemma pool_inv_step:
  assumes "pool_step cap item amount stop p e p'" "pool_inv cap item amount p"
  shows "pool_inv cap item amount p'"
  using assms
proof (cases rule: pool_step.cases)
  case (pick i x q)
  have "working ((pl_tasks p)[i := Working x]) = add_mset x (working (pl_tasks p))"
      "exited ((pl_tasks p)[i := Working x]) = exited (pl_tasks p)"
    using working_update [OF pick(3), of "Working x"] exited_update [OF pick(3), of "Working x"] pick(4) by simp_all
  with assms(2) pick show ?thesis by (auto simp: pool_inv_def split: producer.splits)
next
  case (leave i q)
  have "working ((pl_tasks p)[i := Exited]) = working (pl_tasks p)" "exited ((pl_tasks p)[i := Exited]) = Suc (exited (pl_tasks p))"
    using working_update [OF leave(3), of Exited] exited_update [OF leave(3), of Exited] leave(4) by simp_all
  with assms(2) leave show ?thesis by (auto simp: pool_inv_def split: producer.splits)
next
  case (complete i x)
  have w: "working (pl_tasks p) = add_mset x (working ((pl_tasks p)[i := Waiting]))"
      and e: "exited ((pl_tasks p)[i := Waiting]) = exited (pl_tasks p)"
    using working_update [OF complete(3), of Waiting] exited_update [OF complete(3), of Waiting] complete(4) by simp_all
  with assms(2) complete show ?thesis by (auto simp: pool_inv_def split: producer.splits)
next
  case (raise_item i x)
  have w: "working (pl_tasks p) = add_mset x (working ((pl_tasks p)[i := Broken]))"
      and e: "exited ((pl_tasks p)[i := Broken]) = exited (pl_tasks p)"
    using working_update [OF raise_item(3), of Broken] exited_update [OF raise_item(3), of Broken] raise_item(4) by simp_all
  with assms(2) raise_item show ?thesis by (auto simp: pool_inv_def split: producer.splits)
next
  case (drop_task i)
  have "working ((pl_tasks p)[i := Broken]) = working (pl_tasks p)" "exited ((pl_tasks p)[i := Broken]) = exited (pl_tasks p)"
    using working_update [OF drop_task(3), of Broken] exited_update [OF drop_task(3), of Broken] drop_task(4) by simp_all
  with assms(2) drop_task show ?thesis by (auto simp: pool_inv_def split: producer.splits)
next
  case joined
  then have "pl_queue p = []" "working (pl_tasks p) = {#}" using assms(2) by (auto simp: pool_inv_def)
  with assms(2) joined show ?thesis by (auto simp: pool_inv_def)
next
  case (sentinel j)
  with assms(2) show ?thesis by (auto simp: pool_inv_def)
qed (use assms(2) in \<open>auto simp: pool_inv_def\<close>)

section \<open>A finished pool is complete\<close>

lemma pool_finished:
  assumes "pool_inv cap item amount p" "pl_producer p = Produced" "list_all (\<lambda>t. t = Exited) (pl_tasks p)"
  shows "mset (pl_completed p) + mset (pl_broken p) = mset (map item [0..<amount]) \<and> pl_queue p = [] \<and> pl_open p = 0"
  using assms(1,2) exited_all [OF assms(3)] by (auto simp: pool_inv_def)

section \<open>No task waits for ever\<close>

text \<open>
  As long as no task is broken and the producer has not halted, a pool that is not over has a
  step of its own, and it is none of the exceptional ones: the producer and the tasks cannot
  wait for each other.
\<close>

definition ordinary :: "'i event \<Rightarrow> bool" where
  "ordinary e = (case e of Raised _ _ \<Rightarrow> False | Dropped \<Rightarrow> False | _ \<Rightarrow> True)"

lemma take_from_queue:
  assumes "pl_queue p \<noteq> []" "Waiting \<in> set (pl_tasks p)"
  shows "\<exists>e p'. pool_step cap item amount stop p e p' \<and> ordinary e"
proof -
  obtain i where i: "i < length (pl_tasks p)" "pl_tasks p ! i = Waiting" using assms(2) by (auto simp: in_set_conv_nth)
  obtain y q where q: "pl_queue p = y # q" using assms(1) by (cases "pl_queue p") auto
  show ?thesis
  proof (cases y)
    case None
    with leave [OF i, of q] q show ?thesis by (force simp: ordinary_def)
  next
    case (Some x)
    with pick [OF i, of x q] q show ?thesis by (force simp: ordinary_def)
  qed
qed

lemma finish_work:
  assumes "working (pl_tasks p) \<noteq> {#}"
  shows "\<exists>e p'. pool_step cap item amount stop p e p' \<and> ordinary e"
proof -
  have "\<exists>t \<in> set (pl_tasks p). working_of t \<noteq> {#}"
  proof (rule ccontr)
    assume "\<not> (\<exists>t \<in> set (pl_tasks p). working_of t \<noteq> {#})"
    then have "working (pl_tasks p) = {#}" by (induction "pl_tasks p") (simp_all add: working_def sum_mset.neutral)
    with assms show False by simp
  qed
  then obtain t where t: "t \<in> set (pl_tasks p)" "working_of t \<noteq> {#}" by blast
  from t(2) obtain x where "t = Working x" by (cases t) auto
  with t(1) obtain i where "i < length (pl_tasks p)" "pl_tasks p ! i = Working x" by (auto simp: in_set_conv_nth)
  then show ?thesis using complete by (force simp: ordinary_def)
qed

lemma some_waiting:
  assumes "working ts = {#}" "Broken \<notin> set ts" "exited ts < length ts"
  shows "Waiting \<in> set ts"
proof (rule ccontr)
  assume no: "Waiting \<notin> set ts"
  have "t = Exited" if "t \<in> set ts" for t
  proof (cases t)
    case (Working x)
    with that have "x \<in># working ts" by (auto simp: working_def intro!: bexI [of _ "Working x"])
    with assms(1) show ?thesis by simp
  qed (use that no assms(2) in auto)
  then have "list_all (\<lambda>t. t = Exited) ts" by (auto simp: list_all_iff)
  with exited_all assms(3) show False by fastforce
qed

lemma busy_pool_moves:
  assumes "pool_inv cap item amount p" "Broken \<notin> set (pl_tasks p)" "pl_tasks p \<noteq> []"
    and "pl_queue p \<noteq> [] \<or> working (pl_tasks p) \<noteq> {#}" "exited (pl_tasks p) < length (pl_tasks p)"
  shows "\<exists>e p'. pool_step cap item amount stop p e p' \<and> ordinary e"
proof (cases "working (pl_tasks p) = {#}")
  case True
  with assms some_waiting show ?thesis by (intro take_from_queue) blast+
next
  case False
  then show ?thesis by (rule finish_work)
qed

lemma pool_progress:
  assumes inv: "pool_inv cap item amount p" and ok: "Broken \<notin> set (pl_tasks p)" "pl_producer p \<noteq> Halted"
    and pos: "0 < cap" "pl_tasks p \<noteq> []" and more: "\<not> pool_over p"
  shows "\<exists>e p'. pool_step cap item amount stop p e p' \<and> ordinary e"
proof (cases "pl_producer p")
  case Checking
  then show ?thesis using offer [of p amount] stopped [of p amount] exhausted [of p amount]
    by (cases "pl_next p < amount"; cases stop) (force simp: ordinary_def not_less)+
next
  case Offering
  show ?thesis
  proof (cases "length (pl_queue p) < cap")
    case True
    with Offering enqueue show ?thesis by (force simp: ordinary_def)
  next
    case False
    with pos(1) have "pl_queue p \<noteq> []" by auto
    moreover have "exited (pl_tasks p) < length (pl_tasks p)" using inv Offering pos(2) by (simp add: pool_inv_def)
    ultimately show ?thesis by (intro busy_pool_moves [OF inv ok(1) pos(2)]) auto
  qed
next
  case Joining
  show ?thesis
  proof (cases "pl_open p = 0")
    case True
    with Joining joined show ?thesis by (force simp: ordinary_def)
  next
    case False
    then have "pl_queue p \<noteq> [] \<or> working (pl_tasks p) \<noteq> {#}" using inv by (auto simp: pool_inv_def)
    moreover have "exited (pl_tasks p) < length (pl_tasks p)" using inv Joining pos(2) by (simp add: pool_inv_def)
    ultimately show ?thesis by (intro busy_pool_moves [OF inv ok(1) pos(2)]) auto
  qed
next
  case (Stopping j)
  show ?thesis
  proof (cases j)
    case 0
    with Stopping produced show ?thesis by (force simp: ordinary_def)
  next
    case (Suc k)
    show ?thesis
    proof (cases "length (pl_queue p) < cap")
      case True
      with Stopping Suc sentinel show ?thesis by (force simp: ordinary_def)
    next
      case False
      with pos(1) have "pl_queue p \<noteq> []" by auto
      moreover have "exited (pl_tasks p) < length (pl_tasks p)" using inv Stopping Suc by (simp add: pool_inv_def)
      ultimately show ?thesis by (intro busy_pool_moves [OF inv ok(1) pos(2)]) auto
    qed
  qed
next
  case Produced
  have "exited (pl_tasks p) < length (pl_tasks p)"
  proof (rule ccontr)
    assume "\<not> ?thesis"
    then have "exited (pl_tasks p) = length (pl_tasks p)" using inv Produced by (simp add: pool_inv_def)
    then have "list_all (\<lambda>t. t = Exited) (pl_tasks p)" by (rule exited_full)
    then have "pool_over p" using Produced by (auto simp: pool_over_def list_all_iff)
    with more show False by simp
  qed
  moreover from this have "pl_queue p \<noteq> []" using inv Produced by (auto simp: pool_inv_def)
  ultimately show ?thesis by (intro busy_pool_moves [OF inv ok(1) pos(2)]) auto
qed (use ok in simp)

section \<open>Every pool comes to an end\<close>

primrec task_weight :: "'i task \<Rightarrow> nat" where
  "task_weight Waiting = 1"
| "task_weight (Working x) = 2"
| "task_weight Exited = 0"
| "task_weight Broken = 0"

definition slot_weight :: "'i option \<Rightarrow> nat" where
  "slot_weight x = (case x of None \<Rightarrow> 1 | Some _ \<Rightarrow> 2)"

definition producer_weight :: "nat \<Rightarrow> nat \<Rightarrow> producer \<Rightarrow> nat" where
  "producer_weight togo n phase = (case phase of
     Checking \<Rightarrow> 4 * togo + 2 * n + 3 | Offering \<Rightarrow> 4 * togo + 2 * n + 2 | Joining \<Rightarrow> 2 * n + 2
   | Stopping j \<Rightarrow> 2 * j + 1 | Produced \<Rightarrow> 0 | Halted \<Rightarrow> 0)"

definition pool_measure :: "nat \<Rightarrow> 'i pool \<Rightarrow> nat" where
  "pool_measure amount p =
     producer_weight (amount - pl_next p) (length (pl_tasks p)) (pl_producer p) +
     sum_list (map task_weight (pl_tasks p)) + sum_list (map slot_weight (pl_queue p))"

lemma task_weight_update:
  assumes "i < length ts"
  shows "sum_list (map task_weight (ts[i := t])) + task_weight (ts ! i) = sum_list (map task_weight ts) + task_weight t"
proof -
  obtain r where r: "mset ts = add_mset (ts ! i) r" "mset (ts[i := t]) = add_mset t r" using task_update [OF assms] by metis
  have "sum_list (map task_weight xs) = (\<Sum>t \<in># mset xs. task_weight t)" for xs :: "'a task list"
    by (metis mset_map sum_mset_sum_list)
  then show ?thesis unfolding r by (simp add: r)
qed

lemma pool_step_measure:
  assumes "pool_step cap item amount stop p e p'" "pool_inv cap item amount p"
  shows "pool_measure amount p' < pool_measure amount p"
  using assms
proof (cases rule: pool_step.cases)
  case (enqueue x)
  then have "amount - pl_next p = Suc (amount - Suc (pl_next p))" using assms(2) by (simp add: pool_inv_def Suc_diff_Suc)
  with enqueue show ?thesis by (simp add: pool_measure_def producer_weight_def slot_weight_def)
next
  case (pick i x q)
  with task_weight_update [OF pick(3), of "Working x"] show ?thesis by (simp add: pool_measure_def slot_weight_def)
next
  case (leave i q)
  with task_weight_update [OF leave(3), of Exited] show ?thesis by (simp add: pool_measure_def slot_weight_def)
next
  case (complete i x)
  with task_weight_update [OF complete(3), of Waiting] show ?thesis by (simp add: pool_measure_def)
next
  case (raise_item i x)
  with task_weight_update [OF raise_item(3), of Broken] show ?thesis by (simp add: pool_measure_def)
next
  case (drop_task i)
  with task_weight_update [OF drop_task(3), of Broken] show ?thesis by (simp add: pool_measure_def)
next
  case drop_producer
  then show ?thesis by (cases "pl_producer p") (simp_all add: pool_measure_def producer_weight_def)
qed (simp_all add: pool_measure_def producer_weight_def slot_weight_def)

lemma pool_measure_new: "pool_measure amount (new_pool n) = 4 * amount + 3 * n + 3"
  by (simp add: pool_measure_def new_pool_def producer_weight_def sum_list_replicate)

lemma pool_step_tasks: "pool_step cap item amount stop p e p' \<Longrightarrow> length (pl_tasks p') = length (pl_tasks p)"
  by (erule pool_step.cases) auto

section \<open>What an event changes\<close>

lemma pool_event:
  assumes "pool_step cap item amount stop p e p'"
  shows "pl_completed p' = pl_completed p @ (case e of Completed _ x \<Rightarrow> [x] | _ \<Rightarrow> [])"
    and "pl_broken p' = pl_broken p @ (case e of Raised _ x \<Rightarrow> [x] | _ \<Rightarrow> [])"
    and "pl_next p' = pl_next p + (case e of Enqueued _ \<Rightarrow> 1 | _ \<Rightarrow> 0)"
    and "e = Enqueued x \<Longrightarrow> x = item (pl_next p)"
  using assms by (cases rule: pool_step.cases; simp)+

text \<open>\<open>unhurt\<close>: no task and no producer was ended before its time.\<close>

definition unhurt :: "'i pool \<Rightarrow> bool" where
  "unhurt p \<longleftrightarrow> Broken \<notin> set (pl_tasks p) \<and> pl_producer p \<noteq> Halted \<and> pl_broken p = []"

lemma unhurt_new: "unhurt (new_pool n)"
  by (simp add: unhurt_def new_pool_def)

lemma not_broken_update: "Broken \<notin> set ts \<Longrightarrow> t \<noteq> Broken \<Longrightarrow> Broken \<notin> set (ts[i := t])"
  using set_update_subset_insert [of ts i t] by blast

lemma unhurt_step:
  assumes "pool_step cap item amount stop p e p'" "unhurt p" "ordinary e" "\<not> stop"
  shows "unhurt p'"
  using assms by (cases rule: pool_step.cases) (simp_all add: unhurt_def ordinary_def not_broken_update)

lemma pool_item:
  assumes "pool_step cap item amount stop p e p'" "pool_inv cap item amount p" "e = Completed i x \<or> e = Raised i x \<or> e = Enqueued x"
  shows "\<exists>k < amount. x = item k"
proof (cases "e = Enqueued x")
  case True
  with assms(1,2) show ?thesis by (cases rule: pool_step.cases) (auto simp: pool_inv_def)
next
  case False
  with assms(1,3) have t: "i < length (pl_tasks p)" "pl_tasks p ! i = Working x" by (cases rule: pool_step.cases; auto)+
  have "working (pl_tasks p) = add_mset x (working ((pl_tasks p)[i := Broken]))"
    using working_update [OF t(1), of Broken] t(2) by simp
  then have "x \<in># working (pl_tasks p)" by simp
  moreover have "mset (map item [0..<pl_next p]) = mset (pl_completed p) + mset (pl_broken p) + working (pl_tasks p) + queued (pl_queue p)"
    using assms(2) by (simp only: pool_inv_def)
  ultimately have "x \<in># mset (map item [0..<pl_next p])" by (simp only: union_iff simp_thms)
  then have "x \<in> set (map item [0..<pl_next p])" by (simp only: set_mset_mset)
  moreover have "pl_next p \<le> amount" using assms(2) by (simp only: pool_inv_def)
  ultimately show ?thesis by (metis atLeastLessThan_iff imageE less_le_trans list.set_map set_upt)
qed

lemma pool_done:
  assumes "pool_over p" "unhurt p" "pool_inv cap item amount p"
  shows "mset (pl_completed p) = mset (map item [0..<amount]) \<and> pl_next p = amount"
proof -
  have "pl_producer p = Produced" "list_all (\<lambda>t. t = Exited) (pl_tasks p)"
    using assms(1,2) by (auto simp: pool_over_def unhurt_def list_all_iff)
  with pool_finished [OF assms(3)] assms(2,3) show ?thesis by (simp add: unhurt_def pool_inv_def)
qed

text \<open>In a pool that was told to end, every task that has not ended can be ended.\<close>

lemma hurt_pool_moves:
  assumes "\<not> pool_over p"
  shows "\<exists>e p'. pool_step cap item amount stop p e p' \<and> (e = Dropped \<or> (\<exists>i x. e = Raised i x))"
proof (cases "pl_producer p = Produced \<or> pl_producer p = Halted")
  case True
  with assms obtain t where "t \<in> set (pl_tasks p)" "t \<noteq> Exited" "t \<noteq> Broken" by (auto simp: pool_over_def list_all_iff)
  then obtain i where i: "i < length (pl_tasks p)" "pl_tasks p ! i = t" by (auto simp: in_set_conv_nth)
  show ?thesis
  proof (cases t)
    case Waiting
    with i have "pl_tasks p ! i = Waiting" by simp
    from drop_task [OF i(1) this] show ?thesis by (intro exI conjI disjI1) (assumption, rule refl)
  next
    case (Working x)
    with i have "pl_tasks p ! i = Working x" by simp
    from raise_item [OF i(1) this] show ?thesis by (intro exI conjI disjI2) (assumption, rule refl)
  qed (use \<open>t \<noteq> Exited\<close> \<open>t \<noteq> Broken\<close> in auto)
next
  case False
  then have "pl_producer p \<noteq> Produced" "pl_producer p \<noteq> Halted" by simp_all
  from drop_producer [OF this] show ?thesis by (intro exI conjI disjI1) (assumption, rule refl)
qed

end
