(* ===== verification/Driver_Util.thy ===== *)
theory Driver_Util
  imports Core Json_Parse
begin

text \<open>
  The small pure parts of the driver (\<^verbatim>\<open>benchmark.py\<close>, first part): SQL literals, event lines,
  artifact hashes, credentials, error redaction, the receipt and attestation checks, the names
  of a run and the check of the server's status.
\<close>

section \<open>Constants, literals, events and artifacts\<close>

definition REQUIRED_ENV :: "string list" where
  "REQUIRED_ENV = [''VARVE_URL'', ''VARVE_API_TOKEN'', ''PGHOST'', ''PGPORT'', ''PGUSER'', ''PGPASSWORD'', ''PGDATABASE'']"

definition CALL_TIMEOUT :: rat where "CALL_TIMEOUT = 35"
definition CONNECT_TIMEOUT :: rat where "CONNECT_TIMEOUT = 15"
definition MAX_RESPONSE_BYTES :: nat where "MAX_RESPONSE_BYTES = 16 * 1024 * 1024"
definition ATTESTATION_MAX_BYTES :: nat where "ATTESTATION_MAX_BYTES = 64 * 1024"
definition EXPECTED_NATIVE_VERSION :: string where "EXPECTED_NATIVE_VERSION = ''v2.0.0-alpha41533''"
definition EXPECTED_NATIVE_LIBRARY_SHA256 :: string where
  "EXPECTED_NATIVE_LIBRARY_SHA256 = ''69bdd44e0d2426e7ba44ed14644b54d8bd99a9703e5cbb4aec3f8beef40f817d''"
definition EXPECTED_NATIVE_HEADER_SHA256 :: string where
  "EXPECTED_NATIVE_HEADER_SHA256 = ''62ad0df66b9f4193a657540d2429ba23cb32c41c5c98ea9f3f4e7a3b64e30544''"

definition sq :: string where "sq = [CHR 0x27]"

definition sql_literal :: "string \<Rightarrow> string" where
  "sql_literal value = sq @ py_replace sq (sq @ sq) value @ sq"

text \<open>\<^verbatim>\<open>safe.update(fields)\<close>, and the line that \<^verbatim>\<open>emit\<close> prints at the time \<open>now\<close>.\<close>

definition dict_update :: "dict \<Rightarrow> dict \<Rightarrow> dict" where
  "dict_update d kvs = foldl (\<lambda>acc kv. dset acc (fst kv) (snd kv)) d kvs"

definition emit :: "string \<Rightarrow> string \<Rightarrow> dict \<Rightarrow> string result" where
  "emit now event kvs =
     dumps False True (JObj (dict_update [(''event'', JStr event), (''at'', JStr now)] kvs))"

text \<open>\<open>read_bytes\<close> gives the bytes of a file beside the driver; a missing file raises.\<close>

definition file_digest :: "(string \<Rightarrow> nat list option) \<Rightarrow> string \<Rightarrow> string result" where
  "file_digest read_bytes name =
     (case read_bytes name of None \<Rightarrow> Inl (OSError name) | Some bytes \<Rightarrow> Inr (sha256_bytes bytes))"

definition artifact_metadata :: "(string \<Rightarrow> nat list option) \<Rightarrow> dict result" where
  "artifact_metadata read_bytes =
     (let names = [''benchmark.py'', ''core.py'', ''requirements.txt'', ''Dockerfile''] in
      ebind (emap (file_digest read_bytes) names) (\<lambda>digests.
      Inr [(''format_version'', JInt 1),
           (''sha256'', JStr (sha256_hex (concat digests))),
           (''files'', JObj (zip names (map JStr digests)))]))"

section \<open>Credentials\<close>

text \<open>
  \<^verbatim>\<open>urllib.parse.urlsplit\<close> and the attributes the driver reads. Whether the text between
  brackets of a host is an IP address is the argument \<open>bracket_ok\<close>.
\<close>

record split_url =
  us_scheme :: string
  us_netloc :: string
  us_query :: string
  us_fragment :: string

definition is_alpha :: "char \<Rightarrow> bool" where
  "is_alpha c \<longleftrightarrow> is_lower (lower_char c)"

definition is_scheme_char :: "char \<Rightarrow> bool" where
  "is_scheme_char c \<longleftrightarrow> is_alpha c \<or> is_dec_digit c \<or> c \<in> {CHR ''+'', CHR ''-'', CHR ''.''}"

definition clean_url :: "string \<Rightarrow> string" where
  "clean_url url =
     filter (\<lambda>c. of_char c \<notin> {9, 10, 13 :: nat}) (dropWhile (\<lambda>c. (of_char c :: nat) \<le> 32) url)"

definition split_scheme :: "string \<Rightarrow> string \<times> string" where
  "split_scheme url =
     (case split_at_char (\<lambda>c. c = CHR '':'') url of
        (head, Some rest) \<Rightarrow>
          if head \<noteq> [] \<and> is_alpha (hd head) \<and> list_all is_scheme_char head
          then (map lower_char head, rest) else ([], url)
      | (_, None) \<Rightarrow> ([], url))"

definition split_netloc :: "string \<Rightarrow> string \<times> string" where
  "split_netloc url =
     (if prefix ''//'' url
      then (takeWhile (\<lambda>c. c \<notin> {CHR ''/'', CHR ''?'', CHR ''#''}) (drop 2 url),
            dropWhile (\<lambda>c. c \<notin> {CHR ''/'', CHR ''?'', CHR ''#''}) (drop 2 url))
      else ([], url))"

definition cut_at :: "char \<Rightarrow> string \<Rightarrow> string \<times> string" where
  "cut_at a s = (case split_at_char (\<lambda>c. c = a) s of (h, None) \<Rightarrow> (h, []) | (h, Some t) \<Rightarrow> (h, t))"

definition urlsplit :: "(string \<Rightarrow> bool) \<Rightarrow> string \<Rightarrow> split_url result" where
  "urlsplit bracket_ok url0 =
     (let (scheme, url1) = split_scheme (clean_url url0);
          (netloc, url2) = split_netloc url1;
          opened = CHR ''['' \<in> set netloc; closed = CHR '']'' \<in> set netloc;
          (url3, fragment) = cut_at (CHR ''#'') url2;
          (_, query) = cut_at (CHR ''?'') url3
      in if opened \<noteq> closed then Inl (ValueError ''Invalid IPv6 URL'')
         else if opened \<and> \<not> bracket_ok (fst (cut_at (CHR '']'') (snd (cut_at (CHR ''['') netloc))))
         then Inl (ValueError ''Invalid IPv6 URL'')
         else Inr \<lparr>us_scheme = scheme, us_netloc = netloc, us_query = query, us_fragment = fragment\<rparr>)"

text \<open>The part before and after the last at-sign.\<close>

definition userinfo :: "string \<Rightarrow> string" where
  "userinfo netloc =
     (if CHR ''@'' \<in> set netloc then rev (tl (dropWhile (\<lambda>c. c \<noteq> CHR ''@'') (rev netloc))) else [])"

definition hostinfo :: "string \<Rightarrow> string" where
  "hostinfo netloc = rev (takeWhile (\<lambda>c. c \<noteq> CHR ''@'') (rev netloc))"

definition url_hostname :: "split_url \<Rightarrow> string" where
  "url_hostname u =
     (let host = hostinfo (us_netloc u) in
      map lower_char (if CHR ''['' \<in> set host then fst (cut_at (CHR '']'') (snd (cut_at (CHR ''['') host)))
                      else fst (cut_at (CHR '':'') host)))"

definition url_username :: "split_url \<Rightarrow> string" where
  "url_username u = fst (cut_at (CHR '':'') (userinfo (us_netloc u)))"

definition url_password :: "split_url \<Rightarrow> string" where
  "url_password u = snd (cut_at (CHR '':'') (userinfo (us_netloc u)))"

definition is_printable_ascii :: "char \<Rightarrow> bool" where
  "is_printable_ascii c \<longleftrightarrow> 32 \<le> (of_char c :: nat) \<and> (of_char c :: nat) < 127"

type_synonym credentials = "(string \<times> string) list"

definition cred :: "credentials \<Rightarrow> string \<Rightarrow> string" where
  "cred values name = (case map_of values name of None \<Rightarrow> [] | Some v \<Rightarrow> v)"

definition valid_url :: "(string \<Rightarrow> bool) \<Rightarrow> string \<Rightarrow> unit result" where
  "valid_url bracket_ok url =
     ebind (urlsplit bracket_ok url) (\<lambda>parsed.
     ebind (guard (us_scheme parsed \<in> {''http'', ''https''} \<and> url_hostname parsed \<noteq> [])
             (ValueError ''VARVE_URL must be an absolute HTTP(S) URL'')) (\<lambda>_.
     guard (url_username parsed = [] \<and> url_password parsed = [] \<and> us_query parsed = [] \<and> us_fragment parsed = [])
       (ValueError ''VARVE_URL must not contain credentials, query, or fragment'')))"

definition valid_port :: "string \<Rightarrow> unit result" where
  "valid_port port =
     (let bad = ValueError ''PGPORT must be an integer in 1..65535'' in
      if \<not> py_isdigit port then Inl bad
      else case py_int port of
        None \<Rightarrow> Inl (ValueError (''invalid literal for int() with base 10: '' @ sq @ port @ sq))
      | Some n \<Rightarrow> guard (1 \<le> n \<and> n \<le> 65535) bad)"

definition valid_token :: "string \<Rightarrow> unit result" where
  "valid_token token =
     guard (32 \<le> length token \<and> length token \<le> 4096 \<and> list_all is_printable_ascii token)
       (ValueError ''VARVE_API_TOKEN must contain 32..4096 visible ASCII bytes'')"

definition load_credentials :: "(string \<Rightarrow> bool) \<Rightarrow> (string \<Rightarrow> string option) \<Rightarrow> credentials result" where
  "load_credentials bracket_ok environ =
     (let missing = filter (\<lambda>name. environ name = None \<or> environ name = Some []) REQUIRED_ENV;
          values = map (\<lambda>name. (name, the (environ name))) REQUIRED_ENV
      in if missing \<noteq> [] then
           Inl (ValueError (''missing required credential environment variables: '' @ join_str '', '' missing))
         else
           ebind (valid_url bracket_ok (cred values ''VARVE_URL'')) (\<lambda>_.
           ebind (valid_port (cred values ''PGPORT'')) (\<lambda>_.
           ebind (valid_token (cred values ''VARVE_API_TOKEN'')) (\<lambda>_. Inr values))))"

section \<open>Redaction of errors\<close>

text \<open>
  An exception object in a store of objects: its class name, its text, the members of a group,
  and the explicit cause or implicit context it was raised from. Objects are their identities.
\<close>

record exception =
  ex_type :: string
  ex_text :: string
  ex_members :: "nat list"
  ex_cause :: "nat option"
  ex_suppress_context :: bool
  ex_context :: "nat option"

text \<open>
  \<^verbatim>\<open>clean\<close>'s loop. The list \<open>pending\<close> has the element that is popped next at its head, so
  \<^verbatim>\<open>pending.extend(reversed(item.exceptions))\<close> puts the members in front in their order.
\<close>

definition chained :: "exception \<Rightarrow> nat list" where
  "chained item =
     (case ex_cause item of Some c \<Rightarrow> [c]
      | None \<Rightarrow> if \<not> ex_suppress_context item then (case ex_context item of Some c \<Rightarrow> [c] | None \<Rightarrow> []) else [])"

function describe :: "(nat \<Rightarrow> exception) \<Rightarrow> nat list \<Rightarrow> nat list \<Rightarrow> string list \<Rightarrow> string list" where
  "describe store pending seen descriptions =
     (if length descriptions < 16 then
        (case pending of
           [] \<Rightarrow> descriptions
         | item # rest \<Rightarrow>
             if item \<in> set seen then describe store rest seen descriptions
             else describe store (chained (store item) @ ex_members (store item) @ rest) (item # seen)
                    (descriptions @ [ex_type (store item) @ '': '' @ ex_text (store item)]))
      else descriptions)"
  by pat_completeness auto
termination
  by (relation "measures [\<lambda>(_, _, _, ds). 16 - length ds, \<lambda>(_, pending, _, _). length pending]") auto

declare describe.simps [simp del]

definition redacted :: string where "redacted = ''<redacted>''"

definition redact :: "string list \<Rightarrow> string \<Rightarrow> string" where
  "redact secrets content = foldl (\<lambda>t secret. py_replace secret redacted t) content secrets"

definition secrets_of :: "credentials \<Rightarrow> string list" where
  "secrets_of credentials = sorted_reverse length (filter (\<lambda>v. v \<noteq> []) (map snd credentials))"

definition redactor :: "credentials \<Rightarrow> (nat \<Rightarrow> exception) \<Rightarrow> nat \<Rightarrow> string" where
  "redactor credentials store error =
     take 2000 (redact (secrets_of credentials) (join_str '' | '' (describe store [error] [] [])))"

text \<open>\<^verbatim>\<open>VarveHttpError(status, message)\<close>; \<open>message\<close> is already \<^verbatim>\<open>str(message)\<close>.\<close>

definition varve_http_error :: "int \<Rightarrow> string \<Rightarrow> pyerror" where
  "varve_http_error status message = HttpStatus status (''Varve HTTP '' @ dec_int status @ '': '' @ take 500 message)"

section \<open>Receipts and attestations\<close>

definition validate_varve_receipt :: "json \<Rightarrow> int \<Rightarrow> bool \<Rightarrow> dict result" where
  "validate_varve_receipt receipt expected_rows duplicate =
     (case receipt of
        JObj d \<Rightarrow>
          ebind (guard (dget d ''rows'' = JInt expected_rows)
                  (RuntimeError ''Varve write receipt row count mismatch'')) (\<lambda>_.
          ebind (guard (dget d ''duplicate'' = JBool duplicate)
                  (RuntimeError ''Varve write receipt duplicate flag mismatch'')) (\<lambda>_.
          ebind (guard (dget d ''durability'' = JStr ''local_fsync'')
                  (RuntimeError ''Varve write omitted local_fsync durability receipt'')) (\<lambda>_.
          ebind (guard (case dget d ''sequence'' of JInt s \<Rightarrow> 0 < s | _ \<Rightarrow> False)
                  (RuntimeError ''Varve write receipt sequence must be positive'')) (\<lambda>_.
          Inr d))))
      | _ \<Rightarrow> Inl (RuntimeError ''Varve write receipt is not an object''))"

definition parse_attestation :: "string \<Rightarrow> dict result" where
  "parse_attestation value =
     (if ATTESTATION_MAX_BYTES < length (utf8 value) then
        Inl (ArgumentTypeError ''attestation JSON exceeds 64 KiB'')
      else case loads_with True value of
        Inl (Decode msg) \<Rightarrow> Inl (ArgumentTypeError (''invalid attestation JSON: '' @ msg))
      | Inl (Constant c) \<Rightarrow> Inl (ArgumentTypeError (''invalid attestation JSON: non-finite JSON value '' @ c))
      | Inl Wide \<Rightarrow> Inl (ArgumentTypeError ''character outside the model'')
      | Inr (JObj d) \<Rightarrow> Inr d
      | Inr _ \<Rightarrow> Inl (ArgumentTypeError ''attestation JSON must be an object''))"

section \<open>The names of a run\<close>

record Names =
  varve_table :: string
  varve_aggregate :: string
  checkpoint_job :: string
  compact_job :: string
  pg_schema :: string
  pg_table :: string
  pg_receipts :: string
  pg_aggregate :: string

definition names_json :: "Names \<Rightarrow> dict" where
  "names_json n = [
     (''varve_table'', JStr (varve_table n)), (''varve_aggregate'', JStr (varve_aggregate n)),
     (''checkpoint_job'', JStr (checkpoint_job n)), (''compact_job'', JStr (compact_job n)),
     (''pg_schema'', JStr (pg_schema n)), (''pg_table'', JStr (pg_table n)),
     (''pg_receipts'', JStr (pg_receipts n)), (''pg_aggregate'', JStr (pg_aggregate n))]"

definition owned_name :: "string \<Rightarrow> string \<Rightarrow> string result" where
  "owned_name kind run_id = checked_identifier (kind @ ''_'' @ run_id @ ''_'' @ take 8 (sha256_hex run_id))"

text \<open>\<^verbatim>\<open>run_id.encode("ascii")\<close> raises a \<^verbatim>\<open>UnicodeEncodeError\<close>, a \<^verbatim>\<open>ValueError\<close>, on other characters.\<close>

definition names_for :: "string \<Rightarrow> Names result" where
  "names_for run_id =
     ebind (guard (list_all (\<lambda>c. (of_char c :: nat) < 128) run_id) (ValueError ''ordinal not in range(128)'')) (\<lambda>_.
     ebind (owned_name ''vb'' run_id) (\<lambda>table.
     ebind (owned_name ''va'' run_id) (\<lambda>aggregate.
     ebind (owned_name ''vc'' run_id) (\<lambda>checkpoint.
     ebind (owned_name ''vm'' run_id) (\<lambda>compact.
     ebind (owned_name ''vb'' run_id) (\<lambda>schema.
     Inr \<lparr>varve_table = table, varve_aggregate = aggregate, checkpoint_job = checkpoint, compact_job = compact,
          pg_schema = schema, pg_table = ''measurements'', pg_receipts = ''batch_receipts'',
          pg_aggregate = ''minute_rollup''\<rparr>))))))"

section \<open>The status of a rebuilt server\<close>

definition native_expected :: dict where
  "native_expected = [(''version'', JStr EXPECTED_NATIVE_VERSION),
     (''library_sha256'', JStr EXPECTED_NATIVE_LIBRARY_SHA256),
     (''header_sha256'', JStr EXPECTED_NATIVE_HEADER_SHA256)]"

definition status_checks :: "json \<Rightarrow> (string \<times> bool) list" where
  "status_checks status =
     (let native = jget status ''native_query'' in
      [(''persisted_segmented_journal'', jget status ''segmented_journal'' = JBool True),
       (''native_version'', jget native ''version'' = JStr EXPECTED_NATIVE_VERSION),
       (''native_library_sha256'', jget native ''library_sha256'' = JStr EXPECTED_NATIVE_LIBRARY_SHA256),
       (''native_header_sha256'', jget native ''header_sha256'' = JStr EXPECTED_NATIVE_HEADER_SHA256)])"

definition rebuilt_status :: "json \<Rightarrow> dict" where
  "rebuilt_status status = [
     (''passed'', JBool (list_all snd (status_checks status))),
     (''checks'', JObj (map (\<lambda>(k, b). (k, JBool b)) (status_checks status))),
     (''expected'', JObj [(''segmented_journal'', JBool True), (''native_query'', JObj native_expected)]),
     (''actual'', JObj (map (\<lambda>k. (k, jget status k))
        [''database_id'', ''sequence'', ''checkpoint_sequence'', ''segmented_journal'', ''native_query''])),
     (''evidence'', JStr ''measured from Varve /v1/status; segmented_journal is the persisted catalog marker'')]"

section \<open>Literals cannot be escaped\<close>

text \<open>How an SQL reader ends a literal: two quotes stand for one, a single quote ends it.\<close>

fun literal_body :: "string \<Rightarrow> (string \<times> string) option" where
  "literal_body [] = None"
| "literal_body (c # cs) =
     (if c = CHR 0x27 then
        (case cs of
           d # ds \<Rightarrow> if d = CHR 0x27 then map_option (\<lambda>(v, r). (CHR 0x27 # v, r)) (literal_body ds) else Some ([], cs)
         | [] \<Rightarrow> Some ([], []))
      else map_option (\<lambda>(v, r). (c # v, r)) (literal_body cs))"

definition read_literal :: "string \<Rightarrow> (string \<times> string) option" where
  "read_literal s = (case s of c # cs \<Rightarrow> if c = CHR 0x27 then literal_body cs else None | [] \<Rightarrow> None)"

lemma literal_body_doubled:
  assumes "\<not> prefix sq rest"
  shows "literal_body (concat (map (\<lambda>c. if c = CHR 0x27 then sq @ sq else [c]) value) @ sq @ rest) = Some (value, rest)"
proof (induction "value")
  case Nil
  from assms show ?case by (cases rest) (auto simp: sq_def)
next
  case (Cons c cs)
  then show ?case by (simp add: sq_def)
qed



section \<open>No secret survives redaction\<close>

definition plain_secret :: "string \<Rightarrow> bool" where
  "plain_secret s \<longleftrightarrow> s \<noteq> [] \<and> CHR ''<'' \<notin> set s \<and> CHR ''>'' \<notin> set s \<and> \<not> sublist s ''redacted''"

lemma prefix_replace_str:
  assumes "CHR ''<'' \<notin> set x"
  shows "prefix x (replace_str old redacted t) \<Longrightarrow> prefix x t"
  using assms
proof (induction "length t" arbitrary: x t rule: less_induct)
  case less
  show ?case
  proof (cases "old = [] \<or> t = []")
    case True
    then show ?thesis using less.prems by (subst (asm) replace_str.simps) simp
  next
    case False
    then obtain c r where t: "t = c # r" by (cases t) auto
    show ?thesis
    proof (cases "prefix old t")
      case True
      then have "prefix x (redacted @ replace_str old redacted (drop (length old) t))"
        using less.prems False by (subst (asm) replace_str.simps) simp
      then have "x = []" using less.prems(2) by (cases x) (auto simp: redacted_def)
      then show ?thesis by simp
    next
      case no: False
      then have "prefix x (c # replace_str old redacted r)"
        using less.prems False t by (subst (asm) replace_str.simps) simp
      then show ?thesis using less.hyps [of r] less.prems(2) t by (cases x) auto
    qed
  qed
qed

lemma sublist_after_redacted:
  assumes "plain_secret x" "sublist x (redacted @ u)"
  shows "sublist x u"
proof -
  have split: "sublist x redacted \<or> sublist x u \<or> (\<exists>a b. x = a @ b \<and> suffix a redacted \<and> prefix b u)"
    using assms(2) by (simp add: sublist_append)
  have no_red: "\<not> sublist x redacted"
  proof
    assume "sublist x redacted"
    then obtain p s where ps: "redacted = p @ x @ s" by (auto simp: sublist_def)
    have x: "x \<noteq> []" "hd x \<noteq> CHR ''<''" "last x \<noteq> CHR ''>''"
      using assms(1) by (auto simp: plain_secret_def dest: hd_in_set last_in_set)
    have "p \<noteq> []" using ps x by (cases x) (auto simp: redacted_def)
    moreover have "s \<noteq> []"
    proof
      assume "s = []"
      with ps have "last redacted = last x" using x(1) by (metis append_Nil2 last_appendR)
      with x(3) show False by (simp add: redacted_def)
    qed
    ultimately obtain a p' s' b where p: "p = a # p'" and s: "s = s' @ [b]" by (meson neq_Nil_conv rev_exhaust)
    have "CHR ''<'' # ''redacted'' @ [CHR ''>''] = a # (p' @ x @ s') @ [b]" using ps p s by (simp add: redacted_def)
    then have "''redacted'' = p' @ x @ s'" by (metis append1_eq_conv list.inject)
    with assms(1) show False by (auto simp: plain_secret_def sublist_def)
  qed
  have "sublist x u" if ab: "x = a @ b" "suffix a redacted" "prefix b u" for a b
  proof (cases "a = []")
    case True
    with ab show ?thesis by (simp add: prefix_imp_sublist)
  next
    case False
    then have "last a = CHR ''>''" using ab(2) by (auto simp: suffix_def redacted_def) (metis last.simps last_appendR list.discI)
    then show ?thesis using False ab(1) assms(1) by (metis Un_iff last_in_set plain_secret_def set_append)
  qed
  with split no_red show ?thesis by blast
qed

lemma sublist_replace_str:
  assumes "plain_secret x"
  shows "sublist x (replace_str old redacted t) \<Longrightarrow> sublist x t \<and> (old \<noteq> [] \<longrightarrow> x \<noteq> old)"
proof (induction "length t" arbitrary: t rule: less_induct)
  case less
  have x: "x \<noteq> []" "CHR ''<'' \<notin> set x" using assms by (auto simp: plain_secret_def)
  show ?case
  proof (cases "old = [] \<or> t = []")
    case True
    then show ?thesis using less.prems x by (subst (asm) replace_str.simps) auto
  next
    case False
    then obtain c r where t: "t = c # r" by (cases t) auto
    show ?thesis
    proof (cases "prefix old t")
      case True
      then have "sublist x (redacted @ replace_str old redacted (drop (length old) t))"
        using less.prems False by (subst (asm) replace_str.simps) simp
      from less.hyps [OF _ sublist_after_redacted [OF assms this]] False
      have "sublist x (drop (length old) t) \<and> x \<noteq> old" by (cases old) auto
      then show ?thesis by (metis sublist_drop sublist_order.dual_order.trans)
    next
      case no: False
      then have "sublist x (c # replace_str old redacted r)"
        using less.prems False t by (subst (asm) replace_str.simps) simp
      then consider "prefix x (c # replace_str old redacted r)" | "sublist x (replace_str old redacted r)"
        by (auto simp: sublist_Cons_right)
      then show ?thesis
      proof cases
        case 1
        then have "prefix x t" using x prefix_replace_str [of "tl x" old r] t by (cases x) auto
        with no show ?thesis by (auto simp: prefix_imp_sublist)
      next
        case 2
        with less.hyps [of r] False t show ?thesis by (auto simp: sublist_Cons_right)
      qed
    qed
  qed
qed

lemma sublist_redact:
  assumes "plain_secret x" "[] \<notin> set secrets"
  shows "sublist x (redact secrets t) \<Longrightarrow> sublist x t \<and> x \<notin> set secrets"
  using assms(2)
proof (induction secrets arbitrary: t)
  case Nil
  then show ?case by (simp add: redact_def)
next
  case (Cons s secrets)
  have "s \<noteq> []" using Cons.prems(2) by auto
  then have "redact (s # secrets) t = redact secrets (replace_str s redacted t)"
    by (simp add: redact_def py_replace_def)
  with Cons \<open>s \<noteq> []\<close> sublist_replace_str [OF assms(1), of s t] show ?case by auto
qed

lemma set_secrets_of: "set (secrets_of credentials) = {v \<in> snd ` set credentials. v \<noteq> []}"
  by (auto simp: secrets_of_def sorted_reverse_def)

text \<open>
  C32: no credential occurs in the text the driver reports for an error, whatever chain of
  causes, contexts and groups the error has, and the text has at most 2000 characters. The
  credential must not itself contain an angle bracket or be a piece of the word that replaces it.
\<close>

theorem redactor_removes_secrets:
  assumes "(name, secret) \<in> set credentials" "plain_secret secret"
  shows "\<not> sublist secret (redactor credentials store error) \<and> length (redactor credentials store error) \<le> 2000"
proof -
  let ?t = "redact (secrets_of credentials) (join_str '' | '' (describe store [error] [] []))"
  have "secret \<in> set (secrets_of credentials)"
    using assms by (force simp: set_secrets_of plain_secret_def)
  then have "\<not> sublist secret ?t"
    using sublist_redact [OF assms(2), of "secrets_of credentials"] by (auto simp: set_secrets_of)
  then have "\<not> sublist secret (take 2000 ?t)" by (metis sublist_take sublist_order.dual_order.trans)
  then show ?thesis by (simp add: redactor_def)
qed

theorem redactor_removes_secrets_witness:
  "\<not> sublist ''hunter2'' (redactor [(''PGPASSWORD'', ''hunter2'')]
      (\<lambda>_. \<lparr>ex_type = ''OperationalError'', ex_text = ''password hunter2 refused'', ex_members = [], ex_cause = Some 0,
          ex_suppress_context = False, ex_context = None\<rparr>) 0)"
  using redactor_removes_secrets [of "''PGPASSWORD''" "''hunter2''" "[(''PGPASSWORD'', ''hunter2'')]"]
  by (simp add: plain_secret_def sublist_code)

section \<open>Receipts\<close>

text \<open>
  A write receipt is accepted exactly when it is an object that reports the expected number
  of rows as an integer, the expected duplicate flag, local durability and a positive sequence
  number, and it is returned unchanged.
\<close>

lemma receipt_accepted_iff:
  "validate_varve_receipt receipt expected_rows duplicate = Inr d \<longleftrightarrow>
     receipt = JObj d \<and> dget d ''rows'' = JInt expected_rows \<and> dget d ''duplicate'' = JBool duplicate \<and>
     dget d ''durability'' = JStr ''local_fsync'' \<and> (\<exists>s > 0. dget d ''sequence'' = JInt s)"
proof -
  have seq: "(case v of JInt s \<Rightarrow> 0 < s | _ \<Rightarrow> False) \<longleftrightarrow> (\<exists>s > 0. v = JInt s)" for v
    by (cases v) auto
  show ?thesis by (cases receipt) (auto simp: validate_varve_receipt_def result_simps seq)
qed

section \<open>The names a run owns\<close>

lemma hex_is_name_char: "is_hex_char c \<Longrightarrow> is_name_char c"
  by (auto simp: is_hex_char_def is_name_char_def is_lower_def)

lemma run_id_name_chars: "run_id_match r \<Longrightarrow> list_all is_name_char r \<and> 1 \<le> length r \<and> length r \<le> 24"
  by (auto simp: run_id_match_def is_name_char_def split: list.splits)

lemma name_char_ascii: "is_name_char c \<Longrightarrow> (of_char c :: nat) < 128"
  by (auto simp: is_name_char_def is_lower_def is_dec_digit_def)

lemma owned_name_ok:
  assumes "run_id_match r" "is_lower a" "is_lower b"
  shows "owned_name [a, b] r = Inr ([a, b] @ ''_'' @ r @ ''_'' @ take 8 (sha256_hex r))"
proof -
  have r: "list_all is_name_char r" "length r \<le> 24" using run_id_name_chars [OF assms(1)] by simp_all
  have "list_all is_name_char (take 8 (sha256_hex r))"
    by (auto simp: list_all_iff dest!: in_set_takeD intro: hex_is_name_char sha256_hex_chars)
  then have "identifier_match ([a, b] @ ''_'' @ r @ ''_'' @ take 8 (sha256_hex r))"
    using r assms by (simp add: identifier_match_def is_name_char_def)
  then show ?thesis by (simp add: owned_name_def checked_identifier_def)
qed



section \<open>The attestation\<close>



end
