(* ===== verification/Run_Report.thy ===== *)
theory Run_Report
  imports Driver_Util
begin

text \<open>
  The run's report (class \<^verbatim>\<open>Report\<close> of the driver): the body with its list of phases, and the
  way it reaches the disk. The clock readings and the printed time are arguments; a write to the
  disk is a list of file operations, so that a crash between or inside them can be described.
\<close>

section \<open>The printed body\<close>

text \<open>\<^verbatim>\<open>json.dumps(body, indent=2, sort_keys=True)\<close> at a nesting level.\<close>

definition new_line :: "nat \<Rightarrow> string" where
  "new_line level = CHR 0x0A # replicate (2 * level) (CHR '' '')"

fun json_pretty :: "nat \<Rightarrow> json \<Rightarrow> string" where
  "json_pretty level (JList xs) =
     (if xs = [] then ''[]''
      else ''['' @ new_line (Suc level)
        @ join_str ('','' @ new_line (Suc level)) (map (json_pretty (Suc level)) xs)
        @ new_line level @ '']'')"
| "json_pretty level (JObj d) =
     (if d = [] then ''{}''
      else let parts = map (\<lambda>kv. (fst kv, json_pretty (Suc level) (snd kv))) d in
        ''{'' @ new_line (Suc level)
        @ join_str ('','' @ new_line (Suc level)) (map (\<lambda>(k, t). enc_str True k @ '': '' @ t) (sort_key fst parts))
        @ new_line level @ ''}'')"
| "json_pretty level v = json_text True True v"

definition report_text :: "dict \<Rightarrow> string" where
  "report_text body = json_pretty 0 (JObj body) @ [CHR 0x0A]"

section \<open>File operations\<close>

datatype fs_op = Write string string | Rename string string

type_synonym files = "string \<Rightarrow> string option"

fun run_op :: "files \<Rightarrow> fs_op \<Rightarrow> files" where
  "run_op fs (Write p c) = fs(p := Some c)"
| "run_op fs (Rename a b) = fs(b := fs a, a := None)"

definition run_ops :: "files \<Rightarrow> fs_op list \<Rightarrow> files" where
  "run_ops fs ops = foldl run_op fs ops"

text \<open>
  The states a crash can leave: before an operation, inside a write with any beginning of the
  content on disk, or after all of them. A rename on one file system is atomic.
\<close>

fun crash_states :: "files \<Rightarrow> fs_op list \<Rightarrow> files set" where
  "crash_states fs [] = {fs}"
| "crash_states fs (Write p c # ops) =
     insert fs ((\<lambda>k. fs(p := Some (take k c))) ` {0..length c} \<union> crash_states (run_op fs (Write p c)) ops)"
| "crash_states fs (Rename a b # ops) = insert fs (crash_states (run_op fs (Rename a b)) ops)"

section \<open>The report\<close>

record Report =
  rp_path :: string
  rp_body :: dict
  rp_started :: rat
  rp_phase_at :: rat

definition new_report :: "string \<Rightarrow> dict \<Rightarrow> rat \<Rightarrow> Report" where
  "new_report path body now = \<lparr>rp_path = path, rp_body = body, rp_started = now, rp_phase_at = now\<rparr>"

text \<open>The text is printed before anything is written, so a float that is not finite leaves the disk alone.\<close>

definition report_flush :: "Report \<Rightarrow> fs_op list result" where
  "report_flush rp =
     (let temporary = rp_path rp @ ''.tmp'' in
      if json_finite (JObj (rp_body rp))
      then Inr [Write temporary (report_text (rp_body rp)), Rename temporary (rp_path rp)]
      else Inl (ValueError ''Out of range float values are not JSON compliant''))"

definition phase_list :: "dict \<Rightarrow> json list result" where
  "phase_list body =
     (case map_of body ''phases'' of
        None \<Rightarrow> Inr []
      | Some (JList ps) \<Rightarrow> Inr ps
      | Some _ \<Rightarrow> Inl (AssertionError []))"

definition phase_started_at :: "dict \<Rightarrow> json list \<Rightarrow> json result" where
  "phase_started_at body phases =
     (if phases = [] then dindex body ''started_at''
      else case last phases of JObj d \<Rightarrow> dindex d ''finished_at'' | _ \<Rightarrow> Inl (TypeError ''phase''))"

definition phase_entry :: "Report \<Rightarrow> json \<Rightarrow> rat \<Rightarrow> string \<Rightarrow> string \<Rightarrow> string \<Rightarrow> dict \<Rightarrow> json" where
  "phase_entry rp started_at now utc name state details =
     JObj (dict_update
       [(''name'', JStr name), (''state'', JStr state), (''started_at'', started_at), (''finished_at'', JStr utc),
        (''duration_seconds'', JFloat (Fin (fl (now - rp_phase_at rp)))),
        (''elapsed_seconds'', JFloat (Fin (fl (now - rp_started rp))))] details)"

text \<open>
  \<^verbatim>\<open>Report.phase\<close>: the report afterwards, and either the exception or the file operations and
  the printed event line. The body keeps the new phase even when the flush raises.
\<close>

definition report_phase :: "Report \<Rightarrow> rat \<Rightarrow> string \<Rightarrow> string \<Rightarrow> string \<Rightarrow> dict \<Rightarrow> Report \<times> (fs_op list \<times> string) result" where
  "report_phase rp now utc name state details =
     (case phase_list (rp_body rp) of
        Inl e \<Rightarrow> (rp, Inl e)
      | Inr phases \<Rightarrow>
          let body1 = (if map_of (rp_body rp) ''phases'' = None then dset (rp_body rp) ''phases'' (JList []) else rp_body rp)
          in case phase_started_at body1 phases of
               Inl e \<Rightarrow> (rp\<lparr>rp_body := body1\<rparr>, Inl e)
             | Inr started_at \<Rightarrow>
                 let entry = phase_entry rp started_at now utc name state details;
                     rp2 = rp\<lparr>rp_body := dset body1 ''phases'' (JList (phases @ [entry])), rp_phase_at := now\<rparr>
                 in (rp2, ebind (report_flush rp2) (\<lambda>ops.
                          ebind (emit utc ''phase'' [(''name'', JStr name), (''state'', JStr state)]) (\<lambda>line.
                          Inr (ops, line)))))"

section \<open>Crashes\<close>

text \<open>
  C23: a crash at any point of a flush, even in the middle of a write, leaves at the report's
  path either the previous report or the complete new one, and a flush that finishes leaves the
  new one.
\<close>

theorem report_flush_crash_safe:
  assumes "report_flush rp = Inr ops"
  shows "run_ops fs ops (rp_path rp) = Some (report_text (rp_body rp)) \<and>
    (\<forall>fs' \<in> crash_states fs ops.
       fs' (rp_path rp) = fs (rp_path rp) \<or> fs' (rp_path rp) = Some (report_text (rp_body rp)))"
proof -
  have ops: "ops = [Write (rp_path rp @ ''.tmp'') (report_text (rp_body rp)), Rename (rp_path rp @ ''.tmp'') (rp_path rp)]"
    using assms by (simp add: report_flush_def Let_def split: if_splits)
  show ?thesis by (auto simp: ops run_ops_def)
qed

theorem report_flush_crash_safe_witness:
  "\<exists>ops. report_flush (new_report ''/results/r.json'' [(''state'', JStr ''running'')] 0) = Inr ops \<and>
     (\<forall>fs' \<in> crash_states Map.empty ops. fs' ''/results/r.json'' = None \<or>
        fs' ''/results/r.json'' = Some (report_text [(''state'', JStr ''running'')]))"
proof -
  let ?rp = "new_report ''/results/r.json'' [(''state'', JStr ''running'')] 0"
  have "\<exists>ops. report_flush ?rp = Inr ops" by (simp add: report_flush_def new_report_def Let_def)
  then obtain ops where ops: "report_flush ?rp = Inr ops" by blast
  from report_flush_crash_safe [OF ops, of Map.empty] ops show ?thesis by (simp add: new_report_def)
qed

section \<open>The chain of phases\<close>

text \<open>Each phase starts when the one before it finished; the first when the run started.\<close>

fun phases_chain :: "json \<Rightarrow> json list \<Rightarrow> bool" where
  "phases_chain start [] = True"
| "phases_chain start (JObj d # ps) \<longleftrightarrow>
     map_of d ''started_at'' = Some start \<and> (\<exists>f. map_of d ''finished_at'' = Some f \<and> phases_chain f ps)"
| "phases_chain start (_ # ps) = False"

lemma map_of_dict_update: "map_of (dict_update d e) k = (case map_of (rev e) k of None \<Rightarrow> map_of d k | Some v \<Rightarrow> Some v)"
proof (induction e arbitrary: d)
  case Nil
  then show ?case by (simp add: dict_update_def)
next
  case (Cons kv e)
  then show ?case by (cases kv) (auto simp: dict_update_def map_of_dset map_add_def split: option.splits)
qed

lemma map_of_rev_None: "k \<notin> fst ` set e \<Longrightarrow> map_of (rev e) k = None"
  by (simp add: map_of_eq_None_iff rev_map)

lemma phases_chain_snoc:
  assumes "phases_chain start ps" "phase_started_at body ps = Inr s" "map_of body ''started_at'' = Some start"
    and "map_of d ''started_at'' = Some s" "map_of d ''finished_at'' = Some f"
  shows "phases_chain start (ps @ [JObj d])"
  using assms
proof (induction start ps arbitrary: body rule: phases_chain.induct)
  case (1 start)
  then show ?case by (simp add: phase_started_at_def dindex_def)
next
  case (2 start d' ps)
  then obtain f' where f': "map_of d' ''finished_at'' = Some f'" "phases_chain f' ps" by auto
  have "phase_started_at [(''started_at'', f')] ps = Inr s"
    using "2.prems"(2) f'(1) by (cases ps) (auto simp: phase_started_at_def dindex_def)
  with "2.IH" [OF f'(2), of "[(''started_at'', f')]"] "2.prems" f' show ?case by auto
qed simp_all

text \<open>
  C24: recording a phase extends the chain: if the phases so far start when the run started and
  each begins when its predecessor finished, this holds with the new phase appended, the earlier
  phases and every other entry of the body are unchanged, and the phase clock is advanced. The
  details must not override the two times.
\<close>

theorem report_phase_extends_chain:
  assumes "phase_list (rp_body rp) = Inr ps" "map_of (rp_body rp) ''started_at'' = Some start"
    and "phases_chain start ps" "''started_at'' \<notin> fst ` set details" "''finished_at'' \<notin> fst ` set details"
  shows "\<exists>entry. phase_list (rp_body (fst (report_phase rp now utc name state details))) = Inr (ps @ [entry]) \<and>
    phases_chain start (ps @ [entry]) \<and>
    rp_phase_at (fst (report_phase rp now utc name state details)) = now \<and>
    (k \<noteq> ''phases'' \<longrightarrow> map_of (rp_body (fst (report_phase rp now utc name state details))) k = map_of (rp_body rp) k)"
proof -
  let ?body1 = "if map_of (rp_body rp) ''phases'' = None then dset (rp_body rp) ''phases'' (JList []) else rp_body rp"
  have b1: "map_of ?body1 ''started_at'' = Some start" using assms(2) by (simp add: map_of_dset)
  have ex: "\<exists>s. phase_started_at ?body1 ps = Inr s"
  proof (cases ps rule: rev_cases)
    case Nil
    with b1 show ?thesis by (simp add: phase_started_at_def dindex_def)
  next
    case (snoc qs q)
    have "\<exists>d f. q = JObj d \<and> map_of d ''finished_at'' = Some f"
      using assms(3) unfolding snoc by (induction start qs rule: phases_chain.induct) (cases q; auto)+
    then show ?thesis by (auto simp: snoc phase_started_at_def dindex_def)
  qed
  then obtain s where s: "phase_started_at ?body1 ps = Inr s" by blast
  let ?entry = "phase_entry rp s now utc name state details"
  have chain: "phases_chain start (ps @ [?entry])"
    unfolding phase_entry_def
    by (rule phases_chain_snoc [OF assms(3) s b1]) (simp_all add: map_of_dict_update map_of_rev_None assms(4,5))
  show ?thesis
    using s assms(1) chain
    by (intro exI [of _ ?entry]) (simp add: report_phase_def Let_def phase_list_def map_of_dset)
qed

theorem report_phase_extends_chain_witness:
  "\<exists>entry. phase_list (rp_body (fst (report_phase (new_report ''r.json'' [(''started_at'', JStr ''t0'')] 5) 7 ''t1'' ''preflight'' ''passed'' []))) =
       Inr ([] @ [entry]) \<and> phases_chain (JStr ''t0'') ([] @ [entry])"
proof -
  let ?rp = "new_report ''r.json'' [(''started_at'', JStr ''t0'')] 5"
  have "phase_list (rp_body ?rp) = Inr []" "map_of (rp_body ?rp) ''started_at'' = Some (JStr ''t0'')"
    by (simp_all add: new_report_def phase_list_def)
  from report_phase_extends_chain [OF this, of "[]" 7 "''t1''" "''preflight''" "''passed''" "''state''"]
  show ?thesis by auto
qed

end
