(* ===== verification/Py_IO.thy ===== *)
theory Py_IO
  imports Run_Report
begin

text \<open>
  Programs that talk to the outside: a program takes the state of the world and gives a result
  or an exception and the state afterwards. The world itself, the HTTP server, the PostgreSQL
  server and the clocks are parameters: a record of the calls the driver makes, over any type
  of world. Awaiting a call runs it; the interleaving of concurrent workers is modelled where
  the driver starts workers, as step relations.
\<close>

section \<open>Programs\<close>

type_synonym ('w, 'a) io = "'w \<Rightarrow> 'a result \<times> 'w"

definition io_return :: "'a \<Rightarrow> ('w, 'a) io" where
  "io_return x = (\<lambda>w. (Inr x, w))"

definition io_raise :: "pyerror \<Rightarrow> ('w, 'a) io" where
  "io_raise e = (\<lambda>w. (Inl e, w))"

definition io_lift :: "'a result \<Rightarrow> ('w, 'a) io" where
  "io_lift r = (\<lambda>w. (r, w))"

definition io_bind :: "('w, 'a) io \<Rightarrow> ('a \<Rightarrow> ('w, 'b) io) \<Rightarrow> ('w, 'b) io" where
  "io_bind m f = (\<lambda>w. case m w of (Inl e, w') \<Rightarrow> (Inl e, w') | (Inr x, w') \<Rightarrow> f x w')"

definition io_then :: "('w, 'a) io \<Rightarrow> ('w, 'b) io \<Rightarrow> ('w, 'b) io" where
  "io_then m n = io_bind m (\<lambda>_. n)"

text \<open>\<^verbatim>\<open>try: m except BaseException as e: h(e)\<close> and \<^verbatim>\<open>try: m finally: f\<close>, where \<open>f\<close> may raise.\<close>

definition io_catch :: "('w, 'a) io \<Rightarrow> (pyerror \<Rightarrow> ('w, 'a) io) \<Rightarrow> ('w, 'a) io" where
  "io_catch m h = (\<lambda>w. case m w of (Inl e, w') \<Rightarrow> h e w' | (Inr x, w') \<Rightarrow> (Inr x, w'))"

definition io_finally :: "('w, 'a) io \<Rightarrow> ('w, 'b) io \<Rightarrow> ('w, 'a) io" where
  "io_finally m f = (\<lambda>w. case m w of (r, w') \<Rightarrow> (case f w' of (Inl e, w'') \<Rightarrow> (Inl e, w'') | (Inr _, w'') \<Rightarrow> (r, w'')))"

primrec io_map :: "('a \<Rightarrow> ('w, 'b) io) \<Rightarrow> 'a list \<Rightarrow> ('w, 'b list) io" where
  "io_map f [] = io_return []"
| "io_map f (x # xs) = io_bind (f x) (\<lambda>y. io_bind (io_map f xs) (\<lambda>ys. io_return (y # ys)))"

primrec io_iter :: "('a \<Rightarrow> ('w, unit) io) \<Rightarrow> 'a list \<Rightarrow> ('w, unit) io" where
  "io_iter f [] = io_return ()"
| "io_iter f (x # xs) = io_then (f x) (io_iter f xs)"

text \<open>
  A program with a local mutable object of its own: the world is paired with the object, \<open>io_on\<close>
  runs a program that does not touch the object and \<open>io_modify\<close> updates it. The object keeps
  its last value when the program raises.
\<close>

definition io_on :: "('w, 'a) io \<Rightarrow> ('w \<times> 's, 'a) io" where
  "io_on m = (\<lambda>(w, s). case m w of (r, w') \<Rightarrow> (r, (w', s)))"

definition io_modify :: "('s \<Rightarrow> 's) \<Rightarrow> ('w \<times> 's, unit) io" where
  "io_modify f = (\<lambda>(w, s). (Inr (), (w, f s)))"

definition io_get :: "('w \<times> 's, 's) io" where
  "io_get = (\<lambda>(w, s). (Inr s, (w, s)))"

definition io_local :: "'s \<Rightarrow> ('w \<times> 's, 'a) io \<Rightarrow> ('w, 'a) io" where
  "io_local s m = (\<lambda>w. case m (w, s) of (r, (w', _)) \<Rightarrow> (r, w'))"

section \<open>Laws of programs\<close>

named_theorems io_simps

lemma io_run [simp]:
  "io_return x w = (Inr x, w)"
  "io_raise e w = (Inl e, w)"
  "io_lift r w = (r, w)"
  by (simp_all add: io_return_def io_raise_def io_lift_def)

lemma io_on_run [simp]: "io_on m (w, s) = (case m w of (r, w') \<Rightarrow> (r, (w', s)))"
  by (simp add: io_on_def)

lemma io_state_run [simp]: "io_modify f (w, s) = (Inr (), (w, f s))" "io_get (w, s) = (Inr s, (w, s))"
  by (simp_all add: io_modify_def io_get_def)

lemma io_bind_assoc: "io_bind (io_bind m f) g = io_bind m (\<lambda>x. io_bind (f x) g)"
  by (rule ext) (auto simp: io_bind_def split: prod.splits sum.splits)

lemma io_bind_Inr_iff [io_simps]:
  "io_bind m f w = (Inr y, w'') \<longleftrightarrow> (\<exists>x w'. m w = (Inr x, w') \<and> f x w' = (Inr y, w''))"
  by (cases "m w") (auto simp: io_bind_def split: sum.splits)

lemma io_then_Inr_iff [io_simps]:
  "io_then m n w = (Inr y, w'') \<longleftrightarrow> (\<exists>x w'. m w = (Inr x, w') \<and> n w' = (Inr y, w''))"
  by (simp add: io_then_def io_bind_Inr_iff)

lemma io_bindE:
  assumes "io_bind m f w = (Inr y, w'')"
  obtains x w' where "m w = (Inr x, w')" "f x w' = (Inr y, w'')"
  using assms by (auto simp: io_bind_Inr_iff)

lemma io_returnE:
  assumes "io_return x w = (Inr y, w')"
  obtains "y = x" "w' = w"
  using assms by simp

lemma io_liftE:
  assumes "io_lift r w = (Inr y, w')"
  obtains "r = Inr y" "w' = w"
  using assms by simp

lemma io_if_raiseE:
  assumes "(if c then io_raise e else m) w = (Inr y, w')"
  obtains "\<not> c" "m w = (Inr y, w')"
  using assms by (cases c) auto

lemma io_bind_run: "m w = (Inr x, w') \<Longrightarrow> io_bind m f w = f x w'"
  by (simp add: io_bind_def)

lemma io_bind_fail: "m w = (Inl e, w') \<Longrightarrow> io_bind m f w = (Inl e, w')"
  by (simp add: io_bind_def)

lemma io_bind_lift [simp]: "io_bind (io_lift (Inr x)) f = f x" "io_bind (io_lift (Inl e)) f = io_raise e"
  by (rule ext, simp add: io_bind_def)+

lemma io_bind_return [simp]: "io_bind (io_return x) f = f x"
  by (rule ext) (simp add: io_bind_def)

lemma io_bind_raise [simp]: "io_bind (io_raise e) f = io_raise e"
  by (rule ext) (simp add: io_bind_def)

text \<open>
  A predicate on worlds that every step of a program keeps is kept by the program, whether it
  returns or raises.
\<close>

definition keeps :: "('w \<Rightarrow> bool) \<Rightarrow> ('w, 'a) io \<Rightarrow> bool" where
  "keeps P m \<longleftrightarrow> (\<forall>w. P w \<longrightarrow> P (snd (m w)))"

lemma keeps_simps [intro]:
  "keeps P (io_return x)" "keeps P (io_raise e)" "keeps P (io_lift r)"
  by (simp_all add: keeps_def)

lemma keeps_if: "keeps P a \<Longrightarrow> keeps P b \<Longrightarrow> keeps P (if c then a else b)"
  by simp

lemma keeps_bind [intro]: "keeps P m \<Longrightarrow> (\<And>x. keeps P (f x)) \<Longrightarrow> keeps P (io_bind m f)"
  unfolding keeps_def io_bind_def by (auto split: prod.splits sum.splits)

lemma keeps_then [intro]: "keeps P m \<Longrightarrow> keeps P n \<Longrightarrow> keeps P (io_then m n)"
  by (simp add: io_then_def keeps_bind)

lemma keeps_finally [intro]: "keeps P m \<Longrightarrow> keeps P f \<Longrightarrow> keeps P (io_finally m f)"
  unfolding keeps_def io_finally_def by (auto split: prod.splits sum.splits)

lemma keeps_catch [intro]: "keeps P m \<Longrightarrow> (\<And>e. keeps P (h e)) \<Longrightarrow> keeps P (io_catch m h)"
  unfolding keeps_def io_catch_def by (auto split: prod.splits sum.splits)

lemma keeps_iter [intro]: "(\<And>x. x \<in> set xs \<Longrightarrow> keeps P (f x)) \<Longrightarrow> keeps P (io_iter f xs)"
  by (induction xs) (auto intro!: keeps_then keeps_simps)

lemma keeps_map [intro]: "(\<And>x. x \<in> set xs \<Longrightarrow> keeps P (f x)) \<Longrightarrow> keeps P (io_map f xs)"
  by (induction xs) (auto intro!: keeps_bind keeps_simps)

section \<open>The services\<close>

text \<open>
  A composed statement of \<^verbatim>\<open>psycopg.sql\<close>: fixed text, quoted identifiers and literals. The
  rows of an answer are dictionaries; a statement without a result set answers \<open>None\<close>.
\<close>

datatype sql_part = Sql string | Ident "string list" | Lit json

type_synonym statement = "sql_part list"
type_synonym pg_answer = "dict list option"

text \<open>
  \<open>sv_http\<close> takes the method, the URL, the body and the total timeout, and gives the status and
  the chunks of the response. \<open>sv_pg\<close> takes the connection, the statement, its parameters and
  the timeout; \<open>sv_copy\<close> runs a COPY statement with rows for its input. \<open>sv_connect\<close> opens a connection, \<open>sv_close\<close> closes one.
\<close>

record 'w services =
  sv_now :: "('w, rat) io"
  sv_utc :: "('w, string) io"
  sv_http :: "string \<Rightarrow> string \<Rightarrow> string option \<Rightarrow> rat \<Rightarrow> ('w, int \<times> nat list list) io"
  sv_connect :: "credentials \<Rightarrow> rat \<Rightarrow> ('w, nat) io"
  sv_close :: "nat \<Rightarrow> ('w, unit) io"
  sv_pg :: "nat \<Rightarrow> statement \<Rightarrow> json list \<Rightarrow> rat \<Rightarrow> ('w, pg_answer) io"
  sv_copy :: "nat \<Rightarrow> statement \<Rightarrow> pg_row list \<Rightarrow> rat \<Rightarrow> ('w, unit) io"

text \<open>\<^verbatim>\<open>deadline.timeout(per_call)\<close> with a reading of the clock.\<close>

definition io_timeout :: "'w services \<Rightarrow> Deadline \<Rightarrow> rat \<Rightarrow> ('w, rat) io" where
  "io_timeout sv d per_call = io_bind (sv_now sv) (\<lambda>now. io_lift (dl_timeout d now per_call))"

end
