(* ===== verification/Py_Repr.thy ===== *)
theory Py_Repr
  imports Json
begin

text \<open>
  \<^verbatim>\<open>repr()\<close> and \<^verbatim>\<open>str()\<close> of the values that occur in the driver's error messages,
  the class and the text of an exception, and the comparison \<^verbatim>\<open>==\<close> of values.
\<close>

text \<open>Single quotes unless the text has a single quote and no double quote.\<close>

definition repr_quote :: "string \<Rightarrow> char" where
  "repr_quote s = (if CHR 0x27 \<in> set s \<and> CHR 0x22 \<notin> set s then CHR 0x22 else CHR 0x27)"

definition repr_char :: "char \<Rightarrow> char \<Rightarrow> string" where
  "repr_char q c =
     (let k = (of_char c :: nat) in
      if c = q \<or> c = CHR 0x5C then [CHR 0x5C, c]
      else if k = 10 then [CHR 0x5C, CHR ''n'']
      else if k = 13 then [CHR 0x5C, CHR ''r'']
      else if k = 9 then [CHR 0x5C, CHR ''t'']
      else if k < 32 \<or> (127 \<le> k \<and> k \<le> 160) \<or> k = 173 then [CHR 0x5C, CHR ''x'', hex_digit (k div 16), hex_digit (k mod 16)]
      else [c])"

definition repr_str :: "string \<Rightarrow> string" where
  "repr_str s = [repr_quote s] @ concat (map (repr_char (repr_quote s)) s) @ [repr_quote s]"

definition repr_float :: "pyfloat \<Rightarrow> string" where
  "repr_float f = (case f of Fin x \<Rightarrow> float_repr x | PInf \<Rightarrow> ''inf'' | MInf \<Rightarrow> ''-inf'' | NaN \<Rightarrow> ''nan'')"

fun py_repr :: "json \<Rightarrow> string" where
  "py_repr JNull = ''None''"
| "py_repr (JBool b) = (if b then ''True'' else ''False'')"
| "py_repr (JInt i) = dec_int i"
| "py_repr (JFloat f) = repr_float f"
| "py_repr (JStr s) = repr_str s"
| "py_repr (JList xs) = ''['' @ join_str '', '' (map py_repr xs) @ '']''"
| "py_repr (JObj d) = ''{'' @ join_str '', '' (map (\<lambda>kv. repr_str (fst kv) @ '': '' @ py_repr (snd kv)) d) @ ''}''"

definition py_str :: "json \<Rightarrow> string" where
  "py_str v = (case v of JStr s \<Rightarrow> s | _ \<Rightarrow> py_repr v)"

section \<open>Exceptions\<close>

text \<open>\<^verbatim>\<open>type(error).__name__\<close> and \<^verbatim>\<open>str(error)\<close>; a \<^verbatim>\<open>KeyError\<close> prints the repr of its key.\<close>

primrec error_class :: "pyerror \<Rightarrow> string" where
  "error_class (ValueError s) = ''ValueError''"
| "error_class (RuntimeError s) = ''RuntimeError''"
| "error_class (TimeoutError s) = ''TimeoutError''"
| "error_class (ArgumentTypeError s) = ''ArgumentTypeError''"
| "error_class (TypeError s) = ''TypeError''"
| "error_class (KeyError s) = ''KeyError''"
| "error_class (AttributeError s) = ''AttributeError''"
| "error_class (IndexError s) = ''IndexError''"
| "error_class (AssertionError s) = ''AssertionError''"
| "error_class (OSError s) = ''OSError''"
| "error_class Cancelled = ''CancelledError''"
| "error_class (SystemExit i) = ''SystemExit''"
| "error_class (HttpStatus i s) = ''VarveHttpError''"
| "error_class (ZeroDivisionError s) = ''ZeroDivisionError''"
| "error_class (OverflowError s) = ''OverflowError''"
| "error_class (ExternalError c s) = c"

primrec error_text :: "pyerror \<Rightarrow> string" where
  "error_text (ValueError s) = s"
| "error_text (RuntimeError s) = s"
| "error_text (TimeoutError s) = s"
| "error_text (ArgumentTypeError s) = s"
| "error_text (TypeError s) = s"
| "error_text (KeyError s) = repr_str s"
| "error_text (AttributeError s) = s"
| "error_text (IndexError s) = s"
| "error_text (AssertionError s) = s"
| "error_text (OSError s) = s"
| "error_text Cancelled = []"
| "error_text (SystemExit i) = dec_int i"
| "error_text (HttpStatus i s) = s"
| "error_text (ZeroDivisionError s) = s"
| "error_text (OverflowError s) = s"
| "error_text (ExternalError c s) = s"

text \<open>What \<^verbatim>\<open>except Exception\<close> and \<^verbatim>\<open>except RuntimeError\<close> catch.\<close>

definition is_exception :: "pyerror \<Rightarrow> bool" where
  "is_exception e = (case e of Cancelled \<Rightarrow> False | SystemExit _ \<Rightarrow> False | _ \<Rightarrow> True)"

definition is_runtime_error :: "pyerror \<Rightarrow> bool" where
  "is_runtime_error e = (case e of RuntimeError _ \<Rightarrow> True | HttpStatus _ _ \<Rightarrow> True | _ \<Rightarrow> False)"

section \<open>Equality of values\<close>

text \<open>
  Numbers of all types are compared by value, NaN equals nothing, dictionaries are compared
  without regard to the order of their keys.
\<close>

definition number_of :: "json \<Rightarrow> pyfloat option" where
  "number_of v = (case v of
     JBool b \<Rightarrow> Some (Fin (if b then 1 else 0)) | JInt i \<Rightarrow> Some (Fin (of_int i)) | JFloat f \<Rightarrow> Some f | _ \<Rightarrow> None)"

function py_eq :: "json \<Rightarrow> json \<Rightarrow> bool" where
  "py_eq v v' =
     (case v of
        JNull \<Rightarrow> v' = JNull
      | JStr s \<Rightarrow> v' = JStr s
      | JList xs \<Rightarrow> (case v' of JList ys \<Rightarrow> length xs = length ys \<and> list_all (\<lambda>(x, y). py_eq x y) (zip xs ys) | _ \<Rightarrow> False)
      | JObj d \<Rightarrow> (case v' of
          JObj d' \<Rightarrow> length d = length d' \<and>
            list_all (\<lambda>kv. case map_of d' (fst kv) of None \<Rightarrow> False | Some y \<Rightarrow> py_eq (snd kv) y) d
        | _ \<Rightarrow> False)
      | _ \<Rightarrow> (case number_of v of
          Some f \<Rightarrow> f \<noteq> NaN \<and> number_of v' = Some f
        | None \<Rightarrow> False))"
  by pat_completeness auto
termination
proof (relation "measure (\<lambda>(v, _). size v)")
  show "wf (measure (\<lambda>(v :: json, _ :: json). size v))" by simp
next
  fix v v' xs ys z x y
  assume "v = JList xs" "z \<in> set (zip xs ys)" "(x, y) = z"
  then have "x \<in> set xs" by (auto dest: set_zip_leftD)
  then have "size x < Suc (size_list size xs)" by (induction xs) auto
  with \<open>v = JList xs\<close> show "((x, y), (v, v')) \<in> measure (\<lambda>(v, _). size v)" by simp
next
  fix v v' d d' kv y
  assume v: "v = JObj d" and "kv \<in> set d"
  from \<open>kv \<in> set d\<close> have "size (snd kv) < Suc (size_list (\<lambda>x. Suc (size (snd x))) d)"
    by (induction d) auto
  with v show "((snd kv, y), (v, v')) \<in> measure (\<lambda>(v, _). size v)" by (simp add: size_prod_simp)
qed

declare py_eq.simps [simp del]

lemma py_eq_simps [simp]:
  "py_eq JNull v \<longleftrightarrow> v = JNull"
  "py_eq (JStr s) v \<longleftrightarrow> v = JStr s"
  "py_eq (JInt i) (JInt j) \<longleftrightarrow> i = j"
  "py_eq (JFloat f) (JFloat g) \<longleftrightarrow> f \<noteq> NaN \<and> f = g"
  "py_eq (JList xs) (JList ys) \<longleftrightarrow> list_all2 py_eq xs ys"
  by (auto simp: py_eq.simps number_of_def list_all2_iff list_all_iff case_prod_unfold)

lemma py_eq_obj:
  "py_eq (JObj d) (JObj d') \<longleftrightarrow> length d = length d' \<and> (\<forall>(k, x) \<in> set d. \<exists>y. map_of d' k = Some y \<and> py_eq x y)"
  by (subst py_eq.simps) (auto simp: list_all_iff split: option.splits)

end
