(* ===== verification/Clients.thy ===== *)
theory Clients
  imports Py_IO Py_Repr
begin

text \<open>
  The two clients of the driver: \<^verbatim>\<open>VarveClient\<close> over HTTP and \<^verbatim>\<open>TimescaleClient\<close> over
  PostgreSQL connections. Every call is bounded by the run's deadline, a response is bounded in
  size, and only a successful status with a JSON body is a value.
\<close>

section \<open>Response bodies\<close>

text \<open>The loop over the chunks of a response.\<close>

fun read_chunks :: "nat list \<Rightarrow> nat list list \<Rightarrow> nat list result" where
  "read_chunks raw [] = Inr raw"
| "read_chunks raw (chunk # pieces) =
     (let raw' = raw @ chunk in
      if MAX_RESPONSE_BYTES < length raw' then Inl (RuntimeError ''Varve response exceeded benchmark limit'')
      else read_chunks raw' pieces)"

text \<open>
  Strict UTF-8 for the characters a string can hold: \<open>None\<close> on a malformed sequence. A
  well-formed character above the range of the model's strings is malformed here as well.
\<close>

fun utf8_decode :: "nat list \<Rightarrow> string option" where
  "utf8_decode [] = Some []"
| "utf8_decode [a] = (if a < 128 then Some [char_of a] else None)"
| "utf8_decode (a # b # bs) =
     (if a < 128 then map_option ((#) (char_of a)) (utf8_decode (b # bs))
      else if (a = 194 \<or> a = 195) \<and> 128 \<le> b \<and> b < 192
      then map_option ((#) (char_of ((a - 192) * 64 + (b - 128)))) (utf8_decode bs)
      else None)"

definition is_success :: "int \<Rightarrow> bool" where
  "is_success status \<longleftrightarrow> \<not> (status < 200 \<or> 300 \<le> status)"

definition decode_response :: "int \<Rightarrow> nat list list \<Rightarrow> json result" where
  "decode_response status pieces =
     ebind (read_chunks [] pieces) (\<lambda>raw.
     (case utf8_decode raw of
        None \<Rightarrow> Inl (RuntimeError (''Varve returned non-JSON status '' @ dec_int status))
      | Some body \<Rightarrow>
          (case loads body of
             Inl _ \<Rightarrow> Inl (RuntimeError (''Varve returned non-JSON status '' @ dec_int status))
           | Inr v \<Rightarrow>
               if is_success status then Inr v
               else Inl (varve_http_error status (py_str (jget v ''error''))))))"

text \<open>A body that is not UTF-8 is shown with replacement characters, here question marks.\<close>

definition decode_text :: "int \<Rightarrow> nat list list \<Rightarrow> string result" where
  "decode_text status pieces =
     ebind (read_chunks [] pieces) (\<lambda>raw.
     if is_success status then
       (case utf8_decode raw of Some body \<Rightarrow> Inr body | None \<Rightarrow> Inl (ValueError ''utf-8''))
     else Inl (varve_http_error status
            (case utf8_decode raw of Some body \<Rightarrow> body | None \<Rightarrow> replicate (length raw) (CHR ''?''))))"

section \<open>VarveClient\<close>

record VarveClient =
  vc_base :: string
  vc_deadline :: Deadline

definition rstrip_slash :: "string \<Rightarrow> string" where
  "rstrip_slash s = rev (dropWhile (\<lambda>c. c = CHR ''/'') (rev s))"

definition new_varve_client :: "string \<Rightarrow> Deadline \<Rightarrow> VarveClient" where
  "new_varve_client base deadline = \<lparr>vc_base = rstrip_slash base, vc_deadline = deadline\<rparr>"

definition varve_request :: "'w services \<Rightarrow> VarveClient \<Rightarrow> string \<Rightarrow> string \<Rightarrow> string option \<Rightarrow> ('w, json) io" where
  "varve_request sv vc method path body =
     io_bind (io_timeout sv (vc_deadline vc) CALL_TIMEOUT) (\<lambda>timeout.
     io_bind (sv_http sv method (vc_base vc @ path) body timeout) (\<lambda>(status, pieces).
     io_lift (decode_response status pieces)))"

definition varve_text :: "'w services \<Rightarrow> VarveClient \<Rightarrow> string \<Rightarrow> string \<Rightarrow> ('w, string) io" where
  "varve_text sv vc method path =
     io_bind (io_timeout sv (vc_deadline vc) CALL_TIMEOUT) (\<lambda>timeout.
     io_bind (sv_http sv method (vc_base vc @ path) None timeout) (\<lambda>(status, pieces).
     io_lift (decode_text status pieces)))"

definition varve_json :: "'w services \<Rightarrow> VarveClient \<Rightarrow> string \<Rightarrow> string \<Rightarrow> json \<Rightarrow> ('w, json) io" where
  "varve_json sv vc method path v =
     io_bind (io_lift (dumps False True v)) (\<lambda>body. varve_request sv vc method path (Some body))"

text \<open>
  The rows of an SQL answer. The elements of a list are not inspected by the client; a later
  access to an element that is not an object raises.
\<close>

definition sql_rows :: "json \<Rightarrow> json list result" where
  "sql_rows v = (case v of
     JList rows \<Rightarrow> Inr rows
   | JObj d \<Rightarrow> Inr [JObj d]
   | _ \<Rightarrow> Inl (RuntimeError ''Varve SQL response contract changed''))"

definition varve_sql :: "'w services \<Rightarrow> VarveClient \<Rightarrow> string \<Rightarrow> ('w, json list) io" where
  "varve_sql sv vc stmt =
     io_bind (varve_json sv vc ''POST'' ''/v1/query'' (JObj [(''sql'', JStr stmt)])) (\<lambda>v. io_lift (sql_rows v))"

section \<open>TimescaleClient\<close>

record TimescaleClient =
  pc_credentials :: credentials
  pc_deadline :: Deadline
  pc_control :: "nat option"
  pc_writers :: "nat list"

definition new_timescale_client :: "credentials \<Rightarrow> Deadline \<Rightarrow> TimescaleClient" where
  "new_timescale_client credentials deadline =
     \<lparr>pc_credentials = credentials, pc_deadline = deadline, pc_control = None, pc_writers = []\<rparr>"

definition pg_connect :: "'w services \<Rightarrow> TimescaleClient \<Rightarrow> ('w, nat) io" where
  "pg_connect sv pc =
     io_bind (io_timeout sv (pc_deadline pc) CONNECT_TIMEOUT) (\<lambda>timeout.
     io_bind (sv_connect sv (pc_credentials pc) timeout) (\<lambda>connection.
     io_then (sv_pg sv connection [Sql (''SET statement_timeout = '' @ sql_literal ''30s'')] [] CALL_TIMEOUT)
     (io_then (sv_pg sv connection [Sql (''SET lock_timeout = '' @ sql_literal ''10s'')] [] CALL_TIMEOUT)
     (io_return connection))))"

primrec open_writers :: "'w services \<Rightarrow> nat \<Rightarrow> TimescaleClient \<Rightarrow> ('w, TimescaleClient) io" where
  "open_writers sv 0 pc = io_return pc"
| "open_writers sv (Suc n) pc =
     io_bind (pg_connect sv pc) (\<lambda>c. open_writers sv n (pc\<lparr>pc_writers := pc_writers pc @ [c]\<rparr>))"

definition pg_open :: "'w services \<Rightarrow> nat \<Rightarrow> TimescaleClient \<Rightarrow> ('w, TimescaleClient) io" where
  "pg_open sv writers pc =
     io_bind (pg_connect sv pc) (\<lambda>c. open_writers sv writers (pc\<lparr>pc_control := Some c\<rparr>))"

definition pg_close :: "'w services \<Rightarrow> TimescaleClient \<Rightarrow> ('w, unit) io" where
  "pg_close sv pc =
     io_then (io_iter (sv_close sv) (pc_writers pc))
       (case pc_control pc of None \<Rightarrow> io_return () | Some c \<Rightarrow> sv_close sv c)"

definition pg_conn :: "TimescaleClient \<Rightarrow> nat result" where
  "pg_conn pc = (case pc_control pc of
     None \<Rightarrow> Inl (RuntimeError ''Timescale control connection is not open'') | Some c \<Rightarrow> Inr c)"

definition pg_query :: "'w services \<Rightarrow> TimescaleClient \<Rightarrow> statement \<Rightarrow> json list \<Rightarrow> ('w, json list) io" where
  "pg_query sv pc stmt params =
     io_bind (io_timeout sv (pc_deadline pc) CALL_TIMEOUT) (\<lambda>timeout.
     io_bind (io_lift (pg_conn pc)) (\<lambda>c.
     io_bind (sv_pg sv c stmt params timeout) (\<lambda>answer.
     io_return (case answer of None \<Rightarrow> [] | Some rows \<Rightarrow> map JObj rows))))"

definition pg_execute :: "'w services \<Rightarrow> TimescaleClient \<Rightarrow> statement \<Rightarrow> json list \<Rightarrow> ('w, unit) io" where
  "pg_execute sv pc stmt params = io_then (pg_query sv pc stmt params) (io_return ())"

section \<open>What a request returns\<close>

lemma read_chunks_Inr:
  "length raw \<le> MAX_RESPONSE_BYTES \<Longrightarrow>
   read_chunks raw pieces = Inr whole \<longleftrightarrow> whole = raw @ concat pieces \<and> length whole \<le> MAX_RESPONSE_BYTES"
  by (induction raw pieces rule: read_chunks.induct) (auto simp: Let_def)

lemma utf8_decode_utf8: "utf8_decode (utf8 s) = Some s"
proof (induction s)
  case Nil
  then show ?case by (simp add: utf8_def utf8_char_def Let_def)
next
  case (Cons c s)
  let ?k = "of_char c :: nat"
  show ?case
  proof (cases "?k < 128")
    case True
    then have "utf8 (c # s) = ?k # utf8 s" by (simp add: utf8_def utf8_char_def Let_def)
    with Cons True show ?thesis by (cases "utf8 s") auto
  next
    case False
    have k: "?k < 256" by simp
    with False have "utf8 (c # s) = (192 + ?k div 64) # (128 + ?k mod 64) # utf8 s" by (simp add: utf8_def utf8_char_def Let_def)
    moreover have "192 + ?k div 64 = 194 \<or> 192 + ?k div 64 = 195" using False k by linarith
    moreover have "(192 + ?k div 64 - 192) * 64 + (128 + ?k mod 64 - 128) = ?k" by simp
    ultimately show ?thesis using Cons by simp
  qed
qed

lemma decode_response_Inr:
  "decode_response status pieces = Inr v \<longleftrightarrow>
     length (concat pieces) \<le> 16777216 \<and> 200 \<le> status \<and> status < 300 \<and>
     (\<exists>body. utf8_decode (concat pieces) = Some body \<and> loads body = Inr v)"
proof -
  have "read_chunks [] pieces = Inr raw \<longleftrightarrow> raw = concat pieces \<and> length raw \<le> MAX_RESPONSE_BYTES" for raw
    by (simp add: read_chunks_Inr)
  then show ?thesis
    by (auto simp: decode_response_def result_simps is_success_def MAX_RESPONSE_BYTES_def
        split: option.splits sum.splits)
qed


lemma dl_timeout_bounds:
  "dl_timeout d now per_call = Inr t \<Longrightarrow> 0 < per_call \<Longrightarrow> 0 < t \<and> t \<le> per_call \<and> t \<le> fl (dl_ends d - now)"
  by (auto simp: dl_timeout_def dl_remaining_def Let_def split: if_splits)



section \<open>What the clients leave unchanged\<close>

lemma keeps_timeout: "keeps P (sv_now sv) \<Longrightarrow> keeps P (io_timeout sv d c)"
  unfolding io_timeout_def by (intro keeps_bind keeps_simps)

lemma keeps_request:
  assumes "keeps P (sv_now sv)" "\<And>url t. keeps P (sv_http sv method url body t)"
  shows "keeps P (varve_request sv vc method path body)"
  unfolding varve_request_def case_prod_unfold using assms by (intro keeps_bind keeps_simps keeps_timeout)

lemma keeps_text:
  assumes "keeps P (sv_now sv)" "\<And>url t. keeps P (sv_http sv method url None t)"
  shows "keeps P (varve_text sv vc method path)"
  unfolding varve_text_def case_prod_unfold using assms by (intro keeps_bind keeps_simps keeps_timeout)

lemma keeps_sql:
  assumes "keeps P (sv_now sv)" "\<And>url body t. keeps P (sv_http sv ''POST'' url body t)"
  shows "keeps P (varve_sql sv vc stmt)"
  unfolding varve_sql_def varve_json_def using assms by (intro keeps_bind keeps_simps keeps_request)

lemma keeps_query:
  assumes "keeps P (sv_now sv)" "\<And>c t. keeps P (sv_pg sv c stmt params t)"
  shows "keeps P (pg_query sv pc stmt params)"
  unfolding pg_query_def using assms by (intro keeps_bind keeps_simps keeps_timeout)

section \<open>Servers with fixed answers\<close>

text \<open>
  Concrete services for the witnesses: the clock stands still, every GET answers by its URL,
  every SQL statement by its text, and every PostgreSQL statement by itself.
\<close>

definition canned_services :: "(string \<Rightarrow> json) \<Rightarrow> (string \<Rightarrow> json list) \<Rightarrow> (statement \<Rightarrow> dict list) \<Rightarrow> 'w services" where
  "canned_services get_reply sql_reply pg_reply = \<lparr>sv_now = io_return 0, sv_utc = io_return [],
     sv_http = (\<lambda>method url body t. io_return (200, [utf8 (json_text False True
        (case body of None \<Rightarrow> get_reply url
         | Some b \<Rightarrow> (case loads b of Inr v \<Rightarrow> (case jget v ''sql'' of JStr s \<Rightarrow> JList (sql_reply s) | _ \<Rightarrow> JNull) | _ \<Rightarrow> JNull)))])),
     sv_connect = (\<lambda>_ _. io_return 7), sv_close = (\<lambda>_. io_return ()),
     sv_pg = (\<lambda>c stmt params t. io_return (Some (pg_reply stmt))),
     sv_copy = (\<lambda>_ _ _ _. io_return ())\<rparr>"

abbreviation example_names :: Names where
  "example_names \<equiv> \<lparr>varve_table = ''t'', varve_aggregate = ''a'', checkpoint_job = ''c'', compact_job = ''m'', pg_schema = ''s'',
     pg_table = ''measurements'', pg_receipts = ''batch_receipts'', pg_aggregate = ''minute_rollup''\<rparr>"

abbreviation long_deadline :: Deadline where
  "long_deadline \<equiv> \<lparr>dl_started = 0, dl_ends = 100\<rparr>"

abbreviation canned_varve :: VarveClient where
  "canned_varve \<equiv> \<lparr>vc_base = [], vc_deadline = long_deadline\<rparr>"

abbreviation canned_pg :: TimescaleClient where
  "canned_pg \<equiv> \<lparr>pc_credentials = [], pc_deadline = long_deadline, pc_control = Some 7, pc_writers = []\<rparr>"

lemma canned_now [simp]: "sv_now (canned_services g s p) = io_return 0"
  by (simp add: canned_services_def)

lemma canned_timeout: "io_timeout (canned_services g s p) long_deadline CALL_TIMEOUT w = (Inr 35, w)"
proof -
  have "fl 100 = 100" using b64.int_exact [of 100] by simp
  then show ?thesis by (simp add: io_timeout_def dl_timeout_def dl_remaining_def CALL_TIMEOUT_def)
qed

lemma decode_printed:
  assumes "json_plain v" "length (utf8 (json_text False True v)) \<le> 16777216"
  shows "decode_response 200 [utf8 (json_text False True v)] = Inr v"
  using assms loads_dumps [OF assms(1), of True] by (simp add: decode_response_Inr utf8_decode_utf8)

lemma canned_get:
  assumes "json_plain (g path)" "length (utf8 (json_text False True (g path))) \<le> 16777216"
  shows "varve_request (canned_services g s p) canned_varve method path None w = (Inr (g path), w)"
  using decode_printed [OF assms] canned_timeout [of g s p w]
  by (simp add: varve_request_def io_bind_def canned_services_def)

lemma canned_sql:
  assumes "json_plain (JList (s stmt))" "length (utf8 (json_text False True (JList (s stmt)))) \<le> 16777216"
  shows "varve_sql (canned_services g s p) canned_varve stmt w = (Inr (s stmt), w)"
proof -
  have enc: "dumps False True (JObj [(''sql'', JStr stmt)]) = Inr (json_text False True (JObj [(''sql'', JStr stmt)]))"
    and dec: "loads (json_text False True (JObj [(''sql'', JStr stmt)])) = Inr (JObj [(''sql'', JStr stmt)])"
    using loads_dumps [of "JObj [(''sql'', JStr stmt)]" True] by simp_all
  show ?thesis
    unfolding varve_sql_def varve_json_def enc io_bind_lift varve_request_def
    using decode_printed [OF assms] canned_timeout [of g s p w] dec
    by (simp add: io_bind_def canned_services_def jget_def dget_def sql_rows_def del: json_text.simps)
qed

lemma canned_query: "pg_query (canned_services g s p) canned_pg stmt params w = (Inr (map JObj (p stmt)), w)"
  using canned_timeout [of g s p w] by (simp add: pg_query_def io_bind_def pg_conn_def canned_services_def)

end
