(* ===== verification/Setup.thy ===== *)
theory Setup
  imports Clients Dataset
begin

text \<open>
  The steps before the data flows: the checks that the names of the run are free and the
  servers durable (\<^verbatim>\<open>preflight\<close>), the creation of the run's objects in both servers, the
  refresh and statistics barriers, and the preparation of the oracle and of the rows.
\<close>

section \<open>Access to the rows of an answer\<close>

definition first_row :: "json list \<Rightarrow> json result" where
  "first_row rows = (case rows of [] \<Rightarrow> Inl (IndexError ''list index out of range'') | row # _ \<Rightarrow> Inr row)"

definition field :: "json \<Rightarrow> string \<Rightarrow> json result" where
  "field row k = (case row of JObj d \<Rightarrow> dindex d k | _ \<Rightarrow> Inl (TypeError ''not subscriptable''))"

definition first_field :: "json list \<Rightarrow> string \<Rightarrow> json result" where
  "first_field rows k = ebind (first_row rows) (\<lambda>row. field row k)"

text \<open>The truth value of a Python object.\<close>

definition truthy :: "json \<Rightarrow> bool" where
  "truthy v = (case v of
     JNull \<Rightarrow> False | JBool b \<Rightarrow> b | JInt i \<Rightarrow> i \<noteq> 0 | JFloat f \<Rightarrow> f \<noteq> Fin 0
   | JStr s \<Rightarrow> s \<noteq> [] | JList xs \<Rightarrow> xs \<noteq> [] | JObj d \<Rightarrow> d \<noteq> [])"

text \<open>\<^verbatim>\<open>any(row.get("name") == name for row in rows)\<close>: stops at the first match.\<close>

fun any_named :: "json list \<Rightarrow> string \<Rightarrow> bool result" where
  "any_named [] name = Inr False"
| "any_named (row # rows) name =
     (case row of
        JObj d \<Rightarrow> if dget d ''name'' = JStr name then Inr True else any_named rows name
      | _ \<Rightarrow> Inl (AttributeError ''get''))"

definition listed :: "json \<Rightarrow> string \<Rightarrow> bool result" where
  "listed v name = (case v of
     JList rows \<Rightarrow> any_named rows name
   | JObj d \<Rightarrow> if d = [] then Inr False else Inl (AttributeError ''get'')
   | JStr s \<Rightarrow> if s = [] then Inr False else Inl (AttributeError ''get'')
   | _ \<Rightarrow> Inl (TypeError ''not iterable''))"

definition qualified_name :: "string \<Rightarrow> string \<Rightarrow> sql_part" where
  "qualified_name schema relation = Ident [schema, relation]"

section \<open>Summaries of measured times\<close>

definition opt_float :: "rat option \<Rightarrow> json" where
  "opt_float x = (case x of None \<Rightarrow> JNull | Some v \<Rightarrow> JFloat (Fin v))"

definition summary_json :: "latency_report \<Rightarrow> json" where
  "summary_json r = JObj [(''samples'', JInt (int (samples r))), (''p50_ms'', opt_float (p50_ms r)),
     (''p95_ms'', opt_float (p95_ms r)), (''p99_ms'', opt_float (p99_ms r)), (''max_ms'', opt_float (max_ms r))]"

definition raw_and_summary :: "rat list \<Rightarrow> json result" where
  "raw_and_summary xs =
     ebind (latency_summary xs) (\<lambda>r. Inr (JObj [(''raw'', JList (map (\<lambda>x. JFloat (Fin x)) xs)), (''summary'', summary_json r)]))"

definition float_div :: "rat \<Rightarrow> rat \<Rightarrow> rat result" where
  "float_div a b = (if b = 0 then Inl (ZeroDivisionError ''float division by zero'') else Inr (fl (a / b)))"

section \<open>Preflight\<close>

text \<open>The calls that \<^verbatim>\<open>asyncio.gather\<close> starts together are made in the order they are listed.\<close>

definition gather_lists :: "'w services \<Rightarrow> VarveClient \<Rightarrow> json option \<Rightarrow> ('w, json \<times> json \<times> json) io" where
  "gather_lists sv vc status =
     io_bind (varve_request sv vc ''GET'' ''/v1/tables'' None) (\<lambda>tables.
     io_bind (varve_request sv vc ''GET'' ''/v1/aggregates'' None) (\<lambda>aggregates.
     (case status of
        None \<Rightarrow> io_bind (varve_request sv vc ''GET'' ''/v1/status'' None) (\<lambda>s. io_return (tables, aggregates, s))
      | Some s \<Rightarrow> io_return (tables, aggregates, s))))"

definition show_setting :: "'w services \<Rightarrow> TimescaleClient \<Rightarrow> string \<Rightarrow> ('w, string \<times> json) io" where
  "show_setting sv pc setting =
     io_bind (pg_query sv pc [Sql ''SHOW '', Ident [setting], Sql '' ''] []) (\<lambda>rows.
     io_bind (io_lift (first_row rows)) (\<lambda>row.
     (case row of
        JObj ((_, v) # _) \<Rightarrow> io_return (setting, JStr (py_str v))
      | _ \<Rightarrow> io_raise (RuntimeError ''coroutine raised StopIteration''))))"

definition durable_settings :: dict where
  "durable_settings = map (\<lambda>s. (s, JStr ''on'')) [''fsync'', ''synchronous_commit'', ''full_page_writes'']"

definition quoted :: "string \<Rightarrow> string" where
  "quoted s = sq @ s @ sq"

definition preflight :: "'w services \<Rightarrow> VarveClient \<Rightarrow> TimescaleClient \<Rightarrow> Names \<Rightarrow> json option \<Rightarrow> ('w, dict) io" where
  "preflight sv vc pc names given =
     io_bind (gather_lists sv vc given) (\<lambda>(tables, aggregates, status).
     io_bind (io_lift (listed tables (varve_table names))) (\<lambda>table_exists.
     io_bind (io_lift (listed aggregates (varve_aggregate names))) (\<lambda>aggregate_exists.
     if table_exists \<or> aggregate_exists then
       io_raise (RuntimeError ''owned Varve table or aggregate already exists; choose a new run-id'')
     else
     io_bind (pg_query sv pc [Sql ''SELECT EXISTS (SELECT 1 FROM pg_namespace WHERE nspname = %s) AS present'']
        [JStr (pg_schema names)]) (\<lambda>schema_exists.
     io_bind (io_lift (first_field schema_exists ''present'')) (\<lambda>present.
     if truthy present then
       io_raise (RuntimeError ''owned PostgreSQL schema already exists; choose a new run-id'')
     else
     io_bind (pg_query sv pc [Sql (''SELECT extversion FROM pg_extension WHERE extname = '' @ quoted ''timescaledb'')] []) (\<lambda>extension.
     if length extension \<noteq> 1 then
       io_raise (RuntimeError ''TimescaleDB extension is not already installed; refusing CREATE EXTENSION'')
     else
     io_bind (io_map (show_setting sv pc) [''fsync'', ''synchronous_commit'', ''full_page_writes'']) (\<lambda>settings.
     if settings \<noteq> durable_settings then
       io_raise (RuntimeError (''durability settings are not fully enabled: '' @ py_repr (JObj settings)))
     else
     io_bind (pg_query sv pc [Sql (''SELECT current_setting('' @ quoted ''server_version'' @ '') AS postgres_version'')] []) (\<lambda>versions.
     io_bind (pg_query sv pc [Sql (''SELECT current_database() AS database_name, oid::bigint AS database_oid ''
          @ ''FROM pg_database WHERE datname = current_database()'')] []) (\<lambda>identity.
     io_bind (io_lift (first_field extension ''extversion'')) (\<lambda>extversion.
     io_bind (io_lift (first_field versions ''postgres_version'')) (\<lambda>version.
     io_bind (io_lift (first_row identity)) (\<lambda>ident.
     io_return [
       (''timescaledb_version'', extversion),
       (''postgresql_version'', version),
       (''durability'', JObj settings),
       (''extension_preinstalled'', JBool True),
       (''timescale_database_identity'', ident),
       (''varve_status'', status),
       (''rebuilt'', JObj (rebuilt_status status))]))))))))))))"

section \<open>Creating the objects of the run\<close>

definition varve_table_config :: dict where
  "varve_table_config = [
     (''shards'', JInt 8), (''window_us'', JInt 3600000000), (''late_after_us'', JNull), (''retention_us'', JNull),
     (''archive_after_us'', JNull), (''rollup_widths_us'', JList [JInt BUCKET_US]), (''rollup_retention_us'', JNull),
     (''idempotency_window_us'', JNull)]"

text \<open>\<^verbatim>\<open>json.dumps({'paused': True})\<close> with the default separators.\<close>

definition paused_text :: string where
  "paused_text = ''{'' @ enc_str True ''paused'' @ '': true}''"

definition create_aggregate_sql :: "Names \<Rightarrow> string" where
  "create_aggregate_sql names =
     ''CALL varve_create_continuous_aggregate('' @ sql_literal (varve_aggregate names) @ '',''
       @ sql_literal (varve_table names) @ '','' @ dec_int BUCKET_US @ '')''"

definition create_job_sql :: "string \<Rightarrow> string \<Rightarrow> string" where
  "create_job_sql job kind = ''CALL varve_create_job('' @ sql_literal job @ '','' @ sql_literal kind @ '',86400000000)''"

definition pause_job_sql :: "string \<Rightarrow> string" where
  "pause_job_sql job = ''CALL varve_alter_job('' @ sql_literal job @ '','' @ sql_literal paused_text @ '')''"

definition setup_varve :: "'w services \<Rightarrow> VarveClient \<Rightarrow> Names \<Rightarrow> ('w, unit) io" where
  "setup_varve sv vc names =
     io_then (varve_json sv vc ''POST'' ''/v1/tables''
        (JObj [(''name'', JStr (varve_table names)), (''config'', JObj varve_table_config)]))
     (io_then (varve_sql sv vc (create_aggregate_sql names))
     (io_iter (\<lambda>(job, kind).
        io_then (varve_sql sv vc (create_job_sql job kind))
        (io_then (varve_sql sv vc (pause_job_sql job)) (io_return ())))
        [(checkpoint_job names, ''checkpoint''), (compact_job names, ''compact'')]))"

definition create_measurements :: "Names \<Rightarrow> statement" where
  "create_measurements names = [Sql ''CREATE TABLE '', qualified_name (pg_schema names) (pg_table names), Sql (
     '' (ts timestamptz NOT NULL, tenant text NOT NULL, ''
     @ ''series text NOT NULL, value double precision NOT NULL CHECK (value <> '' @ quoted ''NaN''
     @ ''::double precision AND value <> '' @ quoted ''Infinity'' @ ''::double precision AND value <> ''
     @ quoted ''-Infinity'' @ ''::double precision), ''
     @ ''tags jsonb NOT NULL)'')]"

definition create_receipts :: "Names \<Rightarrow> statement" where
  "create_receipts names = [Sql ''CREATE TABLE '', qualified_name (pg_schema names) (pg_receipts names), Sql (
     '' (batch_id text PRIMARY KEY, ''
     @ ''row_count integer NOT NULL CHECK (row_count > 0), ''
     @ ''payload_sha256 text NOT NULL CHECK (payload_sha256 ~ '' @ quoted ''^[0-9a-f]{64}$'' @ ''))'')]"

definition create_rollup :: "Names \<Rightarrow> statement" where
  "create_rollup names = [Sql ''CREATE MATERIALIZED VIEW '', qualified_name (pg_schema names) (pg_aggregate names), Sql (
     '' WITH (timescaledb.continuous) AS ''
     @ ''SELECT time_bucket(INTERVAL '' @ quoted ''1 minute'' @ '', ts) AS bucket, tenant, series, tags, ''
     @ ''count(*)::bigint AS count, sum(value)::double precision AS sum, ''
     @ ''min(value)::double precision AS min, max(value)::double precision AS max FROM ''),
     qualified_name (pg_schema names) (pg_table names),
     Sql '' GROUP BY bucket, tenant, series, tags WITH NO DATA'']"

definition index_name :: "Names \<Rightarrow> string" where
  "index_name names = pg_table names @ ''_tenant_series_ts_idx''"

definition setup_timescale :: "'w services \<Rightarrow> TimescaleClient \<Rightarrow> Names \<Rightarrow> ('w, string list) io" where
  "setup_timescale sv pc names =
     io_then (pg_execute sv pc [Sql ''CREATE SCHEMA '', Ident [pg_schema names]] [])
     (io_then (pg_execute sv pc (create_measurements names) [])
     (io_then (pg_execute sv pc (create_receipts names) [])
     (io_then (pg_query sv pc [Sql (''SELECT create_hypertable(%s::regclass, '' @ quoted ''ts''
          @ '', chunk_time_interval => INTERVAL '' @ quoted ''1 hour'' @ '', if_not_exists => FALSE)'')]
          [JStr (pg_schema names @ ''.'' @ pg_table names)])
     (io_bind (io_lift (checked_identifier (index_name names))) (\<lambda>index.
     io_then (pg_execute sv pc [Sql ''CREATE INDEX '', Ident [index], Sql '' ON '',
          qualified_name (pg_schema names) (pg_table names), Sql '' (tenant, series, ts DESC) INCLUDE (value)''] [])
     (io_then (pg_execute sv pc (create_rollup names) [])
     (io_return [
       ''CREATE TABLE logged measurements'',
       ''CREATE TABLE batch_receipts (stable ID, row count, canonical payload SHA-256)'',
       ''SELECT create_hypertable(..., chunk_time_interval => INTERVAL '' @ quoted ''1 hour'' @ '')'',
       ''CREATE INDEX '' @ index @ '' ON measurements (tenant, series, ts DESC) INCLUDE (value)'',
       ''CREATE MATERIALIZED VIEW minute_rollup WITH (timescaledb.continuous) ... WITH NO DATA'',
       ''explicit refresh_continuous_aggregate barriers; no background refresh policy''])))))))"

definition timed :: "'w services \<Rightarrow> ('w, unit) io \<Rightarrow> ('w, rat) io" where
  "timed sv m =
     io_bind (sv_now sv) (\<lambda>started. io_then m (io_bind (sv_now sv) (\<lambda>now. io_return (fl (now - started)))))"

definition refresh_timescale :: "'w services \<Rightarrow> TimescaleClient \<Rightarrow> Names \<Rightarrow> ('w, rat) io" where
  "refresh_timescale sv pc names =
     timed sv (pg_execute sv pc [Sql ''CALL refresh_continuous_aggregate('',
       Lit (JStr (pg_schema names @ ''.'' @ pg_aggregate names)), Sql '', NULL, NULL)''] [])"

definition analyze_timescale :: "'w services \<Rightarrow> TimescaleClient \<Rightarrow> Names \<Rightarrow> ('w, rat) io" where
  "analyze_timescale sv pc names =
     timed sv (pg_execute sv pc [Sql ''ANALYZE '', qualified_name (pg_schema names) (pg_table names)] [])"

section \<open>The oracle and the rows\<close>

text \<open>
  \<^verbatim>\<open>build_oracle\<close>: at every multiple of 1024 the cancellation flag and the clock are read, here
  as functions of the index.
\<close>

definition oracle_step :: "int \<Rightarrow> Deadline \<Rightarrow> (nat \<Rightarrow> bool) \<Rightarrow> (nat \<Rightarrow> rat) \<Rightarrow> nat \<Rightarrow> Oracle \<Rightarrow> Oracle result" where
  "oracle_step base_us deadline cancelled now index orc =
     ebind (if index mod 1024 = 0 then
              ebind (guard (\<not> cancelled index) (TimeoutError ''oracle preparation cancelled'')) (\<lambda>_.
              ebind (dl_timeout deadline (now index) 1) (\<lambda>_. Inr ()))
            else Inr ()) (\<lambda>_.
     ebind (measurement (int index) base_us) (\<lambda>row. Inr (oracle_add orc row)))"

primrec build_oracle :: "int \<Rightarrow> Deadline \<Rightarrow> (nat \<Rightarrow> bool) \<Rightarrow> (nat \<Rightarrow> rat) \<Rightarrow> nat \<Rightarrow> Oracle result" where
  "build_oracle base_us deadline cancelled now 0 = Inr empty_oracle"
| "build_oracle base_us deadline cancelled now (Suc n) =
     ebind (build_oracle base_us deadline cancelled now n) (\<lambda>orc. oracle_step base_us deadline cancelled now n orc)"

definition initial_rows :: "int \<Rightarrow> int \<Rightarrow> int \<Rightarrow> Measurement list result" where
  "initial_rows offset n base_us = emap (\<lambda>index. measurement index base_us) [offset..offset + n - 1]"

definition mixed_rows :: "int \<Rightarrow> int \<Rightarrow> int \<Rightarrow> Measurement list result" where
  "mixed_rows offset n base_us = emap (\<lambda>index. late_measurement index base_us) [offset..offset + n - 1]"

section \<open>Laws\<close>

lemma emap_total: "(\<And>x. x \<in> set xs \<Longrightarrow> f x = Inr (g x)) \<Longrightarrow> emap f xs = Inr (map g xs)"
  by (induction xs) simp_all

lemma initial_rows_eq:
  "0 \<le> offset \<Longrightarrow> initial_rows offset n base_us = Inr (map (\<lambda>i. measurement_row i base_us) [offset..offset + n - 1])"
  unfolding initial_rows_def by (rule emap_total) (simp add: measurement_nonneg)

lemma mixed_rows_eq:
  "0 \<le> offset \<Longrightarrow> mixed_rows offset n base_us = Inr (map (\<lambda>i. late_row i base_us) [offset..offset + n - 1])"
  unfolding mixed_rows_def by (rule emap_total) (simp add: late_measurement_nonneg)

lemma build_oracle_Inr:
  "build_oracle base_us deadline cancelled now n = Inr orc \<Longrightarrow>
   orc = oracle_of (map (\<lambda>i. measurement_row (int i) base_us) [0..<n])"
proof (induction n arbitrary: orc)
  case 0
  then show ?case by (simp add: oracle_of_def oracle_extend_def)
next
  case (Suc n)
  then obtain orc0 where o0: "build_oracle base_us deadline cancelled now n = Inr orc0"
    and st: "oracle_step base_us deadline cancelled now n orc0 = Inr orc" by (auto simp: result_simps)
  from st have "orc = oracle_add orc0 (measurement_row (int n) base_us)"
    by (auto simp: oracle_step_def result_simps measurement_nonneg)
  with Suc.IH [OF o0] show ?case by (simp add: oracle_of_def oracle_extend_def)
qed

text \<open>
  C35: when the oracle is built, whatever the cancellation flag and the clock showed on the way,
  it is the oracle of exactly the initial rows: it is never built from a part of them.
\<close>

theorem build_oracle_complete:
  assumes "build_oracle base_us deadline cancelled now n = Inr orc"
  shows "initial_rows 0 (int n) base_us = Inr (map (\<lambda>i. measurement_row i base_us) [0..int n - 1]) \<and>
    orc = oracle_extend empty_oracle (map (\<lambda>i. measurement_row i base_us) [0..int n - 1])"
proof -
  have "[0..int n - 1] = map int [0..<n]"
    by (induction n) (simp_all add: upto_rec2 add.commute)
  then have "map (\<lambda>i. measurement_row i base_us) [0..int n - 1] = map (\<lambda>i. measurement_row (int i) base_us) [0..<n]"
    by (simp add: comp_def)
  with build_oracle_Inr [OF assms] initial_rows_eq [of 0 "int n" base_us] show ?thesis by (simp add: oracle_of_def)
qed

theorem build_oracle_complete_witness:
  "\<exists>orc. build_oracle 0 \<lparr>dl_started = 0, dl_ends = 100\<rparr> (\<lambda>_. False) (\<lambda>_. 0) 2 = Inr orc \<and>
     orc = oracle_extend empty_oracle (map (\<lambda>i. measurement_row i 0) [0..int 2 - 1])"
proof -
  have "fl 100 = 100" using b64.int_exact [of 100] by simp
  then have "\<exists>orc. build_oracle 0 \<lparr>dl_started = 0, dl_ends = 100\<rparr> (\<lambda>_. False) (\<lambda>_. 0) 2 = Inr orc"
    by (simp add: numeral_2_eq_2 oracle_step_def dl_timeout_def dl_remaining_def measurement_def)
  then show ?thesis using build_oracle_complete by blast
qed

section \<open>Preflight reads and refuses\<close>

definition read_only :: "statement \<Rightarrow> bool" where
  "read_only stmt = (case stmt of Sql s # _ \<Rightarrow> prefix ''SELECT '' s \<or> prefix ''SHOW '' s | _ \<Rightarrow> False)"

text \<open>
  C29: preflight only reads. Any property of the two databases that GET requests and SELECT and
  SHOW statements cannot change holds after preflight if it held before, whether preflight
  succeeds or refuses the run.
\<close>

theorem preflight_read_only:
  assumes "keeps P (sv_now sv)" "\<And>url body t. keeps P (sv_http sv ''GET'' url body t)"
    and "\<And>c stmt params t. read_only stmt \<Longrightarrow> keeps P (sv_pg sv c stmt params t)"
  shows "keeps P (preflight sv vc pc names given)"
proof -
  have get: "keeps P (varve_request sv vc ''GET'' path body)" for path body
    using assms by (intro keeps_request)
  have pg: "keeps P (pg_query sv pc stmt params)" if "read_only stmt" for stmt params
    using assms that by (intro keeps_query)
  have lists: "keeps P (gather_lists sv vc given)"
    unfolding gather_lists_def using get by (intro keeps_bind) (auto split: option.splits)
  have setting: "keeps P (show_setting sv pc s)" for s
    unfolding show_setting_def by (intro keeps_bind pg) (auto simp: read_only_def split: json.splits list.splits)
  show ?thesis
    unfolding preflight_def case_prod_unfold
    by (intro keeps_bind keeps_map keeps_if keeps_simps lists pg setting) (simp_all add: read_only_def)
qed

text \<open>A world that counts the calls that may write.\<close>

definition counting_services :: "nat services" where
  "counting_services = \<lparr>sv_now = io_return 0, sv_utc = io_return [],
     sv_http = (\<lambda>method url body t w. (Inr (200, [utf8 ''[]'']), if method = ''GET'' then w else Suc w)),
     sv_connect = (\<lambda>_ _. io_return 1), sv_close = (\<lambda>_. io_return ()),
     sv_pg = (\<lambda>c stmt params t w.
        (Inr (Some [[(''setting'', JStr ''on''), (''present'', JBool False), (''extversion'', JStr ''2.30.0''),
                     (''postgres_version'', JStr ''17'')]]), if read_only stmt then w else Suc w)),
     sv_copy = (\<lambda>_ _ _ _ w. (Inr (), Suc w))\<rparr>"

theorem preflight_read_only_witness:
  "\<forall>vc pc names given. keeps (\<lambda>writes. writes = 0) (preflight counting_services vc pc names given)"
  by (intro allI preflight_read_only) (simp_all add: keeps_def counting_services_def)



end
