(* ===== verification/Queries.thy ===== *)
theory Queries
  imports Setup Percentiles
begin

text \<open>
  The correctness queries of the driver: how the rows of an answer are compared with the oracle
  (\<^verbatim>\<open>assert_stats\<close> and the four verifiers of \<^verbatim>\<open>query_cases\<close>), the five query cases with
  their statements for both servers, and the suite that warms up, samples and verifies every
  case on both backends. A verifier is an interface: it accepts exactly the answers of a
  specification, and the suite relies on nothing else.
\<close>

section \<open>Conversions of row values\<close>

definition type_name :: "json \<Rightarrow> string" where
  "type_name v = (case v of
     JNull \<Rightarrow> ''NoneType'' | JBool _ \<Rightarrow> ''bool'' | JInt _ \<Rightarrow> ''int'' | JFloat _ \<Rightarrow> ''float''
   | JStr _ \<Rightarrow> ''str'' | JList _ \<Rightarrow> ''list'' | JObj _ \<Rightarrow> ''dict'')"

definition float_to_int :: "pyfloat \<Rightarrow> int result" where
  "float_to_int f = (case f of
     Fin x \<Rightarrow> Inr (trunc x)
   | NaN \<Rightarrow> Inl (ValueError ''cannot convert float NaN to integer'')
   | _ \<Rightarrow> Inl (OverflowError ''cannot convert float infinity to integer''))"

definition py_to_int :: "json \<Rightarrow> int result" where
  "py_to_int v = (case v of
     JInt i \<Rightarrow> Inr i
   | JBool b \<Rightarrow> Inr (if b then 1 else 0)
   | JFloat f \<Rightarrow> float_to_int f
   | JStr s \<Rightarrow> (case py_int s of Some i \<Rightarrow> Inr i
       | None \<Rightarrow> Inl (ValueError (''invalid literal for int() with base 10: '' @ repr_str s)))
   | _ \<Rightarrow> Inl (TypeError (''int() argument must be a string, a bytes-like object or a real number, not '' @ repr_str (type_name v))))"

definition int_to_float :: "int \<Rightarrow> pyfloat result" where
  "int_to_float i = (case to_float (of_int i) of
     Fin x \<Rightarrow> Inr (Fin x)
   | _ \<Rightarrow> Inl (OverflowError ''int too large to convert to float''))"

definition py_to_float :: "json \<Rightarrow> pyfloat result" where
  "py_to_float v = (case v of
     JInt i \<Rightarrow> int_to_float i
   | JBool b \<Rightarrow> Inr (Fin (if b then 1 else 0))
   | JFloat f \<Rightarrow> Inr f
   | JStr s \<Rightarrow> (case py_float s of Some f \<Rightarrow> Inr f
       | None \<Rightarrow> Inl (ValueError (''could not convert string to float: '' @ repr_str s)))
   | _ \<Rightarrow> Inl (TypeError (''float() argument must be a string or a real number, not '' @ repr_str (type_name v))))"

text \<open>\<^verbatim>\<open>None if v is None else float(v)\<close>.\<close>

definition optional_float :: "json \<Rightarrow> pyfloat option result" where
  "optional_float v = (case v of JNull \<Rightarrow> Inr None | _ \<Rightarrow> ebind (py_to_float v) (\<lambda>f. Inr (Some f)))"

text \<open>The comparison \<^verbatim>\<open>!=\<close> of an optional float with an expected one: NaN differs from everything.\<close>

definition float_differs :: "pyfloat option \<Rightarrow> rat option \<Rightarrow> bool" where
  "float_differs observed expected \<longleftrightarrow> observed \<noteq> map_option Fin expected"

section \<open>Statistics of a row\<close>

definition count_field :: "dict \<Rightarrow> json" where
  "count_field d = (case map_of d ''n'' of
     Some v \<Rightarrow> v
   | None \<Rightarrow> (case map_of d ''count'' of Some v \<Rightarrow> v | None \<Rightarrow> JInt 0))"

definition sum_field :: "dict \<Rightarrow> json" where
  "sum_field d = dget d (if ''total'' \<in> fst ` set d then ''total'' else ''sum'')"

definition mismatch :: "string \<Rightarrow> Stats \<Rightarrow> int \<Rightarrow> dict \<Rightarrow> pyerror" where
  "mismatch label expected n d =
     RuntimeError (label @ '' correctness mismatch: expected '' @ py_repr (JObj (stats_json expected)) @
       '', observed '' @ py_repr (JObj [(''count'', JInt n), (''sum'', sum_field d),
                                       (''min'', dget d ''min''), (''max'', dget d ''max'')]))"

text \<open>The disjunction of the source is evaluated from the left and stops at the first difference.\<close>

definition assert_stats :: "json \<Rightarrow> Stats \<Rightarrow> string \<Rightarrow> unit result" where
  "assert_stats actual expected label =
     (case actual of
        JObj d \<Rightarrow>
          ebind (py_to_int (count_field d)) (\<lambda>n.
          let differs = Inl (mismatch label expected n d) in
          if n \<noteq> st_count expected then differs else
          ebind (optional_float (sum_field d)) (\<lambda>s.
          if float_differs s (Some (quarter_float (sum_q expected))) then differs else
          ebind (optional_float (dget d ''min'')) (\<lambda>mn.
          if float_differs mn (map_option quarter_float (min_q expected)) then differs else
          ebind (optional_float (dget d ''max'')) (\<lambda>mx.
          if float_differs mx (map_option quarter_float (max_q expected)) then differs else Inr ()))))
      | _ \<Rightarrow> Inl (AttributeError ''get''))"

definition py_round :: "pyfloat \<Rightarrow> int result" where
  "py_round f = (case f of
     Fin x \<Rightarrow> Inr (rne x)
   | NaN \<Rightarrow> Inl (ValueError ''cannot convert float NaN to integer'')
   | _ \<Rightarrow> Inl (OverflowError ''cannot convert float infinity to integer''))"

definition times_four :: "pyfloat \<Rightarrow> pyfloat" where
  "times_four f = (case f of Fin x \<Rightarrow> to_float (x * 4) | _ \<Rightarrow> f)"

definition quarters :: "json \<Rightarrow> int result" where
  "quarters v = ebind (py_to_float v) (\<lambda>f. py_round (times_four f))"

definition optional_quarters :: "json \<Rightarrow> int option result" where
  "optional_quarters v = (case v of JNull \<Rightarrow> Inr None | _ \<Rightarrow> ebind (quarters v) (\<lambda>q. Inr (Some q)))"

definition expected_stats :: "dict \<Rightarrow> Stats result" where
  "expected_stats d =
     ebind (ebind (dindex d ''count'') py_to_int) (\<lambda>n.
     ebind (ebind (dindex d ''sum'') quarters) (\<lambda>s.
     ebind (optional_quarters (dget d ''min'')) (\<lambda>mn.
     ebind (optional_quarters (dget d ''max'')) (\<lambda>mx.
     Inr \<lparr>st_count = n, sum_q = s, min_q = mn, max_q = mx\<rparr>))))"

section \<open>The verifiers\<close>

definition verify_single :: "Stats \<Rightarrow> string \<Rightarrow> json list \<Rightarrow> unit result" where
  "verify_single expected label rows =
     (if length rows \<noteq> 1 then
        Inl (RuntimeError (label @ '' returned '' @ dec_nat (length rows) @ '' rows instead of one''))
      else assert_stats (rows ! 0) expected label)"

text \<open>A dictionary comprehension: the last row of a key wins.\<close>

fun put_key :: "('k \<times> 'v) list \<Rightarrow> 'k \<Rightarrow> 'v \<Rightarrow> ('k \<times> 'v) list" where
  "put_key [] k v = [(k, v)]"
| "put_key ((k', v') # m) k v = (if k' = k then (k, v) # m else (k', v') # put_key m k v)"

definition keyed :: "(json \<Rightarrow> 'k result) \<Rightarrow> json list \<Rightarrow> ('k \<times> json) list result" where
  "keyed key rows =
     ebind (emap (\<lambda>row. ebind (key row) (\<lambda>k. Inr (k, row))) rows) (\<lambda>pairs.
     Inr (foldl (\<lambda>m (k, row). put_key m k row) [] pairs))"

definition verify_groups :: "(json \<Rightarrow> 'k result) \<Rightarrow> string \<Rightarrow> ('k \<Rightarrow> string) \<Rightarrow> ('k \<times> Stats) list \<Rightarrow> json list \<Rightarrow> unit result" where
  "verify_groups key message label table rows =
     ebind (keyed key rows) (\<lambda>actual.
     if length actual \<noteq> length rows \<or> set (map fst actual) \<noteq> set (map fst table) then Inl (RuntimeError message)
     else eiter (\<lambda>(k, stats). assert_stats (the (map_of actual k)) stats (label k)) table)"

definition tenant_key :: "json \<Rightarrow> string result" where
  "tenant_key row = ebind (field row ''tenant'') (\<lambda>v. Inr (py_str v))"

definition bucket_key :: "json \<Rightarrow> int result" where
  "bucket_key row = ebind (field row ''bucket_us'') py_to_int"

definition verify_tenants :: "Oracle \<Rightarrow> json list \<Rightarrow> unit result" where
  "verify_tenants orc =
     verify_groups tenant_key ''cross-series tenant groups differ from oracle'' (\<lambda>t. ''tenant group '' @ t) (tenants orc)"

definition verify_buckets :: "Oracle \<Rightarrow> json list \<Rightarrow> unit result" where
  "verify_buckets orc =
     verify_groups bucket_key ''minute aggregate buckets differ from oracle'' (\<lambda>b. ''minute bucket '' @ dec_int b)
       (selected_buckets orc)"

definition window_row :: "json \<Rightarrow> (int \<times> pyfloat) result" where
  "window_row row =
     ebind (ebind (field row ''timestamp_us'') py_to_int) (\<lambda>t.
     ebind (ebind (field row ''value'') py_to_float) (\<lambda>v. Inr (t, v)))"

definition verify_window :: "Oracle \<Rightarrow> json list \<Rightarrow> unit result" where
  "verify_window orc rows =
     ebind (emap window_row rows) (\<lambda>normalized.
     if normalized \<noteq> map (\<lambda>(t, v). (t, Fin v)) (selected_window orc 5)
     then Inl (RuntimeError ''window query differs from oracle'') else Inr ())"

section \<open>The query cases\<close>

record QueryCase =
  qc_name :: string
  qc_varve_sql :: string
  qc_postgres_sql :: statement
  qc_verify :: "json list \<Rightarrow> unit result"

definition end_of :: "int \<Rightarrow> int \<Rightarrow> int" where
  "end_of base_us initial_count = base_us + (max 0 (initial_count - 1) div 1024 + 2) * 1000000"

definition start_of :: "int \<Rightarrow> int \<Rightarrow> int" where
  "start_of base_us initial_count = max base_us (end_of base_us initial_count - 60000000)"

definition raw_projection :: string where
  "raw_projection = ''count(*) AS n, sum(value) AS total, min(value) AS min, max(value) AS max''"

definition pg_projection :: string where
  "pg_projection = ''count(*)::bigint AS n, sum(value)::double precision AS total, min(value)::double precision AS min, max(value)::double precision AS max''"

definition of_selected :: string where
  "of_selected = ''WHERE tenant='' @ sql_literal ''tenant_0'' @ '' AND series='' @ sql_literal ''series_0000''"

definition recent_case :: "Names \<Rightarrow> Oracle \<Rightarrow> int \<Rightarrow> int \<Rightarrow> QueryCase" where
  "recent_case names orc start_us end_us =
     \<lparr>qc_name = ''recent_series_time_filter'',
      qc_varve_sql = ''SELECT '' @ raw_projection @ '' FROM '' @ varve_table names @ '' '' @ of_selected @
        '' AND timestamp_us >= '' @ dec_int start_us @ '' AND timestamp_us < '' @ dec_int end_us,
      qc_postgres_sql = [Sql (''SELECT '' @ pg_projection @ '' FROM ''), qualified_name (pg_schema names) (pg_table names),
        Sql ('' '' @ of_selected @ '' AND ts >= to_timestamp(''), Lit (JInt start_us),
        Sql ''/1000000.0) AND ts < to_timestamp('', Lit (JInt end_us), Sql ''/1000000.0)''],
      qc_verify = verify_single (selected_recent orc start_us end_us) ''recent selective query''\<rparr>"

definition full_case :: "Names \<Rightarrow> Oracle \<Rightarrow> QueryCase" where
  "full_case names orc =
     \<lparr>qc_name = ''full_count_sum'',
      qc_varve_sql = ''SELECT '' @ raw_projection @ '' FROM '' @ varve_table names,
      qc_postgres_sql = [Sql (''SELECT '' @ pg_projection @ '' FROM ''), qualified_name (pg_schema names) (pg_table names)],
      qc_verify = verify_single (all_stats orc) ''full count/sum''\<rparr>"

definition group_case :: "Names \<Rightarrow> Oracle \<Rightarrow> QueryCase" where
  "group_case names orc =
     \<lparr>qc_name = ''cross_series_group'',
      qc_varve_sql = ''SELECT tenant, '' @ raw_projection @ '' FROM '' @ varve_table names @ '' GROUP BY tenant ORDER BY tenant'',
      qc_postgres_sql = [Sql (''SELECT tenant, '' @ pg_projection @ '' FROM ''),
        qualified_name (pg_schema names) (pg_table names), Sql '' GROUP BY tenant ORDER BY tenant''],
      qc_verify = verify_tenants orc\<rparr>"

definition minute_case :: "Names \<Rightarrow> Oracle \<Rightarrow> QueryCase" where
  "minute_case names orc =
     \<lparr>qc_name = ''minute_continuous_aggregate'',
      qc_varve_sql = ''SELECT bucket_us, count AS n, sum AS total, min, max FROM '' @ varve_aggregate names @
        '' '' @ of_selected @ '' ORDER BY bucket_us'',
      qc_postgres_sql = [Sql ''SELECT (extract(epoch FROM bucket)*1000000)::bigint AS bucket_us, count AS n, sum AS total, min, max FROM '',
        qualified_name (pg_schema names) (pg_aggregate names), Sql ('' '' @ of_selected @ '' ORDER BY bucket'')],
      qc_verify = verify_buckets orc\<rparr>"

definition window_case :: "Names \<Rightarrow> Oracle \<Rightarrow> QueryCase" where
  "window_case names orc =
     \<lparr>qc_name = ''window_top_five'',
      qc_varve_sql = ''SELECT timestamp_us, value FROM (SELECT timestamp_us, value, row_number() OVER '' @
        ''(ORDER BY timestamp_us DESC, value DESC) AS rn FROM '' @ varve_table names @ '' '' @ of_selected @
        '') ranked WHERE rn <= 5 ORDER BY timestamp_us DESC, value DESC'',
      qc_postgres_sql = [Sql (''SELECT (extract(epoch FROM ts)*1000000)::bigint AS timestamp_us, value FROM '' @
          ''(SELECT ts, value, row_number() OVER (ORDER BY ts DESC, value DESC) AS rn FROM ''),
        qualified_name (pg_schema names) (pg_table names),
        Sql ('' '' @ of_selected @ '') ranked WHERE rn <= 5 ORDER BY ts DESC, value DESC'')],
      qc_verify = verify_window orc\<rparr>"

definition query_cases :: "Names \<Rightarrow> Oracle \<Rightarrow> int \<Rightarrow> int \<Rightarrow> QueryCase list" where
  "query_cases names orc base_us initial_count =
     [recent_case names orc (start_of base_us initial_count) (end_of base_us initial_count),
      full_case names orc, group_case names orc, minute_case names orc, window_case names orc]"

section \<open>The suite\<close>

text \<open>
  The mutable result object of one case. The report is flushed after every case with the output
  so far, which is the argument of \<open>flush\<close>; without a report \<open>flush\<close> does nothing.
\<close>

record case_result =
  cs_state :: string
  cs_latencies :: "rat list"
  cs_verified :: nat
  cs_error :: "string option"

definition new_case :: case_result where
  "new_case = \<lparr>cs_state = ''running'', cs_latencies = [], cs_verified = 0, cs_error = None\<rparr>"

definition execute_case :: "'w services \<Rightarrow> VarveClient \<Rightarrow> TimescaleClient \<Rightarrow> string \<Rightarrow> QueryCase \<Rightarrow> ('w, json list) io" where
  "execute_case sv vc pc backend q =
     (if backend = ''varve'' then varve_sql sv vc (qc_varve_sql q) else pg_query sv pc (qc_postgres_sql q) [])"

definition milliseconds :: "rat \<Rightarrow> rat \<Rightarrow> rat" where
  "milliseconds started finished = fl (fl (finished - started) * 1000)"

primrec sample_loop :: "'w services \<Rightarrow> ('w, json list) io \<Rightarrow> (json list \<Rightarrow> unit result) \<Rightarrow> nat \<Rightarrow> ('w \<times> case_result, unit) io" where
  "sample_loop sv execute verify 0 = io_return ()"
| "sample_loop sv execute verify (Suc n) =
     io_bind (io_on (sv_now sv)) (\<lambda>started.
     io_bind (io_on execute) (\<lambda>rows.
     io_bind (io_on (sv_now sv)) (\<lambda>finished.
     io_then (io_modify (\<lambda>c. c\<lparr>cs_latencies := cs_latencies c @ [milliseconds started finished]\<rparr>))
     (io_then (io_lift (verify rows))
     (io_then (io_modify (\<lambda>c. c\<lparr>cs_verified := cs_verified c + 1\<rparr>))
     (sample_loop sv execute verify n))))))"

definition run_case :: "'w services \<Rightarrow> ('w, json list) io \<Rightarrow> (json list \<Rightarrow> unit result) \<Rightarrow> nat \<Rightarrow> (pyerror \<Rightarrow> string) \<Rightarrow> ('w \<times> case_result, unit) io" where
  "run_case sv execute verify n describe_error =
     io_catch
       (io_bind (io_on execute) (\<lambda>rows.
        io_then (io_lift (verify rows))
        (io_then (sample_loop sv execute verify n)
        (io_modify (\<lambda>c. c\<lparr>cs_state := ''passed''\<rparr>)))))
       (\<lambda>e. io_then (io_modify (\<lambda>c. c\<lparr>cs_state := ''failed'', cs_error := Some (describe_error e)\<rparr>)) (io_raise e))"

definition case_json :: "case_result \<Rightarrow> json result" where
  "case_json c =
     ebind (raw_and_summary (cs_latencies c)) (\<lambda>latency.
     Inr (JObj ([(''state'', JStr (cs_state c)), (''latency_ms'', latency), (''verified_samples'', JInt (int (cs_verified c)))] @
       (case cs_error c of None \<Rightarrow> [] | Some e \<Rightarrow> [(''error'', JStr e)]))))"

definition suite_output :: "nat \<Rightarrow> string list \<Rightarrow> dict \<Rightarrow> dict" where
  "suite_output n backend_order backends =
     [(''warmup_per_query'', JInt 1), (''samples_per_query'', JInt (int n)),
      (''backend_order'', JList (map JStr backend_order)),
      (''percentile_scope'', JStr ''observational pilot samples; not p99 qualification''),
      (''backends'', JObj backends)]"

text \<open>
  One case on one backend. Its result is entered under the backend before the exception goes on,
  and the report is flushed in either case.
\<close>

definition entries_of :: "dict \<Rightarrow> string \<Rightarrow> dict" where
  "entries_of backends backend = (case dget backends backend of JObj d \<Rightarrow> d | _ \<Rightarrow> [])"

definition suite_case :: "'w services \<Rightarrow> VarveClient \<Rightarrow> TimescaleClient \<Rightarrow> (dict \<Rightarrow> ('w, unit) io) \<Rightarrow> nat \<Rightarrow> (pyerror \<Rightarrow> string) \<Rightarrow> string \<Rightarrow> QueryCase \<Rightarrow> ('w \<times> dict, unit) io" where
  "suite_case sv vc pc flush n describe_error backend q = (\<lambda>(w, backends).
     case run_case sv (execute_case sv vc pc backend q) (qc_verify q) n describe_error (w, new_case) of
       (r, (w1, c)) \<Rightarrow>
         (case case_json c of
            Inl e \<Rightarrow> (Inl e, (w1, backends))
          | Inr entry \<Rightarrow>
              let backends1 = dset backends backend (JObj (dset (entries_of backends backend) (qc_name q) entry)) in
              case flush backends1 w1 of
                (Inl e, w2) \<Rightarrow> (Inl e, (w2, backends1))
              | (Inr _, w2) \<Rightarrow> (r, (w2, backends1))))"

definition suite_backend :: "'w services \<Rightarrow> VarveClient \<Rightarrow> TimescaleClient \<Rightarrow> (dict \<Rightarrow> ('w, unit) io) \<Rightarrow> nat \<Rightarrow> (pyerror \<Rightarrow> string) \<Rightarrow> QueryCase list \<Rightarrow> string \<Rightarrow> ('w \<times> dict, unit) io" where
  "suite_backend sv vc pc flush n describe_error cases backend =
     io_then (io_modify (\<lambda>backends. dset backends backend (JObj [])))
       (io_iter (suite_case sv vc pc flush n describe_error backend) cases)"

definition run_query_suite :: "'w services \<Rightarrow> VarveClient \<Rightarrow> TimescaleClient \<Rightarrow> QueryCase list \<Rightarrow> nat \<Rightarrow> (dict \<Rightarrow> ('w, unit) io) \<Rightarrow> string list \<Rightarrow> (pyerror \<Rightarrow> string) \<Rightarrow> ('w, dict) io" where
  "run_query_suite sv vc pc cases n flush backend_order describe_error w =
     (if set backend_order \<noteq> {''varve'', ''timescale''} then
        (Inl (ValueError ''query backend order must contain Varve and Timescale exactly once''), w)
      else
        let save = (\<lambda>backends. flush (suite_output n backend_order backends)) in
        case save [] w of
          (Inl e, w1) \<Rightarrow> (Inl e, w1)
        | (Inr _, w1) \<Rightarrow>
            (case io_iter (suite_backend sv vc pc save n describe_error cases) backend_order (w1, []) of
               (Inl e, (w2, _)) \<Rightarrow> (Inl e, w2)
             | (Inr _, (w2, backends)) \<Rightarrow> (Inr (suite_output n backend_order backends), w2)))"

section \<open>What an accepted answer says\<close>

text \<open>
  The specification of a row of statistics: its fields are the exact count, sum, minimum and
  maximum of a list of quarter values.
\<close>

definition row_states :: "dict \<Rightarrow> Stats \<Rightarrow> bool" where
  "row_states d s \<longleftrightarrow>
     py_to_int (count_field d) = Inr (st_count s) \<and>
     optional_float (sum_field d) = Inr (Some (Fin (quarter_float (sum_q s)))) \<and>
     optional_float (dget d ''min'') = Inr (map_option (\<lambda>q. Fin (quarter_float q)) (min_q s)) \<and>
     optional_float (dget d ''max'') = Inr (map_option (\<lambda>q. Fin (quarter_float q)) (max_q s))"

definition row_says :: "dict \<Rightarrow> int list \<Rightarrow> bool" where
  "row_says d qs \<longleftrightarrow>
     py_to_int (count_field d) = Inr (int (length qs)) \<and>
     optional_float (sum_field d) = Inr (Some (Fin (of_int (sum_list qs) / 4))) \<and>
     optional_float (dget d ''min'') = Inr (if qs = [] then None else Some (Fin (of_int (Min (set qs)) / 4))) \<and>
     optional_float (dget d ''max'') = Inr (if qs = [] then None else Some (Fin (of_int (Max (set qs)) / 4)))"

lemma assert_stats_iff:
  "assert_stats row s label = Inr () \<longleftrightarrow> (\<exists>d. row = JObj d \<and> row_states d s)"
  by (cases row)
    (auto simp: assert_stats_def row_states_def result_simps float_differs_def option.map_comp comp_def Let_def split: if_splits)

lemma quarter_float_exact: "\<bar>k\<bar> < 2 ^ 53 \<Longrightarrow> quarter_float k = of_int k / 4"
  by (simp add: quarter_float_def b64.int_exact b64.quarter_exact)

lemma sum_abs_member: "q \<in> set qs \<Longrightarrow> \<bar>q :: int\<bar> \<le> (\<Sum>x\<leftarrow>qs. \<bar>x\<bar>)"
proof -
  assume "q \<in> set qs"
  then have "\<bar>q\<bar> \<in> set (map abs qs)" by simp
  then show ?thesis by (intro member_le_sum_list) auto
qed

lemma sum_abs_sum: "\<bar>sum_list qs :: int\<bar> \<le> (\<Sum>x\<leftarrow>qs. \<bar>x\<bar>)"
  by (induction qs) auto

lemma row_states_spec:
  assumes "(\<Sum>q\<leftarrow>qs. \<bar>q\<bar>) < 2 ^ 53"
  shows "row_states d (stats_spec qs) \<longleftrightarrow> row_says d qs"
proof -
  have "quarter_float (sum_list qs) = of_int (sum_list qs) / 4"
    using sum_abs_sum [of qs] assms by (intro quarter_float_exact) linarith
  moreover have "quarter_float (Min (set qs)) = of_int (Min (set qs)) / 4" if "qs \<noteq> []"
    using sum_abs_member [of "Min (set qs)" qs] that assms by (intro quarter_float_exact) simp
  moreover have "quarter_float (Max (set qs)) = of_int (Max (set qs)) / 4" if "qs \<noteq> []"
    using sum_abs_member [of "Max (set qs)" qs] that assms by (intro quarter_float_exact) simp
  ultimately show ?thesis by (auto simp: row_states_def row_says_def stats_spec_def)
qed

subsection \<open>Dictionary comprehensions\<close>

lemma put_key_keys: "set (map fst (put_key m k v)) = insert k (set (map fst m))"
  by (induction m k v rule: put_key.induct) auto

lemma put_key_distinct: "distinct (map fst m) \<Longrightarrow> distinct (map fst (put_key m k v))"
proof (induction m k v rule: put_key.induct)
  case (2 k' v' m k v)
  then show ?case using put_key_keys [of m k v] by auto
qed simp

lemma map_of_put_key: "map_of (put_key m k v) = (map_of m)(k \<mapsto> v)"
  by (induction m k v rule: put_key.induct) auto

lemma comprehension_keys:
  "set (map fst (foldl (\<lambda>m (k, v). put_key m k v) m0 ps)) = set (map fst m0) \<union> fst ` set ps"
  by (induction ps arbitrary: m0) (auto simp: put_key_keys simp del: set_map)

lemma comprehension_distinct:
  "distinct (map fst m0) \<Longrightarrow> distinct (map fst (foldl (\<lambda>m (k, v). put_key m k v) m0 ps))"
  by (induction ps arbitrary: m0) (auto simp: put_key_distinct)

lemma comprehension_map_of:
  "distinct (map fst ps) \<Longrightarrow>
   map_of (foldl (\<lambda>m (k, v). put_key m k v) m0 ps) = map_of m0 ++ map_of ps"
proof (induction ps arbitrary: m0)
  case (Cons p ps)
  then have "fst p \<notin> dom (map_of ps)" by (simp add: dom_map_of_conv_image_fst)
  with Cons show ?case by (cases p) (simp add: map_of_put_key map_add_upd_left del: fun_upd_apply)
qed simp

lemma comprehension_length:
  "length (foldl (\<lambda>m (k, v). put_key m k v) [] ps) = length ps \<longleftrightarrow> distinct (map fst ps)"
proof -
  let ?m = "foldl (\<lambda>m (k, v). put_key m k v) [] ps"
  have "length ?m = card (set (map fst ?m))"
    using distinct_card [OF comprehension_distinct [of "[]" ps]] by simp
  also have "\<dots> = card (set (map fst ps))" by (simp only: comprehension_keys) simp
  finally have "length ?m = card (set (map fst ps))" .
  then show ?thesis using card_distinct [of "map fst ps"] distinct_card [of "map fst ps"] by auto
qed

subsection \<open>The contract of a verifier\<close>

text \<open>
  A verifier accepts exactly the answers of its specification. The suite is proved against this
  contract alone: with servers whose answer to a case does not change while the suite runs, a
  case passes, with every sample verified, exactly if the answer meets the specification.
\<close>

definition stable :: "('w \<Rightarrow> bool) \<Rightarrow> ('w, 'a) io \<Rightarrow> 'a \<Rightarrow> bool" where
  "stable P m x \<longleftrightarrow> (\<forall>w. P w \<longrightarrow> (\<exists>w'. m w = (Inr x, w') \<and> P w'))"

definition returns :: "('w \<Rightarrow> bool) \<Rightarrow> ('w, 'a) io \<Rightarrow> bool" where
  "returns P m \<longleftrightarrow> (\<forall>w. P w \<longrightarrow> (\<exists>x w'. m w = (Inr x, w') \<and> P w'))"

lemma stableE:
  assumes "stable P m x" "P w" obtains w' where "m w = (Inr x, w')" "P w'"
  using assms by (auto simp: stable_def)

lemma returnsE:
  assumes "returns P m" "P w" obtains x w' where "m w = (Inr x, w')" "P w'"
  using assms by (auto simp: returns_def)

lemma latency_summary_total: "\<exists>r. latency_summary xs = Inr r"
  by (simp add: latency_summary_def percentile_def fl_50 fl_95 fl_99 Let_def)

lemma case_json_total: "\<exists>v. case_json c = Inr v"
  using latency_summary_total [of "cs_latencies c"] by (auto simp: case_json_def raw_and_summary_def)

locale answer_check =
  fixes verify :: "json list \<Rightarrow> unit result" and correct :: "json list \<Rightarrow> bool"
  assumes verify_iff: "verify rows = Inr () \<longleftrightarrow> correct rows"
begin

lemma sample_loop_correct:
  assumes "stable P execute rows" "returns P (sv_now sv)" "correct rows" "P w"
  shows "\<exists>w' c'. sample_loop sv execute verify n (w, c) = (Inr (), (w', c')) \<and> P w' \<and>
    cs_verified c' = cs_verified c + n \<and> length (cs_latencies c') = length (cs_latencies c) + n \<and>
    cs_error c' = cs_error c"
  using assms(4)
proof (induction n arbitrary: w c)
  case (Suc n)
  obtain t w1 where 1: "sv_now sv w = (Inr t, w1)" "P w1" using returnsE [OF assms(2) Suc.prems] .
  obtain w2 where 2: "execute w1 = (Inr rows, w2)" "P w2" using stableE [OF assms(1) 1(2)] .
  obtain t' w3 where 3: "sv_now sv w2 = (Inr t', w3)" "P w3" using returnsE [OF assms(2) 2(2)] .
  have ok: "verify rows = Inr ()" using assms(3) by (simp add: verify_iff)
  let ?c = "c\<lparr>cs_latencies := cs_latencies c @ [milliseconds t t'], cs_verified := cs_verified c + 1\<rparr>"
  have "sample_loop sv execute verify (Suc n) (w, c) = sample_loop sv execute verify n (w3, ?c)"
    using 1 2 3 ok by (simp add: io_bind_def io_then_def)
  with Suc.IH [OF 3(2), of ?c] show ?case by auto
qed auto

lemma run_case_correct:
  assumes "stable P execute rows" "returns P (sv_now sv)" "correct rows" "P w"
  shows "\<exists>w' c. run_case sv execute verify n describe_error (w, new_case) = (Inr (), (w', c)) \<and> P w' \<and>
    cs_state c = ''passed'' \<and> cs_verified c = n \<and> length (cs_latencies c) = n \<and> cs_error c = None"
proof -
  obtain w1 where 1: "execute w = (Inr rows, w1)" "P w1" using stableE [OF assms(1,4)] .
  obtain w' c' where 2: "sample_loop sv execute verify n (w1, new_case) = (Inr (), (w', c'))" "P w'"
    "cs_verified c' = n" "length (cs_latencies c') = n" "cs_error c' = None"
    using sample_loop_correct [OF assms(1-3) 1(2), of n new_case] by (auto simp: new_case_def)
  have "verify rows = Inr ()" using assms(3) by (simp add: verify_iff)
  with 1 2 show ?thesis by (simp add: run_case_def io_bind_def io_then_def io_catch_def)
qed

lemma run_case_incorrect:
  assumes "stable P execute rows" "\<not> correct rows" "P w"
  shows "\<exists>w' e. run_case sv execute verify n describe_error (w, new_case) =
    (Inl e, (w', new_case\<lparr>cs_state := ''failed'', cs_error := Some (describe_error e)\<rparr>)) \<and> P w' \<and> verify rows = Inl e"
proof -
  obtain w1 where 1: "execute w = (Inr rows, w1)" "P w1" using stableE [OF assms(1,3)] .
  obtain e where "verify rows = Inl e" using assms(2) verify_iff [of rows] by (cases "verify rows") auto
  with 1 show ?thesis by (simp add: run_case_def io_bind_def io_then_def io_catch_def)
qed

lemma suite_case_outcome:
  assumes "qc_verify q = verify" "stable P (execute_case sv vc pc backend q) rows" "returns P (sv_now sv)"
    and "\<And>d. returns P (flush d)" "P w"
  shows "\<exists>r w' b'. suite_case sv vc pc flush n describe_error backend q (w, b) = (r, (w', b')) \<and> P w' \<and>
    (r = Inr () \<longleftrightarrow> correct rows)"
proof -
  obtain r w1 c where 1: "run_case sv (execute_case sv vc pc backend q) verify n describe_error (w, new_case) = (r, (w1, c))"
      "P w1" "r = Inr () \<longleftrightarrow> correct rows"
    using run_case_correct [where sv = sv, OF assms(2,3) _ assms(5), of n describe_error]
      run_case_incorrect [OF assms(2) _ assms(5), of sv n describe_error] by (cases "correct rows") fastforce+
  obtain v where 2: "case_json c = Inr v" using case_json_total by blast
  let ?b = "dset b backend (JObj (dset (entries_of b backend) (qc_name q) v))"
  obtain x w2 where 3: "flush ?b w1 = (Inr x, w2)" "P w2" using returnsE [OF assms(4) 1(2)] .
  show ?thesis using 1 2 3 assms(1) by (simp add: suite_case_def)
qed

end

definition single_answer :: "Stats \<Rightarrow> json list \<Rightarrow> bool" where
  "single_answer s rows \<longleftrightarrow> (\<exists>d. rows = [JObj d] \<and> row_states d s)"

definition group_answer :: "(json \<Rightarrow> 'k result) \<Rightarrow> ('k \<times> Stats) list \<Rightarrow> json list \<Rightarrow> bool" where
  "group_answer key table rows \<longleftrightarrow>
     (\<exists>ks. emap key rows = Inr ks \<and> distinct ks \<and> set ks = fst ` set table \<and>
        (\<forall>(k, s) \<in> set table. \<exists>d. (k, JObj d) \<in> set (zip ks rows) \<and> row_states d s))"

definition window_answer :: "(int \<times> rat) list \<Rightarrow> json list \<Rightarrow> bool" where
  "window_answer w rows \<longleftrightarrow> list_all2 (\<lambda>row (t, v). window_row row = Inr (t, Fin v)) rows w"

lemma verify_groups_iff:
  "verify_groups key message label table rows = Inr () \<longleftrightarrow> group_answer key table rows"
proof (cases "emap key rows")
  case (Inl e)
  then have "emap (\<lambda>row. ebind (key row) (\<lambda>k. Inr (k, row))) rows = Inl e"
    by (induction rows) (auto simp: result_simps split: sum.splits)
  with Inl show ?thesis by (simp add: verify_groups_def keyed_def group_answer_def)
next
  case (Inr ks)
  then have len: "length ks = length rows" by (auto simp: result_simps dest: list_all2_lengthD)
  have pairs: "emap (\<lambda>row. ebind (key row) (\<lambda>k. Inr (k, row))) rows = Inr (zip ks rows)"
    using Inr by (auto simp: result_simps list_all2_conv_all_nth)
  have fsts: "map fst (zip ks rows) = ks" using len by simp
  let ?m = "foldl (\<lambda>m (k, v). put_key m k v) [] (zip ks rows)"
  have "set (map fst ?m) = set (map fst (zip ks rows))" unfolding comprehension_keys by simp
  then have keys: "fst ` set ?m = set ks" unfolding fsts by simp
  have dist: "length ?m = length rows \<longleftrightarrow> distinct ks"
    using comprehension_length [of "zip ks rows"] len fsts by simp
  have at: "assert_stats (the (map_of ?m k)) s (label k) = Inr () \<longleftrightarrow> (\<exists>d. (k, JObj d) \<in> set (zip ks rows) \<and> row_states d s)"
    if "distinct ks" "k \<in> set ks" for k s
  proof -
    have "map_of ?m = map_of (zip ks rows)" using comprehension_map_of [of "zip ks rows" "[]"] that(1) fsts by simp
    moreover have "k \<in> fst ` set (zip ks rows)" using that(2) fsts by (metis list.set_map)
    then obtain row where "(k, row) \<in> set (zip ks rows)" by auto
    moreover have "distinct (map fst (zip ks rows))" using that(1) fsts by simp
    ultimately show ?thesis
      unfolding assert_stats_iff by (metis map_of_is_SomeI map_of_SomeD option.sel)
  qed
  have "(\<forall>x \<in> set table. (case x of (k, s) \<Rightarrow> assert_stats (the (map_of ?m k)) s (label k)) = Inr ()) \<longleftrightarrow>
      (\<forall>(k, s) \<in> set table. \<exists>d. (k, JObj d) \<in> set (zip ks rows) \<and> row_states d s)"
    if "distinct ks" "set ks = fst ` set table"
    using at [OF that(1)] that(2) by (intro ball_cong refl) (auto simp: case_prod_unfold)
  then show ?thesis
    using Inr by (auto simp: verify_groups_def keyed_def pairs dist keys eiter_Inr_iff group_answer_def split: if_splits)
qed

lemma verify_window_iff: "verify_window orc rows = Inr () \<longleftrightarrow> window_answer (selected_window orc 5) rows"
proof -
  have "emap window_row rows = Inr (map (\<lambda>(t, v). (t, Fin v)) w) \<longleftrightarrow> window_answer w rows" for w
    by (simp add: emap_Inr_iff window_answer_def list_all2_map2 case_prod_unfold)
  then show ?thesis by (auto simp: verify_window_def result_simps split: if_splits)
qed

interpretation single: answer_check "verify_single s label" "single_answer s" for s label
  by unfold_locales (auto simp: verify_single_def single_answer_def assert_stats_iff length_Suc_conv)

interpretation tenants: answer_check "verify_tenants orc" "group_answer tenant_key (tenants orc)" for orc
  by unfold_locales (simp add: verify_tenants_def verify_groups_iff)

interpretation buckets: answer_check "verify_buckets orc" "group_answer bucket_key (selected_buckets orc)" for orc
  by unfold_locales (simp add: verify_buckets_def verify_groups_iff)

interpretation window: answer_check "verify_window orc" "window_answer (selected_window orc 5)" for orc
  by unfold_locales (rule verify_window_iff)

section \<open>The suite accepts exactly the right answers\<close>

lemma io_iter_outcome:
  assumes "\<And>x w b. x \<in> set xs \<Longrightarrow> P w \<Longrightarrow> \<exists>r w' b'. f x (w, b) = (r, (w', b')) \<and> P w' \<and> (r = Inr () \<longleftrightarrow> C x)"
    and "P w"
  shows "\<exists>r w' b'. io_iter f xs (w, b) = (r, (w', b')) \<and> P w' \<and> (r = Inr () \<longleftrightarrow> (\<forall>x \<in> set xs. C x))"
  using assms
proof (induction xs arbitrary: w b)
  case (Cons x xs)
  obtain r w1 b1 where 1: "f x (w, b) = (r, (w1, b1))" "P w1" "r = Inr () \<longleftrightarrow> C x"
    using Cons.prems(1) [of x, OF _ Cons.prems(2), of b] by auto
  show ?case
  proof (cases r)
    case (Inl e)
    with 1 show ?thesis by (simp add: io_then_def io_bind_def)
  next
    case (Inr u)
    obtain r2 w2 b2 where 2: "io_iter f xs (w1, b1) = (r2, (w2, b2))" "P w2" "r2 = Inr () \<longleftrightarrow> (\<forall>x \<in> set xs. C x)"
      using Cons.IH [OF Cons.prems(1) 1(2), of b1] by (auto simp del: split_paired_Ex)
    with 1 Inr show ?thesis by (auto simp: io_then_def io_bind_def)
  qed
qed auto

definition case_spec :: "Oracle \<Rightarrow> int \<Rightarrow> int \<Rightarrow> string \<Rightarrow> json list \<Rightarrow> bool" where
  "case_spec orc start_us end_us name =
     (if name = ''recent_series_time_filter'' then single_answer (selected_recent orc start_us end_us)
      else if name = ''full_count_sum'' then single_answer (all_stats orc)
      else if name = ''cross_series_group'' then group_answer tenant_key (tenants orc)
      else if name = ''minute_continuous_aggregate'' then group_answer bucket_key (selected_buckets orc)
      else window_answer (selected_window orc 5))"

lemma query_cases_check:
  assumes "q \<in> set (query_cases names orc base_us n)"
  shows "answer_check (qc_verify q) (case_spec orc (start_of base_us n) (end_of base_us n) (qc_name q))"
proof -
  note single = single.answer_check_axioms and tenants = tenants.answer_check_axioms
    and buckets = buckets.answer_check_axioms and window = window.answer_check_axioms
  from assms consider "q = recent_case names orc (start_of base_us n) (end_of base_us n)" | "q = full_case names orc"
    | "q = group_case names orc" | "q = minute_case names orc" | "q = window_case names orc"
    by (auto simp: query_cases_def)
  then show ?thesis
    by cases (simp_all add: recent_case_def full_case_def group_case_def minute_case_def window_case_def
        case_spec_def single tenants buckets window)
qed

lemma suite_outcome:
  assumes checks: "\<And>q. q \<in> set cases \<Longrightarrow> answer_check (qc_verify q) (spec (qc_name q))"
    and now: "returns P (sv_now sv)" and flush: "\<And>d. returns P (flush d)"
    and reply: "\<And>backend q. backend \<in> {''varve'', ''timescale''} \<Longrightarrow> q \<in> set cases \<Longrightarrow>
      stable P (execute_case sv vc pc backend q) (reply backend (qc_name q))"
    and order: "set backend_order = {''varve'', ''timescale''}" and w: "P w"
  shows "(\<exists>out w'. run_query_suite sv vc pc cases n flush backend_order describe_error w = (Inr out, w')) \<longleftrightarrow>
    (\<forall>backend \<in> {''varve'', ''timescale''}. \<forall>q \<in> set cases. spec (qc_name q) (reply backend (qc_name q)))"
proof -
  let ?save = "\<lambda>backends. flush (suite_output n backend_order backends)"
  have case_out: "\<exists>r w' b'. suite_case sv vc pc ?save n describe_error backend q (w, b) = (r, (w', b')) \<and> P w' \<and>
      (r = Inr () \<longleftrightarrow> spec (qc_name q) (reply backend (qc_name q)))"
    if "backend \<in> {''varve'', ''timescale''}" "q \<in> set cases" "P w" for backend q w b
    by (rule answer_check.suite_case_outcome [OF checks [OF that(2)] refl reply [OF that(1,2)] now flush that(3)])
  have backend_out: "\<exists>r w' b'. suite_backend sv vc pc ?save n describe_error cases backend (w, b) = (r, (w', b')) \<and> P w' \<and>
      (r = Inr () \<longleftrightarrow> (\<forall>q \<in> set cases. spec (qc_name q) (reply backend (qc_name q))))"
    if "backend \<in> set backend_order" "P w" for backend w b
    using io_iter_outcome [where P = P and xs = cases and f = "suite_case sv vc pc ?save n describe_error backend",
        OF case_out that(2)] that(1) order
    by (simp add: suite_backend_def io_then_def io_bind_def)
  obtain x w1 where 1: "?save [] w = (Inr x, w1)" "P w1" using returnsE [OF flush w] .
  obtain r w2 b2 where 2: "io_iter (suite_backend sv vc pc ?save n describe_error cases) backend_order (w1, []) = (r, (w2, b2))"
      "r = Inr () \<longleftrightarrow> (\<forall>backend \<in> set backend_order. \<forall>q \<in> set cases. spec (qc_name q) (reply backend (qc_name q)))"
    using io_iter_outcome [where P = P and xs = backend_order and f = "suite_backend sv vc pc ?save n describe_error cases"
        and C = "\<lambda>backend. \<forall>q \<in> set cases. spec (qc_name q) (reply backend (qc_name q))", OF backend_out 1(2)] by blast
  show ?thesis
    using 1 2 order by (auto simp: run_query_suite_def Let_def split: sum.splits)
qed

subsection \<open>In terms of the stored rows\<close>

definition groups_say :: "(json \<Rightarrow> 'k result) \<Rightarrow> (Measurement \<Rightarrow> 'k) \<Rightarrow> Measurement list \<Rightarrow> json list \<Rightarrow> bool" where
  "groups_say key of_row data rows \<longleftrightarrow>
     (\<exists>ks. emap key rows = Inr ks \<and> distinct ks \<and> set ks = of_row ` set data \<and>
        (\<forall>(k, row) \<in> set (zip ks rows). \<exists>d. row = JObj d \<and> row_says d (map value_q (filter (\<lambda>r. of_row r = k) data))))"

definition answers_from :: "Measurement list \<Rightarrow> int \<Rightarrow> int \<Rightarrow> (string \<Rightarrow> json list) \<Rightarrow> bool" where
  "answers_from data start_us end_us reply \<longleftrightarrow>
     (\<exists>d. reply ''recent_series_time_filter'' = [JObj d] \<and>
        row_says d (map value_q (filter (\<lambda>r. is_selected r \<and> start_us \<le> timestamp_us r \<and> timestamp_us r < end_us) data))) \<and>
     (\<exists>d. reply ''full_count_sum'' = [JObj d] \<and> row_says d (map value_q data)) \<and>
     groups_say tenant_key tenant data (reply ''cross_series_group'') \<and>
     groups_say bucket_key (\<lambda>r. bucket_of (timestamp_us r)) (filter is_selected data) (reply ''minute_continuous_aggregate'') \<and>
     list_all2 (\<lambda>row (t, q). window_row row = Inr (t, Fin (of_int q / 4))) (reply ''window_top_five'')
       (take 5 (rev (sort (map (\<lambda>r. (timestamp_us r, value_q r)) (filter is_selected data)))))"

abbreviation magnitude :: "Measurement list \<Rightarrow> int" where
  "magnitude data \<equiv> (\<Sum>r\<leftarrow>data. \<bar>value_q r\<bar>)"

lemma magnitude_filter: "magnitude (filter p data) \<le> magnitude data"
  by (induction data) auto

lemma row_states_data:
  assumes "magnitude data < 2 ^ 53"
  shows "row_states d (row_stats (filter p data)) \<longleftrightarrow> row_says d (map value_q (filter p data))"
  using row_states_spec [of "map value_q (filter p data)" d] magnitude_filter [of p data] assms
  by (simp add: row_stats_def comp_def)

lemma in_fst_image: "k \<in> fst ` S \<longleftrightarrow> (\<exists>v. (k, v) \<in> S)"
  by force

lemma group_answer_data:
  assumes "magnitude data < 2 ^ 53"
  shows "group_answer key (group_by of_row data) rows \<longleftrightarrow> groups_say key of_row data rows"
proof -
  have entry: "(k, s) \<in> set (group_by of_row data) \<longleftrightarrow>
      k \<in> of_row ` set data \<and> s = row_stats (filter (\<lambda>r. of_row r = k) data)" for k s
  proof -
    have "(k, s) \<in> set (group_by of_row data) \<longleftrightarrow> map_of (group_by of_row data) k = Some s"
      by (rule map_of_eq_Some_iff [OF group_by_distinct, symmetric])
    then show ?thesis by (auto simp: map_of_group_by split: if_splits)
  qed
  have entries: "set (group_by of_row data) = (\<lambda>k. (k, row_stats (filter (\<lambda>r. of_row r = k) data))) ` of_row ` set data"
    using entry by (simp add: set_eq_iff image_iff split_paired_All) blast
  have keys: "fst ` set (group_by of_row data) = of_row ` set data" using group_by_keys [of of_row data] by simp
  have "(\<forall>(k, s) \<in> set (group_by of_row data). \<exists>d. (k, JObj d) \<in> set (zip ks rows) \<and> row_states d s) \<longleftrightarrow>
      (\<forall>(k, row) \<in> set (zip ks rows). \<exists>d. row = JObj d \<and> row_says d (map value_q (filter (\<lambda>r. of_row r = k) data)))"
    if ks: "emap key rows = Inr ks" "distinct ks" "set ks = of_row ` set data" for ks
  proof -
    have len: "length ks = length rows" using ks(1) by (auto simp: emap_Inr_iff dest: list_all2_lengthD)
    have dist: "distinct (map fst (zip ks rows))" using ks(2) len by simp
    have uniq: "(k, a) \<in> set (zip ks rows) \<Longrightarrow> (k, b) \<in> set (zip ks rows) \<Longrightarrow> a = b" for k a b
      using dist by (rule eq_key_imp_eq_value)
    have dom: "k \<in> of_row ` set data \<longleftrightarrow> (\<exists>row. (k, row) \<in> set (zip ks rows))" for k
    proof -
      have "set ks = set (map fst (zip ks rows))" using len by simp
      then have "k \<in> of_row ` set data \<longleftrightarrow> k \<in> fst ` set (zip ks rows)" using ks(3) by (simp only: set_map)
      then show ?thesis by (simp only: in_fst_image)
    qed
    have "(\<forall>(k, s) \<in> set (group_by of_row data). \<exists>d. (k, JObj d) \<in> set (zip ks rows) \<and> row_states d s) \<longleftrightarrow>
        (\<forall>k \<in> of_row ` set data. \<exists>d. (k, JObj d) \<in> set (zip ks rows) \<and> row_says d (map value_q (filter (\<lambda>r. of_row r = k) data)))"
      unfolding entries by (simp add: row_states_data [OF assms])
    also have "\<dots> \<longleftrightarrow> (\<forall>k row. (k, row) \<in> set (zip ks rows) \<longrightarrow>
        (\<exists>d. row = JObj d \<and> row_says d (map value_q (filter (\<lambda>r. of_row r = k) data))))"
    proof (intro iffI allI impI ballI)
      fix k row
      assume all: "\<forall>k \<in> of_row ` set data. \<exists>d. (k, JObj d) \<in> set (zip ks rows) \<and>
          row_says d (map value_q (filter (\<lambda>r. of_row r = k) data))" and at: "(k, row) \<in> set (zip ks rows)"
      have "k \<in> of_row ` set data" using at unfolding dom by (rule exI)
      with all obtain d where "(k, JObj d) \<in> set (zip ks rows)" "row_says d (map value_q (filter (\<lambda>r. of_row r = k) data))"
        by blast
      with uniq [OF at] show "\<exists>d. row = JObj d \<and> row_says d (map value_q (filter (\<lambda>r. of_row r = k) data))" by blast
    next
      fix k
      assume all: "\<forall>k row. (k, row) \<in> set (zip ks rows) \<longrightarrow>
          (\<exists>d. row = JObj d \<and> row_says d (map value_q (filter (\<lambda>r. of_row r = k) data)))" and "k \<in> of_row ` set data"
      then obtain row where "(k, row) \<in> set (zip ks rows)" using dom [of k] by auto
      with all show "\<exists>d. (k, JObj d) \<in> set (zip ks rows) \<and> row_says d (map value_q (filter (\<lambda>r. of_row r = k) data))"
        by blast
    qed
    finally show ?thesis by auto
  qed
  then show ?thesis unfolding group_answer_def groups_say_def keys by (intro iff_exI conj_cong refl)
qed

lemma case_spec_data:
  assumes "magnitude data < 2 ^ 53"
  shows "(\<forall>q \<in> set (query_cases names (oracle_of data) base_us n).
      case_spec (oracle_of data) (start_of base_us n) (end_of base_us n) (qc_name q) (reply (qc_name q))) \<longleftrightarrow>
    answers_from data (start_of base_us n) (end_of base_us n) reply"
proof -
  have all: "row_states d (row_stats data) \<longleftrightarrow> row_says d (map value_q data)" for d
    using row_states_data [OF assms, of d "\<lambda>_. True"] by simp
  have sel: "magnitude (filter is_selected data) < 2 ^ 53" using magnitude_filter [of is_selected data] assms by linarith
  have win: "window_answer (selected_window (oracle_of data) 5) rows \<longleftrightarrow>
      list_all2 (\<lambda>row (t, q). window_row row = Inr (t, Fin (of_int q / 4))) rows
        (take 5 (rev (sort (map (\<lambda>r. (timestamp_us r, value_q r)) (filter is_selected data)))))" for rows
  proof -
    have "quarter_float q = of_int q / 4"
      if "(t, q) \<in> set (take 5 (rev (sort (map (\<lambda>r. (timestamp_us r, value_q r)) (filter is_selected data)))))" for t q
    proof -
      from that obtain r where "r \<in> set data" "q = value_q r" by (auto dest!: in_set_takeD)
      then have "\<bar>q\<bar> < 2 ^ 53" using sum_abs_member [of q "map value_q data"] assms by (simp add: comp_def)
      then show ?thesis by (rule quarter_float_exact)
    qed
    then show ?thesis
      unfolding window_answer_def selected_window_eq list_all2_map2
      by (intro list.rel_cong_simp refl) (auto simp: simp_implies_def)
  qed
  have orc: "all_stats (oracle_of data) = row_stats data" "tenants (oracle_of data) = group_by tenant data"
      "selected_buckets (oracle_of data) = group_by (\<lambda>r. bucket_of (timestamp_us r)) (filter is_selected data)"
    by (simp_all add: oracle_of_eq)
  show ?thesis
    unfolding query_cases_def
    by (simp add: recent_case_def full_case_def group_case_def minute_case_def window_case_def case_spec_def
        answers_from_def single_answer_def selected_recent_eq row_states_data [OF assms] all orc
        group_answer_data [OF assms] group_answer_data [OF sel] win)
qed

text \<open>
  C3: while the servers' answers do not change, the query suite returns exactly if both servers
  answer all five cases with what the stored rows say: the exact count, sum, minimum and maximum
  of the recent window, of all rows, of every tenant and of every minute bucket, with no group
  missing, repeated or invented, and the five latest samples in order. It never accepts a wrong
  answer and never refuses a right one, as long as the quarter values add up to less than 2^53.
\<close>

theorem query_suite_exact:
  assumes "magnitude data < 2 ^ 53" "returns P (sv_now sv)" "\<And>d. returns P (flush d)"
    and "\<And>backend q. backend \<in> {''varve'', ''timescale''} \<Longrightarrow> q \<in> set (query_cases names (oracle_of data) base_us m) \<Longrightarrow>
      stable P (execute_case sv vc pc backend q) (reply backend (qc_name q))"
    and "set backend_order = {''varve'', ''timescale''}" "P w"
  shows "(\<exists>out w'. run_query_suite sv vc pc (query_cases names (oracle_of data) base_us m) n flush backend_order describe_error w =
      (Inr out, w')) \<longleftrightarrow>
    (\<forall>backend \<in> {''varve'', ''timescale''}. answers_from data (start_of base_us m) (end_of base_us m) (reply backend))"
proof -
  let ?spec = "case_spec (oracle_of data) (start_of base_us m) (end_of base_us m)"
  have "(\<exists>out w'. run_query_suite sv vc pc (query_cases names (oracle_of data) base_us m) n flush backend_order describe_error w =
      (Inr out, w')) \<longleftrightarrow>
    (\<forall>backend \<in> {''varve'', ''timescale''}. \<forall>q \<in> set (query_cases names (oracle_of data) base_us m).
      ?spec (qc_name q) (reply backend (qc_name q)))"
    by (rule suite_outcome [where P = P and spec = ?spec and reply = reply,
        OF query_cases_check assms(2) assms(3) assms(4) assms(5) assms(6)])
  then show ?thesis by (simp only: case_spec_data [OF assms(1)])
qed

definition empty_sql :: "string \<Rightarrow> json list" where
  "empty_sql s =
     (if s = qc_varve_sql (recent_case example_names empty_oracle 0 2000000) \<or> s = qc_varve_sql (full_case example_names empty_oracle)
      then [JObj [(''n'', JInt 0), (''total'', JInt 0)]] else [])"

definition empty_pg :: "statement \<Rightarrow> dict list" where
  "empty_pg s =
     (if s = qc_postgres_sql (recent_case example_names empty_oracle 0 2000000) \<or> s = qc_postgres_sql (full_case example_names empty_oracle)
      then [[(''n'', JInt 0), (''total'', JInt 0)]] else [])"

definition empty_reply :: "string \<Rightarrow> json list" where
  "empty_reply name =
     (if name = ''recent_series_time_filter'' \<or> name = ''full_count_sum'' then [JObj [(''n'', JInt 0), (''total'', JInt 0)]] else [])"

lemma empty_replies:
  assumes "q \<in> set (query_cases example_names (oracle_of []) 0 0)"
  shows "empty_sql (qc_varve_sql q) = empty_reply (qc_name q)" "map JObj (empty_pg (qc_postgres_sql q)) = empty_reply (qc_name q)"
proof -
  have orc: "oracle_of [] = empty_oracle" by (simp add: oracle_of_def oracle_extend_def)
  have ends: "start_of 0 0 = 0" "end_of 0 0 = 2000000" by (simp_all add: start_of_def end_of_def)
  from assms show "empty_sql (qc_varve_sql q) = empty_reply (qc_name q)" "map JObj (empty_pg (qc_postgres_sql q)) = empty_reply (qc_name q)"
    unfolding query_cases_def orc ends
    by (auto simp: empty_sql_def empty_pg_def empty_reply_def recent_case_def full_case_def group_case_def minute_case_def
        window_case_def raw_projection_def pg_projection_def qualified_name_def)
qed

theorem query_suite_exact_witness:
  "\<exists>out. run_query_suite (canned_services (\<lambda>_. JNull) empty_sql empty_pg) canned_varve canned_pg
      (query_cases example_names (oracle_of []) 0 0) 3 (\<lambda>_. io_return ()) [''varve'', ''timescale''] (\<lambda>_. []) () = (Inr out, ())"
proof -
  let ?sv = "canned_services (\<lambda>_. JNull) empty_sql empty_pg :: unit services"
  have size: "json_plain (JList (empty_sql s)) \<and> length (utf8 (json_text False True (JList (empty_sql s)))) \<le> 16777216" for s
    by (simp add: empty_sql_def utf8_def utf8_char_def enc_str_def esc_char_def dec_int_def dec_nat.simps)
  have stable: "stable (\<lambda>_. True) (execute_case ?sv canned_varve canned_pg backend q) (empty_reply (qc_name q))"
    if "q \<in> set (query_cases example_names (oracle_of []) 0 0)" for backend q
    by (simp add: stable_def execute_case_def empty_replies [OF that] canned_query
        canned_sql [where s = empty_sql, OF conjunct1 [OF size] conjunct2 [OF size]])
  have "fl 0 = 0" by simp
  then have "row_says [(''n'', JInt 0), (''total'', JInt 0)] []"
    by (simp add: row_says_def count_field_def sum_field_def py_to_int_def optional_float_def py_to_float_def
        int_to_float_def to_float_def dget_def)
  then have ans: "answers_from [] (start_of 0 0) (end_of 0 0) empty_reply"
    by (simp add: answers_from_def empty_reply_def groups_say_def)
  have "\<exists>out w'. run_query_suite ?sv canned_varve canned_pg (query_cases example_names (oracle_of []) 0 0) 3 (\<lambda>_. io_return ())
      [''varve'', ''timescale''] (\<lambda>_. []) () = (Inr out, w')"
    using query_suite_exact [where P = "\<lambda>_. True" and data = "[]" and sv = ?sv and vc = canned_varve and pc = canned_pg
        and flush = "\<lambda>_. io_return ()" and names = example_names and base_us = 0 and m = 0 and reply = "\<lambda>_. empty_reply"
        and backend_order = "[''varve'', ''timescale'']" and w = "()" and n = 3 and describe_error = "\<lambda>_. []"]
      stable ans by (simp add: returns_def)
  then show ?thesis by simp
qed

section \<open>The recent window is never empty\<close>

lemma selected_series:
  assumes "0 \<le> i" "i mod 4096 = 0"
  shows "is_selected (measurement_row i base_us)"
proof -
  obtain k where "i = 4096 * k" using assms(2) by auto
  then show ?thesis
    by (simp add: is_selected_def selected_def measurement_row_def Let_def SERIES_COUNT_def TENANT_COUNT_def
        tenant_name_def series_name_def dec_int_def dec_nat.simps zpad_def numeral_3_eq_3)
qed

lemma window_arith: "c - 3 \<le> d \<Longrightarrow> b + (c + 2) * 1000000 - 60000000 \<le> b + d * (1000000 :: int)"
  by (simp add: distrib_right)

lemma window_arith_less: "d \<le> c \<Longrightarrow> b + d * 1000000 < b + (c + 2) * (1000000 :: int)"
  by (simp add: distrib_right)

text \<open>
  C36: for any nonempty initial load, with any late rows added, the recent window of the first
  query selects at least one row and exactly the same rows as without the late ones. Its
  expected minimum and maximum therefore exist, and the answer never has a NULL sum, which the
  comparison with the oracle would refuse.
\<close>

theorem recent_window_nonempty:
  assumes "0 < n" "0 \<le> k"
  shows "0 < st_count (selected_recent
      (oracle_of (map (\<lambda>i. measurement_row i base_us) [0..n - 1] @ map (\<lambda>i. late_row i base_us) [0..k - 1]))
      (start_of base_us n) (end_of base_us n)) \<and>
    selected_recent (oracle_of (map (\<lambda>i. measurement_row i base_us) [0..n - 1] @ map (\<lambda>i. late_row i base_us) [0..k - 1]))
      (start_of base_us n) (end_of base_us n) =
    selected_recent (oracle_of (map (\<lambda>i. measurement_row i base_us) [0..n - 1])) (start_of base_us n) (end_of base_us n)"
proof -
  let ?i = "4096 * ((n - 1) div 4096)"
  let ?in = "\<lambda>r. is_selected r \<and> start_of base_us n \<le> timestamp_us r \<and> timestamp_us r < end_of base_us n"
  let ?rows = "map (\<lambda>i. measurement_row i base_us) [0..n - 1]"
  let ?late = "map (\<lambda>i. late_row i base_us) [0..k - 1]"
  have i: "0 \<le> ?i" "?i \<le> n - 1"
    using assms(1) mult_div_mod_eq [of 4096 "n - 1"] pos_mod_sign [of 4096 "n - 1"] by (simp_all add: pos_imp_zdiv_nonneg_iff)
  have ts: "timestamp_us (measurement_row ?i base_us) = base_us + 4 * ((n - 1) div 4096) * 1000000"
    by (simp add: measurement_row_def Let_def SERIES_COUNT_def)
  have div: "(n - 1) div 1024 - 3 \<le> 4 * ((n - 1) div 4096)" "4 * ((n - 1) div 4096) \<le> (n - 1) div 1024"
  proof -
    have q: "(n - 1) div 4096 = (n - 1) div 1024 div 4" using zdiv_zmult2_eq [of 4 "n - 1" 1024] by simp
    have "c - 3 \<le> 4 * (c div 4) \<and> 4 * (c div 4) \<le> c" for c :: int by presburger
    then show "(n - 1) div 1024 - 3 \<le> 4 * ((n - 1) div 4096)" "4 * ((n - 1) div 4096) \<le> (n - 1) div 1024"
      unfolding q by blast+
  qed
  have "?in (measurement_row ?i base_us)"
  proof (intro conjI)
    have m: "max 0 (n - 1) = n - 1" using assms(1) by simp
    show "is_selected (measurement_row ?i base_us)" using i(1) by (intro selected_series) simp_all
    show "start_of base_us n \<le> timestamp_us (measurement_row ?i base_us)"
    proof -
      have "base_us + ((n - 1) div 1024 + 2) * 1000000 - 60000000 \<le> base_us + 4 * ((n - 1) div 4096) * 1000000"
        using div(1) by (rule window_arith)
      moreover have "base_us \<le> base_us + 4 * ((n - 1) div 4096) * 1000000" using i(1) by simp
      ultimately show ?thesis unfolding ts start_of_def end_of_def m max.bounded_iff by blast
    qed
    show "timestamp_us (measurement_row ?i base_us) < end_of base_us n"
      unfolding ts end_of_def m using div(2) by (rule window_arith_less)
  qed
  moreover have "measurement_row ?i base_us \<in> set ?rows"
    unfolding set_map set_upto using i by (intro imageI) (simp only: atLeastAtMost_iff)
  ultimately have "filter ?in ?rows \<noteq> []" unfolding filter_empty_conv by blast
  moreover have "filter ?in ?late = []"
  proof -
    have "timestamp_us (late_row j base_us) < base_us" for j
      using pos_mod_bound [of 16 j] pos_mod_sign [of 16 j] pos_mod_bound [of 1024 "j * 73"]
      by (simp add: late_row_def Let_def SERIES_COUNT_def)
    moreover have "base_us \<le> start_of base_us n" by (simp add: start_of_def)
    ultimately have "\<not> ?in (late_row j base_us)" for j by (meson less_le_trans not_less)
    then show ?thesis by (simp add: filter_empty_conv)
  qed
  moreover have "0 < st_count (row_stats rows)" if "rows \<noteq> []" for rows
    using that by (simp add: row_stats_def stats_spec_def)
  ultimately show ?thesis unfolding selected_recent_eq filter_append by (simp only: append_Nil2 simp_thms)
qed

theorem recent_window_nonempty_witness:
  "0 < st_count (selected_recent
      (oracle_of (map (\<lambda>i. measurement_row i 0) [0..5000 - 1] @ map (\<lambda>i. late_row i 0) [0..100 - 1]))
      (start_of 0 5000) (end_of 0 5000))"
  by (rule recent_window_nonempty [THEN conjunct1]) simp_all

section \<open>Reading statistics back\<close>

lemma to_float_int:
  assumes "\<bar>k\<bar> < 2 ^ 53"
  shows "to_float (of_int k) = Fin (of_int k)"
proof -
  have "\<bar>of_int k :: rat\<bar> < of_int (2 ^ 53)" using assms by (metis of_int_abs of_int_less_iff)
  also have "\<dots> = 2 ^ 53" by simp
  also have "\<dots> \<le> (2 :: rat) ^ 1024" by (rule power_increasing) simp_all
  finally have big: "\<not> (2 :: rat) ^ 1024 \<le> of_int k" "\<not> of_int k \<le> - ((2 :: rat) ^ 1024)" by linarith+
  show ?thesis unfolding to_float_def Let_def b64.int_exact [OF assms] if_not_P [OF big(1)] if_not_P [OF big(2)] ..
qed

lemma quarters_of_float:
  assumes "\<bar>k\<bar> < 2 ^ 53"
  shows "quarters (JFloat (Fin (quarter_float k))) = Inr k"
  by (simp add: quarters_def py_to_float_def times_four_def py_round_def quarter_float_exact [OF assms] to_float_int [OF assms])

definition exact_stats :: "Stats \<Rightarrow> bool" where
  "exact_stats s \<longleftrightarrow> \<bar>sum_q s\<bar> < 2 ^ 53 \<and> pred_option (\<lambda>q. \<bar>q\<bar> < 2 ^ 53) (min_q s) \<and> pred_option (\<lambda>q. \<bar>q\<bar> < 2 ^ 53) (max_q s)"

text \<open>
  C37: the statistics of an oracle that are written into the report as floats are read back by
  the verification run as the very integers they came from, empty minima and maxima included,
  as long as the quarter values are below 2^53.
\<close>

theorem expected_stats_round_trip:
  assumes "exact_stats s"
  shows "expected_stats (stats_json s) = Inr s"
proof -
  have "optional_quarters (quarter_json q) = Inr q" if "pred_option (\<lambda>q. \<bar>q\<bar> < 2 ^ 53) q" for q
    using that by (cases q) (simp_all add: optional_quarters_def quarter_json_def quarters_of_float)
  then show ?thesis
    using assms by (simp add: expected_stats_def stats_json_def exact_stats_def dindex_def dget_def py_to_int_def quarters_of_float)
qed

theorem expected_stats_round_trip_witness:
  "expected_stats (stats_json (row_stats [measurement_row 0 0, late_row 1 0])) = Inr (row_stats [measurement_row 0 0, late_row 1 0])"
  by (rule expected_stats_round_trip)
    (simp add: exact_stats_def row_stats_def stats_spec_def measurement_row_def late_row_def Let_def)

end
