(* ===== verification/Maintenance.thy ===== *)
theory Maintenance
  imports Queries
begin

text \<open>
  The steps between the load and the checks: checkpoint and compaction in Varve, the conversion
  of the Timescale chunks to columnar storage, the snapshot of the servers' own counters, and the
  read behind a stable watermark that both servers must answer with the statistics of the
  initial rows while late rows are still arriving.
\<close>

section \<open>Checkpoint and compaction\<close>

definition run_job_sql :: "string \<Rightarrow> string" where
  "run_job_sql job = ''CALL varve_run_job('' @ sql_literal job @ '')''"

definition status_keys :: "string list" where
  "status_keys = [''sequence'', ''checkpoint_sequence'', ''hot_rows'', ''segments'']"

definition status_part :: "json \<Rightarrow> json result" where
  "status_part v = (case v of
     JObj d \<Rightarrow> Inr (JObj (map (\<lambda>k. (k, dget d k)) status_keys))
   | _ \<Rightarrow> Inl (AttributeError ''get''))"

definition checkpoint_varve :: "'w services \<Rightarrow> VarveClient \<Rightarrow> Names \<Rightarrow> ('w, dict) io" where
  "checkpoint_varve sv vc names =
     io_bind (varve_request sv vc ''GET'' ''/v1/status'' None) (\<lambda>before.
     io_bind (timed sv (io_then (varve_sql sv vc (run_job_sql (checkpoint_job names))) (io_return ()))) (\<lambda>checkpoint_seconds.
     io_bind (timed sv (io_then (varve_sql sv vc (run_job_sql (compact_job names))) (io_return ()))) (\<lambda>compact_seconds.
     io_bind (varve_request sv vc ''GET'' ''/v1/status'' None) (\<lambda>after.
     io_lift (ebind (status_part before) (\<lambda>status_before. ebind (status_part after) (\<lambda>status_after. Inr
       [(''checkpoint_seconds'', JFloat (Fin checkpoint_seconds)),
        (''compaction_seconds'', JFloat (Fin compact_seconds)),
        (''commands'', JList (map (\<lambda>job. JStr (''CALL varve_run_job('' @ sq @ job @ sq @ '')'')) [checkpoint_job names, compact_job names])),
        (''status_before'', status_before), (''status_after'', status_after)])))))))"

section \<open>Columnar conversion\<close>

text \<open>
  The two ways to convert, which the source spells out one after the other: the procedure, the
  path it is reported as, the settings of the table, and the further argument of the function
  form.
\<close>

record conversion =
  cv_procedure :: string
  cv_path :: string
  cv_settings :: string
  cv_extra :: string

definition columnstore :: conversion where
  "columnstore = \<lparr>cv_procedure = ''convert_to_columnstore'', cv_path = ''hypercore_columnstore'',
     cv_settings = ''(timescaledb.enable_columnstore=true, timescaledb.segmentby='' @ sq @ ''tenant,series'' @ sq @
       '', timescaledb.orderby='' @ sq @ ''ts DESC'' @ sq @ '')'',
     cv_extra = []\<rparr>"

definition legacy_compression :: conversion where
  "legacy_compression = \<lparr>cv_procedure = ''compress_chunk'', cv_path = ''legacy_compression'',
     cv_settings = ''(timescaledb.compress=true, timescaledb.compress_segmentby='' @ sq @ ''tenant,series'' @ sq @
       '', timescaledb.compress_orderby='' @ sq @ ''ts DESC'' @ sq @ '')'',
     cv_extra = '', if_not_compressed => true''\<rparr>"

definition procedures_stmt :: statement where
  "procedures_stmt = [Sql (''SELECT p.proname, p.prokind, p.oid::regprocedure::text AS signature '' @
     ''FROM pg_proc p JOIN pg_namespace n ON n.oid=p.pronamespace '' @
     ''WHERE p.proname IN ('' @ sq @ ''convert_to_columnstore'' @ sq @ '','' @ sq @ ''compress_chunk'' @ sq @ '') ORDER BY p.proname'')]"

definition proname_key :: "json \<Rightarrow> string result" where
  "proname_key row = ebind (field row ''proname'') (\<lambda>v. Inr (py_str v))"

text \<open>One chunk; the list of commands is extended once the statement has been executed.\<close>

definition chunk_call :: "conversion \<Rightarrow> json \<Rightarrow> string \<times> string" where
  "chunk_call cv kind = (if kind = JStr ''p'' then (''CALL '', []) else (''SELECT '', cv_extra cv))"

definition convert_chunk :: "'w services \<Rightarrow> TimescaleClient \<Rightarrow> conversion \<Rightarrow> json \<Rightarrow> json \<Rightarrow> ('w \<times> string list, unit) io" where
  "convert_chunk sv pc cv procedure row =
     io_bind (io_lift (field procedure ''prokind'')) (\<lambda>kind.
     io_bind (io_lift (field row ''chunk'')) (\<lambda>chunk.
     io_then (io_on (pg_query sv pc
        [Sql (fst (chunk_call cv kind) @ cv_procedure cv @ ''(%s::regclass'' @ snd (chunk_call cv kind) @ '')'')] [chunk]))
     (io_modify (\<lambda>commands. commands @
        [fst (chunk_call cv kind) @ cv_procedure cv @ ''('' @ sq @ py_str chunk @ sq @ ''::regclass'' @ snd (chunk_call cv kind) @ '')'']))))"

definition converted_json :: "conversion \<Rightarrow> json list \<Rightarrow> json list \<Rightarrow> string list \<Rightarrow> rat \<Rightarrow> dict" where
  "converted_json cv procedures chunk_rows commands seconds =
     [(''status'', JStr ''converted''), (''path'', JStr (cv_path cv)), (''segmentby'', JStr ''tenant,series''),
      (''orderby'', JStr ''ts DESC''), (''chunks'', JInt (int (length chunk_rows))),
      (''procedure_introspection'', JList procedures), (''commands'', JList (map JStr commands)),
      (''seconds'', JFloat (Fin seconds))]"

definition io_elapsed :: "'w services \<Rightarrow> rat \<Rightarrow> ('w, rat) io" where
  "io_elapsed sv started = io_bind (sv_now sv) (\<lambda>now. io_return (fl (now - started)))"

definition convert_with :: "'w services \<Rightarrow> TimescaleClient \<Rightarrow> Names \<Rightarrow> rat \<Rightarrow> conversion \<Rightarrow> json \<Rightarrow> json list \<Rightarrow> json list \<Rightarrow> ('w \<times> string list, dict) io" where
  "convert_with sv pc names started cv procedure procedures chunk_rows =
     io_then (io_on (pg_execute sv pc [Sql ''ALTER TABLE '', qualified_name (pg_schema names) (pg_table names),
        Sql ('' SET '' @ cv_settings cv)] []))
     (io_then (io_modify (\<lambda>commands. commands @ [''ALTER TABLE measurements SET '' @ cv_settings cv]))
     (io_then (io_iter (convert_chunk sv pc cv procedure) chunk_rows)
     (io_bind io_get (\<lambda>commands.
     io_bind (io_on (io_elapsed sv started)) (\<lambda>seconds.
     io_return (converted_json cv procedures chunk_rows commands seconds))))))"

definition convert_body :: "'w services \<Rightarrow> TimescaleClient \<Rightarrow> Names \<Rightarrow> rat \<Rightarrow> (string \<times> json) list \<Rightarrow> json list \<Rightarrow> json list \<Rightarrow> ('w \<times> string list, dict) io" where
  "convert_body sv pc names started available procedures chunk_rows =
     (case map_of available ''convert_to_columnstore'' of
        Some procedure \<Rightarrow> convert_with sv pc names started columnstore procedure procedures chunk_rows
      | None \<Rightarrow> (case map_of available ''compress_chunk'' of
          Some procedure \<Rightarrow> convert_with sv pc names started legacy_compression procedure procedures chunk_rows
        | None \<Rightarrow> io_bind (io_on (io_elapsed sv started)) (\<lambda>seconds. io_return
            [(''status'', JStr ''unsupported''), (''reason'', JStr ''neither convert_to_columnstore nor compress_chunk exists''),
             (''procedure_introspection'', JList procedures), (''commands'', JList []), (''seconds'', JFloat (Fin seconds))])))"

definition convert_failed :: "'w services \<Rightarrow> rat \<Rightarrow> json list \<Rightarrow> pyerror \<Rightarrow> ('w \<times> string list, dict) io" where
  "convert_failed sv started procedures e =
     (if \<not> is_exception e then io_raise e
      else io_bind io_get (\<lambda>commands. io_bind (io_on (io_elapsed sv started)) (\<lambda>seconds. io_return
        [(''status'', JStr ''failed''),
         (''reason'', JStr (error_class e @ '': columnar conversion command failed; inspect database logs'')),
         (''procedure_introspection'', JList procedures), (''commands'', JList (map JStr commands)),
         (''seconds'', JFloat (Fin seconds))])))"

definition convert_timescale :: "'w services \<Rightarrow> TimescaleClient \<Rightarrow> Names \<Rightarrow> ('w, dict) io" where
  "convert_timescale sv pc names =
     io_bind (pg_query sv pc procedures_stmt []) (\<lambda>procedures.
     io_bind (io_lift (keyed proname_key procedures)) (\<lambda>available.
     io_bind (pg_query sv pc [Sql ''SELECT show_chunks(%s::regclass)::text AS chunk''] [JStr (pg_schema names @ ''.'' @ pg_table names)]) (\<lambda>chunk_rows.
     io_bind (sv_now sv) (\<lambda>started.
     io_local [] (io_catch (convert_body sv pc names started available procedures chunk_rows)
       (convert_failed sv started procedures))))))"

section \<open>Snapshots of the servers\<close>

definition database_stmt :: statement where
  "database_stmt = [Sql (''SELECT datname AS database_name, numbackends, xact_commit, xact_rollback, '' @
     ''blks_read, blks_hit, tup_returned, tup_fetched, tup_inserted, temp_files, '' @
     ''temp_bytes FROM pg_stat_database WHERE datname = current_database()'')]"

definition runtime_snapshot :: "'w services \<Rightarrow> VarveClient \<Rightarrow> TimescaleClient \<Rightarrow> string \<Rightarrow> ('w, dict) io" where
  "runtime_snapshot sv vc pc label =
     io_bind (sv_utc sv) (\<lambda>observed_at.
     io_bind (varve_request sv vc ''GET'' ''/v1/status'' None) (\<lambda>status.
     io_bind (varve_text sv vc ''GET'' ''/metrics'') (\<lambda>metrics.
     io_bind (pg_query sv pc database_stmt []) (\<lambda>database.
     io_return
       [(''label'', JStr label), (''observed_at'', JStr observed_at), (''varve_status'', status),
        (''varve_metrics_text'', JStr metrics),
        (''timescale_pg_stat_database'', (case database of [] \<Rightarrow> JNull | row # _ \<Rightarrow> row)),
        (''scope'', JStr ''database API/status snapshot; platform CPU, memory, disk, and process identity are external'')]))))"

section \<open>The stable read\<close>

definition stable_varve_sql :: "Names \<Rightarrow> int \<Rightarrow> int \<Rightarrow> string" where
  "stable_varve_sql names base_us end_us =
     ''SELECT '' @ raw_projection @ '' FROM '' @ varve_table names @
     '' WHERE timestamp_us >= '' @ dec_int base_us @ '' AND timestamp_us < '' @ dec_int end_us"

definition stable_pg_sql :: "Names \<Rightarrow> int \<Rightarrow> int \<Rightarrow> statement" where
  "stable_pg_sql names base_us end_us =
     [Sql (''SELECT '' @ pg_projection @ '' FROM ''), qualified_name (pg_schema names) (pg_table names),
      Sql '' WHERE ts >= to_timestamp('', Lit (JInt base_us), Sql ''/1000000.0) AND ts < to_timestamp('',
      Lit (JInt end_us), Sql ''/1000000.0)'']"

definition timed_read :: "'w services \<Rightarrow> ('w, json list) io \<Rightarrow> Stats \<Rightarrow> string \<Rightarrow> ('w, rat) io" where
  "timed_read sv call baseline label =
     io_bind (sv_now sv) (\<lambda>started.
     io_bind call (\<lambda>rows.
     io_bind (sv_now sv) (\<lambda>finished.
     io_bind (io_lift (if length rows \<noteq> 1 then Inl (RuntimeError (label @ '' returned an unexpected row count''))
                       else assert_stats (rows ! 0) baseline label)) (\<lambda>_.
     io_return (milliseconds started finished)))))"

definition stable_mixed_read :: "'w services \<Rightarrow> VarveClient \<Rightarrow> TimescaleClient \<Rightarrow> Names \<Rightarrow> Stats \<Rightarrow> int \<Rightarrow> int \<Rightarrow> ('w, rat \<times> rat) io" where
  "stable_mixed_read sv vc pc names baseline base_us end_us =
     io_bind (timed_read sv (varve_sql sv vc (stable_varve_sql names base_us end_us)) baseline ''mixed Varve stable-watermark read'') (\<lambda>a.
     io_bind (timed_read sv (pg_query sv pc (stable_pg_sql names base_us end_us) []) baseline ''mixed Timescale stable-watermark read'') (\<lambda>b.
     io_return (a, b)))"

section \<open>The conversion reports its own failure\<close>

text \<open>
  \<open>catchable\<close> programs raise only what \<^verbatim>\<open>except Exception\<close> catches.
\<close>

definition catchable :: "('w, 'a) io \<Rightarrow> bool" where
  "catchable m \<longleftrightarrow> (\<forall>w e w'. m w = (Inl e, w') \<longrightarrow> is_exception e)"

lemma catchableD: "catchable m \<Longrightarrow> m w = (Inl e, w') \<Longrightarrow> is_exception e"
  unfolding catchable_def by blast

lemma catchable_bind: "catchable m \<Longrightarrow> (\<And>x. catchable (f x)) \<Longrightarrow> catchable (io_bind m f)"
  unfolding catchable_def io_bind_def by (auto split: prod.splits sum.splits)

lemma catchable_return: "catchable (io_return x)"
  by (simp add: catchable_def)

lemma catchable_lift: "(\<And>e. r = Inl e \<Longrightarrow> is_exception e) \<Longrightarrow> catchable (io_lift r)"
  by (simp add: catchable_def)

lemma catchable_query:
  assumes "catchable (sv_now sv)" "\<And>c t. catchable (sv_pg sv c stmt params t)"
  shows "catchable (pg_query sv pc stmt params)"
proof -
  have "catchable (io_timeout sv d p)" for d p
    unfolding io_timeout_def using assms(1)
    by (intro catchable_bind catchable_lift) (auto simp: dl_timeout_def is_exception_def Let_def split: if_splits)
  then show ?thesis
    unfolding pg_query_def using assms(2)
    by (intro catchable_bind catchable_lift catchable_return) (auto simp: pg_conn_def is_exception_def split: option.splits)
qed

lemma field_exception: "field v k = Inl e \<Longrightarrow> is_exception e"
  by (auto simp: field_def dindex_def is_exception_def split: json.splits option.splits)

lemma convert_chunk_outcome:
  assumes "catchable (sv_now sv)" "\<And>c stmt params t. catchable (sv_pg sv c stmt params t)"
  shows "\<exists>r w' cs'. convert_chunk sv pc cv procedure row (w, cs) = (r, (w', cs')) \<and>
    (case r of Inr _ \<Rightarrow> length cs' = Suc (length cs) | Inl e \<Rightarrow> is_exception e \<and> cs' = cs)"
proof (cases "field procedure ''prokind''")
  case (Inl e)
  then show ?thesis using field_exception by (auto simp: convert_chunk_def)
next
  case kind: (Inr kind)
  show ?thesis
  proof (cases "field row ''chunk''")
    case (Inl e)
    then show ?thesis using field_exception kind by (auto simp: convert_chunk_def)
  next
    case (Inr chunk)
    let ?q = "pg_query sv pc [Sql (fst (chunk_call cv kind) @ cv_procedure cv @ ''(%s::regclass'' @ snd (chunk_call cv kind) @ '')'')] [chunk]"
    obtain r w' where run: "?q w = (r, w')" by (rule prod.exhaust)
    show ?thesis
    proof (cases r)
      case (Inl e)
      with run have "is_exception e" using catchableD [OF catchable_query [OF assms]] by blast
      with Inl run kind Inr show ?thesis by (simp add: convert_chunk_def io_then_def io_bind_def)
    next
      case ran: (Inr rows)
      with run kind Inr show ?thesis by (simp add: convert_chunk_def io_then_def io_bind_def)
    qed
  qed
qed

lemma convert_chunks_outcome:
  assumes "catchable (sv_now sv)" "\<And>c stmt params t. catchable (sv_pg sv c stmt params t)"
  shows "\<exists>r w' cs'. io_iter (convert_chunk sv pc cv procedure) rows (w, cs) = (r, (w', cs')) \<and>
    (case r of Inr _ \<Rightarrow> length cs' = length cs + length rows | Inl e \<Rightarrow> is_exception e \<and> length cs' < length cs + length rows)"
proof (induction rows arbitrary: w cs)
  case (Cons row rows)
  obtain r w1 cs1 where 1: "convert_chunk sv pc cv procedure row (w, cs) = (r, (w1, cs1))"
    "case r of Inr _ \<Rightarrow> length cs1 = Suc (length cs) | Inl e \<Rightarrow> is_exception e \<and> cs1 = cs"
    using convert_chunk_outcome [where sv = sv, OF assms] by blast
  obtain r2 w2 cs2 where 2: "io_iter (convert_chunk sv pc cv procedure) rows (w1, cs1) = (r2, (w2, cs2))"
    "case r2 of Inr _ \<Rightarrow> length cs2 = length cs1 + length rows | Inl e \<Rightarrow> is_exception e \<and> length cs2 < length cs1 + length rows"
    using Cons.IH by blast
  show ?case using 1 2 by (cases r; cases r2) (auto simp: io_then_def io_bind_def)
qed auto

lemma convert_with_outcome:
  assumes "catchable (sv_now sv)" "\<And>c stmt params t. catchable (sv_pg sv c stmt params t)" "returns (\<lambda>_. True) (sv_now sv)"
  shows "\<exists>r w' cs'. convert_with sv pc names started cv procedure procedures chunk_rows (w, []) = (r, (w', cs')) \<and>
    (case r of Inr d \<Rightarrow> \<exists>seconds. length cs' = Suc (length chunk_rows) \<and> d = converted_json cv procedures chunk_rows cs' seconds
     | Inl e \<Rightarrow> is_exception e \<and> length cs' \<le> length chunk_rows)"
proof -
  let ?alter = "pg_execute sv pc [Sql ''ALTER TABLE '', qualified_name (pg_schema names) (pg_table names), Sql ('' SET '' @ cv_settings cv)] []"
  let ?cs = "[''ALTER TABLE measurements SET '' @ cv_settings cv]"
  obtain r w1 where 1: "?alter w = (r, w1)" by (rule prod.exhaust)
  have "catchable ?alter"
    unfolding pg_execute_def io_then_def by (intro catchable_bind catchable_query catchable_return assms)
  then have exc: "is_exception e" if "r = Inl e" for e using 1 that by (simp add: catchableD)
  obtain r2 w2 cs2 where 2: "io_iter (convert_chunk sv pc cv procedure) chunk_rows (w1, ?cs) = (r2, (w2, cs2))"
    "case r2 of Inr _ \<Rightarrow> length cs2 = length ?cs + length chunk_rows | Inl e \<Rightarrow> is_exception e \<and> length cs2 < length ?cs + length chunk_rows"
    using convert_chunks_outcome [where sv = sv and pc = pc and cv = cv and procedure = procedure and rows = chunk_rows and w = w1 and cs = ?cs, OF assms(1,2)]
    by (elim exE conjE)
  obtain t w3 where 3: "sv_now sv w2 = (Inr t, w3)" by (rule returnsE [OF assms(3) TrueI])
  show ?thesis
  proof (cases r)
    case (Inl e)
    with 1 exc [OF Inl] show ?thesis by (simp add: convert_with_def io_then_def io_bind_def)
  next
    case r: (Inr u)
    have iter: "convert_with sv pc names started cv procedure procedures chunk_rows (w, []) =
      (case r2 of Inl e \<Rightarrow> (Inl e, (w2, cs2)) | Inr _ \<Rightarrow> (Inr (converted_json cv procedures chunk_rows cs2 (fl (t - started))), (w3, cs2)))"
      using 1 2(1) 3 r by (cases r2) (simp_all add: convert_with_def io_then_def io_bind_def io_elapsed_def)
    show ?thesis using 2(2) unfolding iter by (cases r2) auto
  qed
qed


text \<open>A server that lists one procedure and two chunks, and refuses every other statement.\<close>

definition refusing_pg :: "unit services" where
  "refusing_pg = (canned_services (\<lambda>_. JNull) (\<lambda>_. []) (\<lambda>_. []))\<lparr>
     sv_pg := (\<lambda>c stmt params t. io_lift
       (if stmt = procedures_stmt then Inr (Some [[(''proname'', JStr ''compress_chunk''), (''prokind'', JStr ''f'')]])
        else if stmt = [Sql ''SELECT show_chunks(%s::regclass)::text AS chunk''] then Inr (Some [[(''chunk'', JStr ''c1'')], [(''chunk'', JStr ''c2'')]])
        else Inl (ExternalError ''InsufficientPrivilege'' ''must be owner'')))\<rparr>"


end
