(* ===== verification/Copy_Batch.thy ===== *)
theory Copy_Batch
  imports Setup
begin

text \<open>
  Writing one batch to PostgreSQL (\<^verbatim>\<open>copy_batch\<close>): a receipt row keyed by the batch identity
  makes the write happen at most once. The server is a parameter; \<open>pg_contract\<close> states what
  its documentation promises for the statements the driver sends, including that a failed
  commit may or may not have taken effect.
\<close>

section \<open>The statements\<close>

definition receipts_of :: "Names \<Rightarrow> sql_part" where
  "receipts_of names = qualified_name (pg_schema names) (pg_receipts names)"

definition measurements_of :: "Names \<Rightarrow> sql_part" where
  "measurements_of names = qualified_name (pg_schema names) (pg_table names)"

definition single_insert :: "Names \<Rightarrow> statement" where
  "single_insert names = [
     Sql ''WITH receipt AS (INSERT INTO '', receipts_of names, Sql ('' (batch_id, row_count, payload_sha256) ''
       @ ''VALUES (%s, 1, %s) ON CONFLICT DO NOTHING RETURNING batch_id) INSERT INTO ''), measurements_of names,
     Sql ('' (ts, tenant, series, value, tags) SELECT %s, %s, %s, %s, %s WHERE EXISTS (SELECT 1 FROM receipt) ''
       @ ''RETURNING 1 AS inserted'')]"

definition receipt_select :: "bool \<Rightarrow> Names \<Rightarrow> statement" where
  "receipt_select locked names = [
     Sql ''SELECT row_count, payload_sha256 FROM '', receipts_of names,
     Sql (if locked then '' WHERE batch_id = %s FOR UPDATE'' else '' WHERE batch_id = %s'')]"

definition receipt_insert :: "Names \<Rightarrow> statement" where
  "receipt_insert names = [
     Sql ''INSERT INTO '', receipts_of names,
     Sql ('' (batch_id, row_count, payload_sha256) VALUES (%s, %s, %s) ON CONFLICT DO NOTHING RETURNING batch_id'')]"

definition copy_stmt :: "Names \<Rightarrow> statement" where
  "copy_stmt names = [Sql ''COPY '', measurements_of names, Sql '' (ts, tenant, series, value, tags) FROM STDIN'']"

definition single_params :: "string \<Rightarrow> string \<Rightarrow> pg_row \<Rightarrow> json list" where
  "single_params batch_id digest row =
     (case row of (ts, tn, sr, v, tags) \<Rightarrow>
        [JStr batch_id, JStr digest, JInt ts, JStr tn, JStr sr, JFloat (Fin v), JObj tags])"

section \<open>copy_batch\<close>

text \<open>
  \<^verbatim>\<open>async with connection.transaction()\<close>: commit when the body ends normally, a \<^verbatim>\<open>return\<close>
  included; roll back when it raises.
\<close>

definition io_transaction :: "'w services \<Rightarrow> nat \<Rightarrow> rat \<Rightarrow> ('w, 'a) io \<Rightarrow> ('w, 'a) io" where
  "io_transaction sv c t body =
     io_then (sv_pg sv c [Sql ''BEGIN''] [] t)
       (\<lambda>w. case body w of
          (Inr x, w') \<Rightarrow> io_then (sv_pg sv c [Sql ''COMMIT''] [] t) (io_return x) w'
        | (Inl e, w') \<Rightarrow> (Inl e, snd (sv_pg sv c [Sql ''ROLLBACK''] [] t w')))"

definition fetchone :: "pg_answer \<Rightarrow> dict option" where
  "fetchone answer = (case answer of Some (row # _) \<Rightarrow> Some row | _ \<Rightarrow> None)"

definition check_stored :: "string \<Rightarrow> int \<Rightarrow> string \<Rightarrow> dict option \<Rightarrow> unit result" where
  "check_stored batch_id n digest stored =
     (let conflict = RuntimeError (''Timescale batch_id '' @ repr_str batch_id @ '' conflicts with its canonical payload digest'') in
      case stored of
        None \<Rightarrow> Inl conflict
      | Some row \<Rightarrow>
          ebind (dindex row ''row_count'') (\<lambda>c.
          if \<not> py_eq c (JInt n) then Inl conflict
          else ebind (dindex row ''payload_sha256'') (\<lambda>h. guard (py_eq h (JStr digest)) conflict)))"

definition copy_single :: "'w services \<Rightarrow> nat \<Rightarrow> bool \<Rightarrow> Names \<Rightarrow> string \<Rightarrow> Measurement \<Rightarrow> rat \<Rightarrow> ('w, bool) io" where
  "copy_single sv c autocommit names batch_id row t =
     (if \<not> autocommit then io_raise (RuntimeError ''single-row comparison requires autocommit durability'')
      else let digest = canonical_payload_digest [row] in
        io_bind (sv_pg sv c (single_insert names) (single_params batch_id digest (m_postgres row)) t) (\<lambda>result.
        if fetchone result \<noteq> None then io_return True
        else io_bind (sv_pg sv c (receipt_select False names) [JStr batch_id] t) (\<lambda>existing.
          io_then (io_lift (check_stored batch_id 1 digest (fetchone existing))) (io_return False))))"

definition copy_many :: "'w services \<Rightarrow> nat \<Rightarrow> Names \<Rightarrow> string \<Rightarrow> Measurement list \<Rightarrow> rat \<Rightarrow> ('w, bool) io" where
  "copy_many sv c names batch_id rows t =
     (let digest = canonical_payload_digest rows; n = int (length rows) in
      io_bind (sv_pg sv c (receipt_insert names) [JStr batch_id, JInt n, JStr digest] t) (\<lambda>receipt.
      if fetchone receipt = None then
        io_bind (sv_pg sv c (receipt_select True names) [JStr batch_id] t) (\<lambda>existing.
        io_then (io_lift (check_stored batch_id n digest (fetchone existing))) (io_return False))
      else
        io_then (sv_copy sv c (copy_stmt names) (map m_postgres rows) t) (io_return True)))"

definition copy_batch :: "'w services \<Rightarrow> nat \<Rightarrow> bool \<Rightarrow> Names \<Rightarrow> string \<Rightarrow> Measurement list \<Rightarrow> Deadline \<Rightarrow> ('w, bool) io" where
  "copy_batch sv c autocommit names batch_id rows deadline =
     io_bind (io_timeout sv deadline CALL_TIMEOUT) (\<lambda>t.
     (case rows of
        [row] \<Rightarrow> copy_single sv c autocommit names batch_id row t
      | _ \<Rightarrow> io_transaction sv c t (copy_many sv c names batch_id rows t)))"

section \<open>What PostgreSQL promises\<close>

text \<open>
  The contents of the run's two tables, and what one connection sees: the committed contents,
  and inside a transaction the contents it has built so far.
\<close>

record pg_db =
  db_receipts :: "string \<rightharpoonup> int \<times> string"
  db_rows :: "pg_row multiset"

record pg_view =
  committed :: pg_db
  pending_tx :: "pg_db option"

definition seen :: "pg_view \<Rightarrow> pg_db" where
  "seen v = (case pending_tx v of None \<Rightarrow> committed v | Some db \<Rightarrow> db)"

definition put :: "pg_view \<Rightarrow> pg_db \<Rightarrow> pg_view" where
  "put v db = (case pending_tx v of None \<Rightarrow> v\<lparr>committed := db\<rparr> | Some _ \<Rightarrow> v\<lparr>pending_tx := Some db\<rparr>)"

definition add_receipt :: "string \<Rightarrow> int \<Rightarrow> string \<Rightarrow> pg_db \<Rightarrow> pg_db" where
  "add_receipt b n h db = db\<lparr>db_receipts := (db_receipts db)(b \<mapsto> (n, h))\<rparr>"

definition add_rows :: "pg_row list \<Rightarrow> pg_db \<Rightarrow> pg_db" where
  "add_rows rows db = db\<lparr>db_rows := db_rows db + mset rows\<rparr>"

definition receipt_row :: "int \<times> string \<Rightarrow> dict" where
  "receipt_row r = [(''row_count'', JInt (fst r)), (''payload_sha256'', JStr (snd r))]"

text \<open>
  The outcomes the documentation allows: an answer and the view afterwards. A statement that
  fails leaves the view as it was, except that a failed autocommitted insert and a failed
  COMMIT may have taken effect before the failure was seen.
\<close>

definition insert_outcomes :: "string \<Rightarrow> int \<Rightarrow> string \<Rightarrow> pg_view \<Rightarrow> (pg_answer result \<times> pg_view) set" where
  "insert_outcomes b n h v =
     {(Inl e, v) | e. True} \<union>
     (if b \<in> dom (db_receipts (seen v)) then {(Inr (Some []), v)}
      else {(Inr (Some [[(''batch_id'', JStr b)]]), put v (add_receipt b n h (seen v)))})"

definition single_outcomes :: "string \<Rightarrow> string \<Rightarrow> pg_row \<Rightarrow> pg_view \<Rightarrow> (pg_answer result \<times> pg_view) set" where
  "single_outcomes b h row v =
     (let v' = put v (add_rows [row] (add_receipt b 1 h (seen v))) in
      {(Inl e, v) | e. True} \<union>
      (if b \<in> dom (db_receipts (seen v)) then {(Inr (Some []), v)}
       else insert (Inr (Some [[(''inserted'', JInt 1)]]), v') {(Inl e, v') | e. True}))"

definition select_outcomes :: "string \<Rightarrow> pg_view \<Rightarrow> (pg_answer result \<times> pg_view) set" where
  "select_outcomes b v =
     insert (Inr (Some (case db_receipts (seen v) b of None \<Rightarrow> [] | Some r \<Rightarrow> [receipt_row r])), v) {(Inl e, v) | e. True}"

definition begin_outcomes :: "pg_view \<Rightarrow> (pg_answer result \<times> pg_view) set" where
  "begin_outcomes v = insert (Inr None, v\<lparr>pending_tx := Some (committed v)\<rparr>) {(Inl e, v) | e. True}"

definition commit_outcomes :: "pg_view \<Rightarrow> (pg_answer result \<times> pg_view) set" where
  "commit_outcomes v =
     (let done_view = \<lparr>committed = seen v, pending_tx = None\<rparr> in
      insert (Inr None, done_view) ({(Inl e, done_view) | e. True} \<union> {(Inl e, v\<lparr>pending_tx := None\<rparr>) | e. True}))"

definition copy_outcomes :: "pg_row list \<Rightarrow> pg_view \<Rightarrow> (unit result \<times> pg_view) set" where
  "copy_outcomes rows v = insert (Inr (), put v (add_rows rows (seen v))) {(Inl e, v) | e. True}"

definition observed :: "('w \<Rightarrow> pg_view) \<Rightarrow> 'a result \<times> 'w \<Rightarrow> 'a result \<times> pg_view" where
  "observed view outcome = (fst outcome, view (snd outcome))"

definition pg_contract :: "'w services \<Rightarrow> Names \<Rightarrow> ('w \<Rightarrow> pg_view) \<Rightarrow> bool" where
  "pg_contract sv names view \<longleftrightarrow>
     (\<forall>w. view (snd (sv_now sv w)) = view w) \<and>
     (\<forall>c t w. observed view (sv_pg sv c [Sql ''BEGIN''] [] t w) \<in> begin_outcomes (view w)) \<and>
     (\<forall>c t w. observed view (sv_pg sv c [Sql ''COMMIT''] [] t w) \<in> commit_outcomes (view w)) \<and>
     (\<forall>c t w. view (snd (sv_pg sv c [Sql ''ROLLBACK''] [] t w)) = (view w)\<lparr>pending_tx := None\<rparr>) \<and>
     (\<forall>c t w b n h. observed view (sv_pg sv c (receipt_insert names) [JStr b, JInt n, JStr h] t w) \<in> insert_outcomes b n h (view w)) \<and>
     (\<forall>c t w b h row. observed view (sv_pg sv c (single_insert names) (single_params b h row) t w) \<in> single_outcomes b h row (view w)) \<and>
     (\<forall>c t w b locked. observed view (sv_pg sv c (receipt_select locked names) [JStr b] t w) \<in> select_outcomes b (view w)) \<and>
     (\<forall>c t w rows. observed view (sv_copy sv c (copy_stmt names) rows t w) \<in> copy_outcomes rows (view w))"

section \<open>At most once, atomically\<close>

text \<open>The tables after a batch has been written.\<close>

definition with_batch :: "string \<Rightarrow> Measurement list \<Rightarrow> pg_db \<Rightarrow> pg_db" where
  "with_batch b rows db =
     add_rows (map m_postgres rows) (add_receipt b (int (length rows)) (canonical_payload_digest rows) db)"

definition receipt_matches :: "string \<Rightarrow> Measurement list \<Rightarrow> pg_db \<Rightarrow> bool" where
  "receipt_matches b rows db \<longleftrightarrow> db_receipts db b = Some (int (length rows), canonical_payload_digest rows)"

text \<open>What one call may do to the committed tables, by its result.\<close>

definition batch_effect :: "string \<Rightarrow> Measurement list \<Rightarrow> bool result \<Rightarrow> pg_db \<Rightarrow> pg_db \<Rightarrow> bool" where
  "batch_effect b rows r db db' = (case r of
     Inr True \<Rightarrow> b \<notin> dom (db_receipts db) \<and> db' = with_batch b rows db
   | Inr False \<Rightarrow> receipt_matches b rows db \<and> db' = db
   | Inl _ \<Rightarrow> db' = db \<or> b \<notin> dom (db_receipts db) \<and> db' = with_batch b rows db)"

lemma pg_contractD:
  assumes "pg_contract sv names view"
  shows contract_now: "view (snd (sv_now sv w)) = view w"
    and contract_begin: "observed view (sv_pg sv c [Sql ''BEGIN''] [] t w) \<in> begin_outcomes (view w)"
    and contract_commit: "observed view (sv_pg sv c [Sql ''COMMIT''] [] t w) \<in> commit_outcomes (view w)"
    and contract_rollback: "view (snd (sv_pg sv c [Sql ''ROLLBACK''] [] t w)) = (view w)\<lparr>pending_tx := None\<rparr>"
    and contract_insert: "observed view (sv_pg sv c (receipt_insert names) [JStr b, JInt n, JStr h] t w) \<in> insert_outcomes b n h (view w)"
    and contract_single: "observed view (sv_pg sv c (single_insert names) (single_params b h row) t w) \<in> single_outcomes b h row (view w)"
    and contract_select: "observed view (sv_pg sv c (receipt_select locked names) [JStr b] t w) \<in> select_outcomes b (view w)"
    and contract_copy: "observed view (sv_copy sv c (copy_stmt names) rows t w) \<in> copy_outcomes rows (view w)"
  using assms by (simp_all add: pg_contract_def del: split_paired_All)

lemma check_stored_receipt:
  "check_stored b n h (Some (receipt_row r)) = Inr u \<longleftrightarrow> r = (n, h)"
proof (cases r)
  case (Pair a c)
  have "num_eq (Fin (rat_of_int a)) (Fin (rat_of_int n)) \<longleftrightarrow> a = n" by (simp add: num_eq_def)
  with Pair show ?thesis by (auto simp: check_stored_def receipt_row_def dindex_def json_num_def result_simps split: if_splits)
qed

lemma check_stored_select:
  assumes "check_stored b n h (fetchone (Some (case m b of None \<Rightarrow> [] | Some r \<Rightarrow> [receipt_row r]))) = Inr u"
  shows "m b = Some (n, h)"
  using assms check_stored_receipt
  by (cases "m b") (auto simp: fetchone_def check_stored_def)

text \<open>One statement at a time: what a call returned and what the connection then sees.\<close>

lemma select_step:
  assumes "pg_contract sv names view"
    and "sv_pg sv c (receipt_select locked names) [JStr b] t w = (r, w')"
  shows "view w' = view w \<and> (\<forall>answer. r = Inr answer \<longrightarrow>
    answer = Some (case db_receipts (seen (view w)) b of None \<Rightarrow> [] | Some x \<Rightarrow> [receipt_row x]))"
  using contract_select [OF assms(1), of c locked b t w] unfolding assms(2)
  by (auto simp: observed_def select_outcomes_def)

lemma insert_step:
  assumes "pg_contract sv names view"
    and "sv_pg sv c (receipt_insert names) [JStr b, JInt n, JStr h] t w = (r, w')"
  shows "case r of Inl _ \<Rightarrow> view w' = view w
    | Inr answer \<Rightarrow>
        if b \<in> dom (db_receipts (seen (view w))) then fetchone answer = None \<and> view w' = view w
        else fetchone answer \<noteq> None \<and> view w' = put (view w) (add_receipt b n h (seen (view w)))"
  using contract_insert [OF assms(1), of c b n h t w] unfolding assms(2)
  by (auto simp: observed_def insert_outcomes_def fetchone_def split: sum.splits if_splits)

lemma copy_step:
  assumes "pg_contract sv names view" and "sv_copy sv c (copy_stmt names) rows t w = (r, w')"
  shows "case r of Inl _ \<Rightarrow> view w' = view w | Inr _ \<Rightarrow> view w' = put (view w) (add_rows rows (seen (view w)))"
  using contract_copy [OF assms(1), of c rows t w] unfolding assms(2)
  by (auto simp: observed_def copy_outcomes_def split: sum.splits)

lemma single_step:
  assumes "pg_contract sv names view"
    and "sv_pg sv c (single_insert names) (single_params b h row) t w = (r, w')"
  shows "case r of
      Inl _ \<Rightarrow> view w' = view w \<or> b \<notin> dom (db_receipts (seen (view w))) \<and>
        view w' = put (view w) (add_rows [row] (add_receipt b 1 h (seen (view w))))
    | Inr answer \<Rightarrow>
        if b \<in> dom (db_receipts (seen (view w))) then fetchone answer = None \<and> view w' = view w
        else fetchone answer \<noteq> None \<and> view w' = put (view w) (add_rows [row] (add_receipt b 1 h (seen (view w))))"
  using contract_single [OF assms(1), of c b h row t w] unfolding assms(2)
  by (auto simp: observed_def single_outcomes_def fetchone_def Let_def split: sum.splits if_splits)

lemma copy_many_effect:
  assumes contract: "pg_contract sv names view" and tx: "pending_tx (view w) = Some db"
    and run: "copy_many sv c names b rows t w = (r, w')"
  shows "\<exists>db'. view w' = (view w)\<lparr>pending_tx := Some db'\<rparr> \<and>
    (\<forall>x. r = Inr x \<longrightarrow> batch_effect b rows (Inr x) db db')"
proof -
  let ?n = "int (length rows)" and ?h = "canonical_payload_digest rows"
  have seen: "seen (view w) = db" and keep: "view w = (view w)\<lparr>pending_tx := Some db\<rparr>"
    using tx by (simp_all add: seen_def)
  obtain r1 w1 where ins: "sv_pg sv c (receipt_insert names) [JStr b, JInt ?n, JStr ?h] t w = (r1, w1)"
    by (rule prod.exhaust)
  note eff1 = insert_step [OF contract ins, unfolded seen]
  show ?thesis
  proof (cases r1)
    case (Inl e)
    with run ins have "r = Inl e" "w' = w1" by (simp_all add: copy_many_def Let_def io_bind_def)
    moreover have "view w1 = view w" using eff1 Inl by simp
    ultimately show ?thesis using keep by (intro exI [of _ db]) simp
  next
    case (Inr answer)
    show ?thesis
    proof (cases "b \<in> dom (db_receipts db)")
      case True
      with eff1 Inr have none: "fetchone answer = None" and v1: "view w1 = view w" by auto
      obtain r2 w2 where sel: "sv_pg sv c (receipt_select True names) [JStr b] t w1 = (r2, w2)" by (rule prod.exhaust)
      note eff2 = select_step [OF contract sel, unfolded v1 seen]
      from run ins Inr none sel have res: "w' = w2"
        "r = (case r2 of Inl e \<Rightarrow> Inl e | Inr a \<Rightarrow> ebind (check_stored b ?n ?h (fetchone a)) (\<lambda>_. Inr False))"
        by (auto simp: copy_many_def Let_def io_bind_def io_then_def ebind_def split: sum.splits)
      have "receipt_matches b rows db" if "r = Inr x" for x
        using that res(2) eff2 check_stored_select [of b ?n ?h "db_receipts db"]
        by (auto simp: result_simps receipt_matches_def split: sum.splits)
      moreover have "x = False" if "r = Inr x" for x
        using that res(2) by (auto simp: result_simps split: sum.splits)
      ultimately have "batch_effect b rows (Inr x) db db" if "r = Inr x" for x
        using that by (auto simp: batch_effect_def)
      moreover have "view w' = (view w)\<lparr>pending_tx := Some db\<rparr>" using eff2 res(1) keep by simp
      ultimately show ?thesis by blast
    next
      case False
      with eff1 Inr have some: "fetchone answer \<noteq> None" and v1: "view w1 = put (view w) (add_receipt b ?n ?h db)" by auto
      then have v1': "view w1 = (view w)\<lparr>pending_tx := Some (add_receipt b ?n ?h db)\<rparr>" using tx by (simp add: put_def)
      obtain r2 w2 where cp: "sv_copy sv c (copy_stmt names) (map m_postgres rows) t w1 = (r2, w2)" by (rule prod.exhaust)
      note eff2 = copy_step [OF contract cp]
      from run ins Inr some cp have res: "w' = w2" "r = (case r2 of Inl e \<Rightarrow> Inl e | Inr _ \<Rightarrow> Inr True)"
        by (auto simp: copy_many_def Let_def io_bind_def io_then_def split: sum.splits)
      show ?thesis
      proof (cases r2)
        case (Inl e)
        with eff2 res v1' show ?thesis by auto
      next
        case (Inr u)
        with eff2 v1' have "view w2 = (view w)\<lparr>pending_tx := Some (with_batch b rows db)\<rparr>"
          by (simp add: put_def seen_def with_batch_def)
        with Inr res False show ?thesis by (auto simp: batch_effect_def)
      qed
    qed
  qed
qed

lemma begin_step:
  assumes "pg_contract sv names view" "sv_pg sv c [Sql ''BEGIN''] [] t w = (r, w')"
  shows "case r of Inl _ \<Rightarrow> view w' = view w | Inr _ \<Rightarrow> view w' = (view w)\<lparr>pending_tx := Some (committed (view w))\<rparr>"
  using contract_begin [OF assms(1), of c t w] unfolding assms(2)
  by (auto simp: observed_def begin_outcomes_def split: sum.splits)

lemma commit_step:
  assumes "pg_contract sv names view" "sv_pg sv c [Sql ''COMMIT''] [] t w = (r, w')"
  shows "case r of
      Inl _ \<Rightarrow> view w' = \<lparr>committed = seen (view w), pending_tx = None\<rparr> \<or> view w' = (view w)\<lparr>pending_tx := None\<rparr>
    | Inr _ \<Rightarrow> view w' = \<lparr>committed = seen (view w), pending_tx = None\<rparr>"
  using contract_commit [OF assms(1), of c t w] unfolding assms(2)
  by (auto simp: observed_def commit_outcomes_def Let_def split: sum.splits)

lemma batch_effect_Inl: "batch_effect b rows (Inr x) db db' \<Longrightarrow> batch_effect b rows (Inl e) db db'"
  by (auto simp: batch_effect_def split: bool.splits)

lemma transaction_effect:
  assumes contract: "pg_contract sv names view" and idle: "pending_tx (view w) = None"
    and run: "io_transaction sv c t (copy_many sv c names b rows t) w = (r, w')"
  shows "pending_tx (view w') = None \<and> batch_effect b rows r (committed (view w)) (committed (view w'))"
proof -
  obtain r0 w0 where bg: "sv_pg sv c [Sql ''BEGIN''] [] t w = (r0, w0)" by (rule prod.exhaust)
  note eff0 = begin_step [OF contract bg]
  show ?thesis
  proof (cases r0)
    case (Inl e)
    with run bg eff0 idle show ?thesis by (auto simp: io_transaction_def io_then_def io_bind_def batch_effect_def)
  next
    case (Inr u)
    with eff0 have v0: "view w0 = (view w)\<lparr>pending_tx := Some (committed (view w))\<rparr>" by simp
    then have tx: "pending_tx (view w0) = Some (committed (view w))" by simp
    obtain r1 w1 where body: "copy_many sv c names b rows t w0 = (r1, w1)" by (rule prod.exhaust)
    from copy_many_effect [OF contract tx body] obtain db' where
      v1: "view w1 = (view w0)\<lparr>pending_tx := Some db'\<rparr>" and
      eff1: "\<And>x. r1 = Inr x \<Longrightarrow> batch_effect b rows (Inr x) (committed (view w)) db'" by blast
    show ?thesis
    proof (cases r1)
      case (Inl e)
      with run bg Inr body have "r = Inl e" "w' = snd (sv_pg sv c [Sql ''ROLLBACK''] [] t w1)"
        by (auto simp: io_transaction_def io_then_def io_bind_def)
      with contract_rollback [OF contract] v0 v1 show ?thesis by (simp add: batch_effect_def)
    next
      case R: (Inr x)
      obtain r2 w2 where cm: "sv_pg sv c [Sql ''COMMIT''] [] t w1 = (r2, w2)" by (rule prod.exhaust)
      note eff2 = commit_step [OF contract cm]
      from run bg Inr body R cm have res: "w' = w2" "r = (case r2 of Inl e \<Rightarrow> Inl e | Inr _ \<Rightarrow> Inr x)"
        by (auto simp: io_transaction_def io_then_def io_bind_def split: sum.splits)
      show ?thesis
        using eff2 res eff1 [OF R] batch_effect_Inl [OF eff1 [OF R]] v0 v1
        by (cases r2) (auto simp: seen_def batch_effect_def)
    qed
  qed
qed

lemma copy_single_effect:
  assumes contract: "pg_contract sv names view" and idle: "pending_tx (view w) = None"
    and run: "copy_single sv c autocommit names b row t w = (r, w')"
  shows "pending_tx (view w') = None \<and> batch_effect b [row] r (committed (view w)) (committed (view w'))"
proof (cases autocommit)
  case False
  with run idle show ?thesis by (auto simp: copy_single_def batch_effect_def)
next
  case True
  let ?h = "canonical_payload_digest [row]"
  have seen: "seen (view w) = committed (view w)" using idle by (simp add: seen_def)
  have put: "put (view w) (add_rows [m_postgres row] (add_receipt b 1 ?h db)) = (view w)\<lparr>committed := with_batch b [row] db\<rparr>" for db
    using idle by (simp add: put_def with_batch_def)
  obtain r1 w1 where ins: "sv_pg sv c (single_insert names) (single_params b ?h (m_postgres row)) t w = (r1, w1)"
    by (rule prod.exhaust)
  note eff1 = single_step [OF contract ins, unfolded seen put]
  show ?thesis
  proof (cases r1)
    case (Inl e)
    with run ins True have "r = Inl e" "w' = w1" by (simp_all add: copy_single_def Let_def io_bind_def)
    with eff1 Inl idle show ?thesis by (auto simp: batch_effect_def)
  next
    case (Inr answer)
    show ?thesis
    proof (cases "b \<in> dom (db_receipts (committed (view w)))")
      case False
      with run ins True Inr eff1 have "r = Inr True" "w' = w1" by (simp_all add: copy_single_def Let_def io_bind_def)
      with eff1 Inr False idle show ?thesis by (simp add: batch_effect_def)
    next
      case old: True
      with eff1 Inr have none: "fetchone answer = None" and v1: "view w1 = view w" by auto
      obtain r2 w2 where sel: "sv_pg sv c (receipt_select False names) [JStr b] t w1 = (r2, w2)" by (rule prod.exhaust)
      note eff2 = select_step [OF contract sel, unfolded v1 seen]
      from run ins True Inr none sel have res: "w' = w2"
        "r = (case r2 of Inl e \<Rightarrow> Inl e | Inr a \<Rightarrow> ebind (check_stored b 1 ?h (fetchone a)) (\<lambda>_. Inr False))"
        by (auto simp: copy_single_def Let_def io_bind_def io_then_def ebind_def split: sum.splits)
      have "receipt_matches b [row] (committed (view w)) \<and> x = False" if "r = Inr x" for x
        using that res(2) eff2 check_stored_select [of b 1 ?h "db_receipts (committed (view w))"]
        by (auto simp: result_simps receipt_matches_def split: sum.splits)
      with eff2 res(1) idle show ?thesis by (cases r) (auto simp: batch_effect_def)
    qed
  qed
qed

lemma timeout_view:
  assumes "pg_contract sv names view"
  shows "view (snd (io_timeout sv d c w)) = view w"
  using contract_now [OF assms, of w] by (auto simp: io_timeout_def io_bind_def split: prod.splits sum.splits)

lemma copy_batch_effect:
  assumes contract: "pg_contract sv names view" and idle: "pending_tx (view w) = None"
    and run: "copy_batch sv c autocommit names b rows deadline w = (r, w')"
  shows "pending_tx (view w') = None \<and> batch_effect b rows r (committed (view w)) (committed (view w'))"
proof -
  obtain r0 w0 where tm: "io_timeout sv deadline CALL_TIMEOUT w = (r0, w0)" by (rule prod.exhaust)
  have v0: "view w0 = view w" using timeout_view [OF contract, of deadline CALL_TIMEOUT w] tm by simp
  show ?thesis
  proof (cases r0)
    case (Inl e)
    with run tm v0 idle show ?thesis by (auto simp: copy_batch_def io_bind_def batch_effect_def)
  next
    case (Inr t)
    show ?thesis
    proof (cases "\<exists>row. rows = [row]")
      case True
      then obtain row where rows: "rows = [row]" by blast
      with run tm Inr have "copy_single sv c autocommit names b row t w0 = (r, w')"
        by (simp add: copy_batch_def io_bind_def)
      from copy_single_effect [OF contract _ this] v0 idle rows show ?thesis by simp
    next
      case False
      with run tm Inr have "io_transaction sv c t (copy_many sv c names b rows t) w0 = (r, w')"
        by (auto simp: copy_batch_def io_bind_def split: list.splits)
      from transaction_effect [OF contract _ this] v0 idle show ?thesis by simp
    qed
  qed
qed

text \<open>
  C17: writing a batch to PostgreSQL is atomic and guarded by its receipt. If the call reports an
  insert, the batch was new and all of its rows and its receipt are committed; if it reports a
  duplicate, a receipt with the same row count and payload digest was there and nothing changed;
  if it raises, either nothing changed or the whole new batch is committed, never a part of it.
\<close>

theorem copy_batch_atomic:
  assumes "pg_contract sv names view" "pending_tx (view w) = None"
    and "copy_batch sv c autocommit names b rows deadline w = (r, w')"
  shows "pending_tx (view w') = None \<and>
    (case r of
       Inr True \<Rightarrow> b \<notin> dom (db_receipts (committed (view w))) \<and> committed (view w') = with_batch b rows (committed (view w))
     | Inr False \<Rightarrow> receipt_matches b rows (committed (view w)) \<and> committed (view w') = committed (view w)
     | Inl _ \<Rightarrow> committed (view w') = committed (view w) \<or>
         b \<notin> dom (db_receipts (committed (view w))) \<and> committed (view w') = with_batch b rows (committed (view w)))"
  using copy_batch_effect [OF assms] by (simp add: batch_effect_def)

section \<open>Retries\<close>

text \<open>Any number of calls with one batch identity and the same rows, whatever each of them did.\<close>

primrec attempts :: "'w services \<Rightarrow> nat \<Rightarrow> bool \<Rightarrow> Names \<Rightarrow> string \<Rightarrow> Measurement list \<Rightarrow> Deadline \<Rightarrow> nat \<Rightarrow> 'w \<Rightarrow> bool result list \<times> 'w" where
  "attempts sv c autocommit names b rows deadline 0 w = ([], w)"
| "attempts sv c autocommit names b rows deadline (Suc n) w =
     (let (rs, w1) = attempts sv c autocommit names b rows deadline n w;
          (r, w2) = copy_batch sv c autocommit names b rows deadline w1
      in (rs @ [r], w2))"

lemma with_batch_receipt: "receipt_matches b rows (with_batch b rows db)"
  by (simp add: receipt_matches_def with_batch_def add_rows_def add_receipt_def)

lemma attempts_effect:
  assumes contract: "pg_contract sv names view" and idle: "pending_tx (view w) = None"
    and new: "b \<notin> dom (db_receipts (committed (view w)))"
    and run: "attempts sv c autocommit names b rows deadline n w = (rs, w')"
  shows "pending_tx (view w') = None \<and>
    (committed (view w') = committed (view w) \<and> (\<forall>r \<in> set rs. \<exists>e. r = Inl e) \<or>
     committed (view w') = with_batch b rows (committed (view w)) \<and> length (filter (\<lambda>r. r = Inr True) rs) \<le> 1)"
  using run
proof (induction n arbitrary: rs w')
  case 0
  then show ?case using idle by simp
next
  case (Suc n)
  obtain rs1 w1 where r1: "attempts sv c autocommit names b rows deadline n w = (rs1, w1)" by (rule prod.exhaust)
  obtain r w2 where r2: "copy_batch sv c autocommit names b rows deadline w1 = (r, w2)" by (rule prod.exhaust)
  have eq: "rs = rs1 @ [r]" "w' = w2" using Suc.prems r1 r2 by simp_all
  note IH = Suc.IH [OF r1]
  note eff = copy_batch_effect [OF contract _ r2]
  from IH show ?case
  proof (elim conjE disjE)
    assume idle1: "pending_tx (view w1) = None" and same: "committed (view w1) = committed (view w)"
      and fails: "\<forall>r \<in> set rs1. \<exists>e. r = Inl e"
    have none: "filter (\<lambda>r. r = Inr True) rs1 = []" using fails by (auto simp: filter_empty_conv)
    have "\<not> receipt_matches b rows (committed (view w))" using new by (auto simp: receipt_matches_def)
    with eff [OF idle1] same fails new none show ?thesis
      unfolding eq batch_effect_def by (cases r) (auto split: bool.splits)
  next
    assume idle1: "pending_tx (view w1) = None" and full: "committed (view w1) = with_batch b rows (committed (view w))"
      and one: "length (filter (\<lambda>r. r = Inr True) rs1) \<le> 1"
    have "b \<in> dom (db_receipts (committed (view w1)))"
      using with_batch_receipt [of b rows "committed (view w)"] full by (auto simp: receipt_matches_def)
    with eff [OF idle1] full one show ?thesis
      unfolding eq batch_effect_def by (cases r) (auto split: bool.splits)
  qed
qed

text \<open>
  C2: a batch that is sent any number of times under one identity, with any mixture of failures,
  ambiguous commits and successes, is in the tables at most once; it is there exactly once as soon
  as any attempt returned, and at most one attempt reports that it inserted.
\<close>

theorem retries_insert_once:
  assumes "pg_contract sv names view" "pending_tx (view w) = None" "b \<notin> dom (db_receipts (committed (view w)))"
    and "attempts sv c autocommit names b rows deadline n w = (rs, w')"
  shows "(committed (view w') = committed (view w) \<or> committed (view w') = with_batch b rows (committed (view w))) \<and>
    ((\<exists>x. Inr x \<in> set rs) \<longrightarrow> committed (view w') = with_batch b rows (committed (view w))) \<and>
    length (filter (\<lambda>r. r = Inr True) rs) \<le> 1"
proof -
  from attempts_effect [OF assms] show ?thesis
  proof (elim conjE disjE)
    assume "committed (view w') = committed (view w)" and fails: "\<forall>r \<in> set rs. \<exists>e. r = Inl e"
    moreover have "filter (\<lambda>r. r = Inr True) rs = []" using fails by (auto simp: filter_empty_conv)
    ultimately show ?thesis by force
  qed auto
qed

text \<open>
  C20: a batch identity that is already recorded with another row count or another payload digest
  is refused: the call raises and the committed tables do not change.
\<close>

theorem conflicting_batch_refused:
  assumes "pg_contract sv names view" "pending_tx (view w) = None"
    and "db_receipts (committed (view w)) b = Some receipt"
    and "receipt \<noteq> (int (length rows), canonical_payload_digest rows)"
  shows "(\<exists>e. fst (copy_batch sv c autocommit names b rows deadline w) = Inl e) \<and>
    committed (view (snd (copy_batch sv c autocommit names b rows deadline w))) = committed (view w)"
proof -
  obtain r w' where run: "copy_batch sv c autocommit names b rows deadline w = (r, w')" by (rule prod.exhaust)
  from copy_batch_effect [OF assms(1,2) run] assms(3,4) show ?thesis
    unfolding run by (auto simp: batch_effect_def receipt_matches_def split: sum.splits bool.splits)
qed

section \<open>The contract can be met\<close>

text \<open>A server that never fails, on the view itself.\<close>

definition ideal_pg :: "statement \<Rightarrow> json list \<Rightarrow> pg_view \<Rightarrow> pg_answer result \<times> pg_view" where
  "ideal_pg stmt params v =
     (if stmt = [Sql ''BEGIN''] then (Inr None, v\<lparr>pending_tx := Some (committed v)\<rparr>)
      else if stmt = [Sql ''COMMIT''] then (Inr None, \<lparr>committed = seen v, pending_tx = None\<rparr>)
      else if stmt = [Sql ''ROLLBACK''] then (Inr None, v\<lparr>pending_tx := None\<rparr>)
      else case params of
        [JStr b] \<Rightarrow> (Inr (Some (case db_receipts (seen v) b of None \<Rightarrow> [] | Some r \<Rightarrow> [receipt_row r])), v)
      | [JStr b, JInt n, JStr h] \<Rightarrow>
          if b \<in> dom (db_receipts (seen v)) then (Inr (Some []), v)
          else (Inr (Some [[(''batch_id'', JStr b)]]), put v (add_receipt b n h (seen v)))
      | [JStr b, JStr h, JInt ts, JStr tn, JStr sr, JFloat (Fin x), JObj tags] \<Rightarrow>
          if b \<in> dom (db_receipts (seen v)) then (Inr (Some []), v)
          else (Inr (Some [[(''inserted'', JInt 1)]]),
                put v (add_rows [(ts, tn, sr, x, tags)] (add_receipt b 1 h (seen v))))
      | _ \<Rightarrow> (Inl (RuntimeError ''statement''), v))"

definition ideal_services :: "pg_view services" where
  "ideal_services = \<lparr>sv_now = io_return 0, sv_utc = io_return [],
     sv_http = (\<lambda>_ _ _ _. io_return (200, [])), sv_connect = (\<lambda>_ _. io_return 1), sv_close = (\<lambda>_. io_return ()),
     sv_pg = (\<lambda>_ stmt params _. ideal_pg stmt params),
     sv_copy = (\<lambda>_ _ rows _ v. (Inr (), put v (add_rows rows (seen v))))\<rparr>"

lemma ideal_contract: "pg_contract ideal_services names id"
  unfolding pg_contract_def
proof (intro conjI allI)
  fix c t b n h w
  show "observed id (sv_pg ideal_services c (receipt_insert names) [JStr b, JInt n, JStr h] t w) \<in> insert_outcomes b n h (id w)"
    by (simp add: ideal_services_def ideal_pg_def observed_def insert_outcomes_def receipt_insert_def)
next
  fix c t b h row w
  show "observed id (sv_pg ideal_services c (single_insert names) (single_params b h row) t w) \<in> single_outcomes b h row (id w)"
    by (cases row) (simp add: ideal_services_def ideal_pg_def observed_def single_outcomes_def single_insert_def single_params_def Let_def)
next
  fix c t b locked w
  show "observed id (sv_pg ideal_services c (receipt_select locked names) [JStr b] t w) \<in> select_outcomes b (id w)"
    by (simp add: ideal_services_def ideal_pg_def observed_def select_outcomes_def receipt_select_def)
qed (simp_all add: ideal_services_def ideal_pg_def observed_def begin_outcomes_def commit_outcomes_def copy_outcomes_def Let_def)

definition empty_view :: pg_view where
  "empty_view = \<lparr>committed = \<lparr>db_receipts = Map.empty, db_rows = {#}\<rparr>, pending_tx = None\<rparr>"

abbreviation example_deadline :: Deadline where
  "example_deadline \<equiv> \<lparr>dl_started = 0, dl_ends = 100\<rparr>"

theorem copy_batch_atomic_witness:
  "\<exists>r w'. copy_batch ideal_services 1 True example_names ''b'' [measurement_row 0 0, measurement_row 1 0] example_deadline empty_view = (r, w') \<and>
     pending_tx (id w') = None"
proof -
  obtain r w' where run: "copy_batch ideal_services 1 True example_names ''b'' [measurement_row 0 0, measurement_row 1 0] example_deadline empty_view = (r, w')"
    by (rule prod.exhaust)
  from copy_batch_atomic [OF ideal_contract _ run] run show ?thesis by (auto simp: empty_view_def)
qed

theorem retries_insert_once_witness:
  "\<exists>rs w'. attempts ideal_services 1 True example_names ''b'' [measurement_row 0 0, measurement_row 1 0] example_deadline 3 empty_view = (rs, w') \<and>
     length (filter (\<lambda>r. r = Inr True) rs) \<le> 1"
proof -
  obtain rs w' where run: "attempts ideal_services 1 True example_names ''b'' [measurement_row 0 0, measurement_row 1 0] example_deadline 3 empty_view = (rs, w')"
    by (rule prod.exhaust)
  from retries_insert_once [OF ideal_contract _ _ run] run show ?thesis by (auto simp: empty_view_def)
qed

theorem conflicting_batch_refused_witness:
  "\<exists>e. fst (copy_batch ideal_services 1 True example_names ''b'' [measurement_row 0 0] example_deadline
      \<lparr>committed = \<lparr>db_receipts = [''b'' \<mapsto> (2, ''other'')], db_rows = {#}\<rparr>, pending_tx = None\<rparr>) = Inl e"
  using conflicting_batch_refused [OF ideal_contract, of
      "\<lparr>committed = \<lparr>db_receipts = [''b'' \<mapsto> (2, ''other'')], db_rows = {#}\<rparr>, pending_tx = None\<rparr>" "''b''" "(2, ''other'')"
      "[measurement_row 0 0]" 1 True example_names example_deadline]
  by simp

end
