(* ===== verification/Ingest.thy ===== *)
theory Ingest
  imports Copy_Batch Percentiles
begin

text \<open>
  The initial ingestion (\<^verbatim>\<open>ingest_varve\<close>, \<^verbatim>\<open>ingest_timescale\<close>). Both start a number of workers
  that claim consecutive batches from a shared cursor, write them and count the acknowledged
  rows. The two differ only in how one batch is written, which is the argument \<open>submit\<close> of the
  step relation: one step is what a worker does between two points where it waits.
\<close>

section \<open>Batches\<close>

record batch =
  bt_index :: nat
  bt_offset :: int
  bt_count :: int

text \<open>What a claim takes from the cursor: \<^verbatim>\<open>count = min(batch, rows - offset)\<close>.\<close>

definition claim_batch :: "int \<Rightarrow> int \<Rightarrow> nat \<Rightarrow> int \<Rightarrow> batch" where
  "claim_batch rows bsize next_batch next_offset =
     \<lparr>bt_index = next_batch, bt_offset = next_offset, bt_count = min bsize (rows - next_offset)\<rparr>"

definition request_id :: "string \<Rightarrow> string \<Rightarrow> nat \<Rightarrow> string" where
  "request_id run_id kind index = run_id @ ''-'' @ kind @ ''-'' @ zpad 8 (dec_nat index)"

definition write_request :: "Names \<Rightarrow> string \<Rightarrow> Measurement list \<Rightarrow> json" where
  "write_request names rid rows =
     JObj [(''table'', JStr (varve_table names)), (''request_id'', JStr rid), (''rows'', JList (map m_varve rows))]"

text \<open>
  Writing one batch: whether the server answered, so that a latency was recorded, and whether
  the answer acknowledges the batch.
\<close>

type_synonym 'w submit = "nat \<Rightarrow> batch \<Rightarrow> 'w \<Rightarrow> (bool \<times> unit result) \<times> 'w"

definition varve_write :: "'w services \<Rightarrow> VarveClient \<Rightarrow> Names \<Rightarrow> string \<Rightarrow> Measurement list \<Rightarrow> 'w \<Rightarrow> (bool \<times> unit result) \<times> 'w" where
  "varve_write sv vc names rid rows w =
     (case io_bind (io_lift (dumps False True (write_request names rid rows)))
             (\<lambda>body. varve_request sv vc ''POST'' ''/v1/write'' (Some body)) w of
        (Inl e, w') \<Rightarrow> ((False, Inl e), w')
      | (Inr receipt, w') \<Rightarrow>
          ((True, ebind (validate_varve_receipt receipt (int (length rows)) False) (\<lambda>_. Inr ())), w'))"

definition varve_submit :: "'w services \<Rightarrow> VarveClient \<Rightarrow> Names \<Rightarrow> string \<Rightarrow> int \<Rightarrow> 'w submit" where
  "varve_submit sv vc names run_id base_us worker b w =
     (case initial_rows (bt_offset b) (bt_count b) base_us of
        Inl e \<Rightarrow> ((False, Inl e), w)
      | Inr rows \<Rightarrow> varve_write sv vc names (request_id run_id ''initial'' (bt_index b)) rows w)"

definition pg_write :: "'w services \<Rightarrow> TimescaleClient \<Rightarrow> nat \<Rightarrow> Names \<Rightarrow> string \<Rightarrow> Measurement list \<Rightarrow> Deadline \<Rightarrow> string \<Rightarrow> 'w \<Rightarrow> (bool \<times> unit result) \<times> 'w" where
  "pg_write sv pc worker names rid rows deadline duplicate w =
     (if length (pc_writers pc) \<le> worker then ((False, Inl (IndexError ''list index out of range'')), w)
      else case copy_batch sv (pc_writers pc ! worker) True names rid rows deadline w of
        (Inl e, w') \<Rightarrow> ((False, Inl e), w')
      | (Inr inserted, w') \<Rightarrow> ((True, guard inserted (RuntimeError duplicate)), w'))"

definition timescale_submit :: "'w services \<Rightarrow> TimescaleClient \<Rightarrow> Names \<Rightarrow> string \<Rightarrow> int \<Rightarrow> Deadline \<Rightarrow> 'w submit" where
  "timescale_submit sv pc names run_id base_us deadline worker b w =
     (case initial_rows (bt_offset b) (bt_count b) base_us of
        Inl e \<Rightarrow> ((False, Inl e), w)
      | Inr rows \<Rightarrow> pg_write sv pc worker names (request_id run_id ''initial'' (bt_index b)) rows deadline
                      ''unexpected duplicate Timescale initial batch receipt'' w)"

section \<open>The workers\<close>

text \<open>
  A worker is between batches, waits for the answer to a batch, has returned, or has been ended
  by an exception, its own or the cancellation after another worker's.
\<close>

datatype worker = Idle | Writing batch | Returned | Ended

record 'w ingest =
  ig_world :: 'w
  ig_next_offset :: int
  ig_next_batch :: nat
  ig_acknowledged :: int
  ig_workers :: "worker list"
  ig_failure :: "pyerror option"
  ig_latencies :: "rat list"
  ig_prepared :: "rat list"
  ig_claimed :: "batch list"
  ig_acked :: "batch list"
  ig_lost :: "batch list"

definition ingest_start :: "nat \<Rightarrow> 'w \<Rightarrow> 'w ingest" where
  "ingest_start writers w = \<lparr>ig_world = w, ig_next_offset = 0, ig_next_batch = 0, ig_acknowledged = 0,
     ig_workers = replicate writers Idle, ig_failure = None, ig_latencies = [], ig_prepared = [],
     ig_claimed = [], ig_acked = [], ig_lost = []\<rparr>"

text \<open>
  The last three fields record which batches were claimed, acknowledged and given up. A failure,
  or a cancellation from outside, cancels the workers where they wait; a cancelled write may
  have reached the server.
\<close>

inductive ingest_step :: "'w submit \<Rightarrow> int \<Rightarrow> int \<Rightarrow> 'w ingest \<Rightarrow> 'w ingest \<Rightarrow> bool"
  for submit :: "'w submit" and rows bsize :: int where
  claim: "i < length (ig_workers s) \<Longrightarrow> ig_workers s ! i = Idle \<Longrightarrow> ig_failure s = None \<Longrightarrow>
     ig_next_offset s < rows \<Longrightarrow> b = claim_batch rows bsize (ig_next_batch s) (ig_next_offset s) \<Longrightarrow>
     ingest_step submit rows bsize s
       (s\<lparr>ig_next_batch := ig_next_batch s + 1, ig_next_offset := ig_next_offset s + bt_count b,
          ig_workers := (ig_workers s)[i := Writing b], ig_prepared := ig_prepared s @ [d],
          ig_claimed := ig_claimed s @ [b]\<rparr>)"
| leave: "i < length (ig_workers s) \<Longrightarrow> ig_workers s ! i = Idle \<Longrightarrow> ig_failure s = None \<Longrightarrow>
     rows \<le> ig_next_offset s \<Longrightarrow>
     ingest_step submit rows bsize s (s\<lparr>ig_workers := (ig_workers s)[i := Returned]\<rparr>)"
| acknowledge: "i < length (ig_workers s) \<Longrightarrow> ig_workers s ! i = Writing b \<Longrightarrow> ig_failure s = None \<Longrightarrow>
     submit i b (ig_world s) = ((answered, Inr ()), w') \<Longrightarrow>
     ingest_step submit rows bsize s
       (s\<lparr>ig_world := w', ig_latencies := ig_latencies s @ [d], ig_acknowledged := ig_acknowledged s + bt_count b,
          ig_workers := (ig_workers s)[i := Idle], ig_acked := ig_acked s @ [b]\<rparr>)"
| raises: "i < length (ig_workers s) \<Longrightarrow> ig_workers s ! i = Writing b \<Longrightarrow> ig_failure s = None \<Longrightarrow>
     submit i b (ig_world s) = ((answered, Inl e), w') \<Longrightarrow>
     ingest_step submit rows bsize s
       (s\<lparr>ig_world := w', ig_latencies := (if answered then ig_latencies s @ [d] else ig_latencies s),
          ig_workers := (ig_workers s)[i := Ended], ig_failure := Some e, ig_lost := ig_lost s @ [b]\<rparr>)"
| interrupted: "ig_failure s = None \<Longrightarrow> ingest_step submit rows bsize s (s\<lparr>ig_failure := Some Cancelled\<rparr>)"
| cancel_idle: "i < length (ig_workers s) \<Longrightarrow> ig_workers s ! i = Idle \<Longrightarrow> ig_failure s = Some e \<Longrightarrow>
     ingest_step submit rows bsize s (s\<lparr>ig_workers := (ig_workers s)[i := Ended]\<rparr>)"
| cancel_writing: "i < length (ig_workers s) \<Longrightarrow> ig_workers s ! i = Writing b \<Longrightarrow> ig_failure s = Some e \<Longrightarrow>
     w' = ig_world s \<or> w' = snd (submit i b (ig_world s)) \<Longrightarrow>
     ingest_step submit rows bsize s
       (s\<lparr>ig_world := w', ig_workers := (ig_workers s)[i := Ended], ig_lost := ig_lost s @ [b]\<rparr>)"

text \<open>The task group is left when no worker can run.\<close>

definition ingest_over :: "'w ingest \<Rightarrow> bool" where
  "ingest_over s \<longleftrightarrow> list_all (\<lambda>x. x = Returned \<or> x = Ended) (ig_workers s)"

abbreviation ingest_run :: "'w submit \<Rightarrow> int \<Rightarrow> int \<Rightarrow> nat \<Rightarrow> 'w \<Rightarrow> 'w ingest \<Rightarrow> bool" where
  "ingest_run submit rows bsize writers w s \<equiv> (ingest_step submit rows bsize)\<^sup>*\<^sup>* (ingest_start writers w) s"

section \<open>The result\<close>

text \<open>
  The dictionary both functions build, with the name of the preparation times and the text of
  the durability receipt; \<open>described\<close> is what the error description gave.
\<close>

definition ingest_result :: "string \<Rightarrow> string \<Rightarrow> int \<Rightarrow> rat \<Rightarrow> string \<Rightarrow> 'w ingest \<Rightarrow> dict result" where
  "ingest_result prepared_key receipt rows elapsed described s =
     (let failed = ig_failure s \<noteq> None in
      ebind (float_div (fl (of_int (ig_acknowledged s))) elapsed) (\<lambda>rate.
      ebind (raw_and_summary (ig_latencies s)) (\<lambda>acks.
      ebind (raw_and_summary (ig_prepared s)) (\<lambda>prepared.
      Inr [
        (''state'', JStr (if failed then ''failed'' else ''passed'')),
        (''rows'', JInt (ig_acknowledged s)),
        (''offered_rows'', JInt rows),
        (''assigned_rows'', JInt (ig_next_offset s)),
        (''never_submitted_rows'', JInt (rows - ig_next_offset s)),
        (''failed_or_ambiguous_rows'', JInt (ig_next_offset s - ig_acknowledged s)),
        (''seconds'', JFloat (Fin elapsed)),
        (''rows_per_second'', JFloat (Fin rate)),
        (''ack_latency_ms'', acks),
        (prepared_key, prepared),
        (''durability_receipt'', JStr receipt),
        (''automatic_retries'', JInt 0),
        (''errors'', JList (if failed then [JStr described] else []))]))))"

text \<open>\<open>Inl\<close> is the \<^verbatim>\<open>IngestError\<close> with its message and the partial result.\<close>

definition ingest_outcome :: "string \<Rightarrow> int \<Rightarrow> dict \<Rightarrow> 'w ingest \<Rightarrow> (string \<times> dict) + dict" where
  "ingest_outcome backend rows body s =
     (if ig_failure s \<noteq> None then Inl (backend @ '' initial ingestion failed or became ambiguous'', body)
      else if ig_acknowledged s \<noteq> rows then Inl (backend @ '' initial acknowledgement conservation failed'', body)
      else Inr body)"

definition ingest_varve :: "int \<Rightarrow> rat \<Rightarrow> string \<Rightarrow> 'w ingest \<Rightarrow> ((string \<times> dict) + dict) result" where
  "ingest_varve rows elapsed described s =
     ebind (ingest_result ''encoding_ms'' ''local_fsync'' rows elapsed described s) (\<lambda>body.
     Inr (ingest_outcome ''Varve'' rows body s))"

definition ingest_timescale :: "int \<Rightarrow> rat \<Rightarrow> string \<Rightarrow> 'w ingest \<Rightarrow> ((string \<times> dict) + dict) result" where
  "ingest_timescale rows elapsed described s =
     ebind (ingest_result ''generation_ms'' ''transactional COPY plus receipt commit'' rows elapsed described s) (\<lambda>body.
     Inr (ingest_outcome ''Timescale'' rows body s))"

section \<open>Lists of workers\<close>

primrec busy_of :: "worker \<Rightarrow> batch list" where
  "busy_of Idle = []"
| "busy_of (Writing b) = [b]"
| "busy_of Returned = []"
| "busy_of Ended = []"

definition busy :: "worker list \<Rightarrow> batch list" where
  "busy ws = concat (map busy_of ws)"

lemma list_split_nth:
  assumes "i < length xs"
  shows "\<exists>a c. xs = a @ xs ! i # c \<and> (\<forall>x. xs[i := x] = a @ x # c)"
  using id_take_nth_drop [OF assms] upd_conv_take_nth_drop [OF assms] by metis

lemma mset_busy_update:
  assumes "i < length ws"
  shows "mset (busy (ws[i := x])) + mset (busy_of (ws ! i)) = mset (busy ws) + mset (busy_of x)"
proof -
  obtain a c where ws: "ws = a @ ws ! i # c" and up: "ws[i := x] = a @ x # c" using list_split_nth [OF assms] by blast
  have "busy ws = concat (map busy_of a) @ busy_of (ws ! i) @ concat (map busy_of c)"
    unfolding busy_def by (subst ws) simp
  moreover have "busy (ws[i := x]) = concat (map busy_of a) @ busy_of x @ concat (map busy_of c)"
    unfolding busy_def up by simp
  ultimately show ?thesis by (simp add: ac_simps)
qed

section \<open>The invariant\<close>

text \<open>The batches of a run in the order of the cursor.\<close>

definition batch_at :: "int \<Rightarrow> int \<Rightarrow> nat \<Rightarrow> batch" where
  "batch_at rows bsize k = \<lparr>bt_index = k, bt_offset = int k * bsize, bt_count = min bsize (rows - int k * bsize)\<rparr>"

definition ingest_inv :: "int \<Rightarrow> int \<Rightarrow> 'w ingest \<Rightarrow> bool" where
  "ingest_inv rows bsize s \<longleftrightarrow>
     ig_claimed s = map (batch_at rows bsize) [0..<ig_next_batch s] \<and>
     ig_next_offset s = min rows (int (ig_next_batch s) * bsize) \<and>
     (\<forall>k < ig_next_batch s. int k * bsize < rows) \<and>
     mset (ig_claimed s) = mset (ig_acked s) + mset (busy (ig_workers s)) + mset (ig_lost s) \<and>
     ig_acknowledged s = sum_list (map bt_count (ig_acked s)) \<and>
     (ig_lost s \<noteq> [] \<longrightarrow> ig_failure s \<noteq> None) \<and>
     (Returned \<in> set (ig_workers s) \<longrightarrow> rows \<le> ig_next_offset s)"

lemma busy_replicate_Idle [simp]: "busy (replicate n Idle) = []"
  by (induction n) (simp_all add: busy_def)

lemma ingest_inv_start: "0 \<le> rows \<Longrightarrow> ingest_inv rows bsize (ingest_start writers w)"
  by (auto simp: ingest_inv_def ingest_start_def)

text \<open>Claiming the next batch continues the list of batches.\<close>

lemma claim_next:
  assumes "0 < bsize" "int k * bsize < rows"
  shows "claim_batch rows bsize k (int k * bsize) = batch_at rows bsize k"
    and "int k * bsize + bt_count (batch_at rows bsize k) = min rows (int (Suc k) * bsize)"
  using assms by (simp_all add: claim_batch_def batch_at_def algebra_simps)

lemma next_offset_less:
  "ingest_inv rows bsize s \<Longrightarrow> ig_next_offset s < rows \<Longrightarrow>
   ig_next_offset s = int (ig_next_batch s) * bsize \<and> int (ig_next_batch s) * bsize < rows"
  by (auto simp: ingest_inv_def min_def split: if_splits)

lemma busy_update_simps:
  assumes "i < length ws"
  shows "ws ! i = Idle \<Longrightarrow> mset (busy (ws[i := Writing b])) = add_mset b (mset (busy ws))"
    and "ws ! i = Idle \<Longrightarrow> x \<in> {Returned, Ended} \<Longrightarrow> mset (busy (ws[i := x])) = mset (busy ws)"
    and "ws ! i = Writing b \<Longrightarrow> x \<in> {Idle, Ended} \<Longrightarrow> mset (busy ws) = add_mset b (mset (busy (ws[i := x])))"
  using mset_busy_update [OF assms, of "Writing b"] mset_busy_update [OF assms, of x] by auto

lemma ingest_inv_step:
  assumes "ingest_step submit rows bsize s s'" "ingest_inv rows bsize s" "0 < bsize"
  shows "ingest_inv rows bsize s'"
  using assms
proof (induction rule: ingest_step.induct)
  case (claim i s b d)
  note off = next_offset_less [OF claim.prems(1) claim.hyps(4)]
  let ?k = "ig_next_batch s"
  have b: "b = batch_at rows bsize ?k"
    using claim.hyps(5) off claim_next(1) [of bsize ?k rows] claim.prems(2) by simp
  have offs: "ig_next_offset s + bt_count b = min rows (int (Suc ?k) * bsize)"
    using off claim_next(2) [of bsize ?k rows] claim.prems(2) unfolding b by simp
  have ret: "Returned \<notin> set (ig_workers s)" using claim.prems(1) claim.hyps(4) by (auto simp: ingest_inv_def)
  have "Returned \<notin> set ((ig_workers s)[i := Writing b])" using ret set_update_subset_insert by fastforce
  with claim.prems(1) off busy_update_simps(1) [OF claim.hyps(1,2), of b] offs show ?case
    by (auto simp: ingest_inv_def b less_Suc_eq)
next
  case (leave i s)
  have "Returned \<in> set ((ig_workers s)[i := Returned])" using leave.hyps(1) by (simp add: set_update_memI)
  with leave busy_update_simps(2) [OF leave.hyps(1,2), of Returned] show ?case by (auto simp: ingest_inv_def)
next
  case (acknowledge i s b answered w' d)
  have "Returned \<in> set ((ig_workers s)[i := Idle]) \<Longrightarrow> Returned \<in> set (ig_workers s)"
    using set_update_subset_insert by fastforce
  with acknowledge busy_update_simps(3) [OF acknowledge.hyps(1,2), of Idle] show ?case by (auto simp: ingest_inv_def)
next
  case (raises i s b answered e w' d)
  have "Returned \<in> set ((ig_workers s)[i := Ended]) \<Longrightarrow> Returned \<in> set (ig_workers s)"
    using set_update_subset_insert by fastforce
  with raises busy_update_simps(3) [OF raises.hyps(1,2), of Ended] show ?case by (auto simp: ingest_inv_def)
next
  case (interrupted s)
  then show ?case by (auto simp: ingest_inv_def)
next
  case (cancel_idle i s e)
  have "Returned \<in> set ((ig_workers s)[i := Ended]) \<Longrightarrow> Returned \<in> set (ig_workers s)"
    using set_update_subset_insert by fastforce
  with cancel_idle busy_update_simps(2) [OF cancel_idle.hyps(1,2), of Ended] show ?case by (auto simp: ingest_inv_def)
next
  case (cancel_writing i s b e w')
  have "Returned \<in> set ((ig_workers s)[i := Ended]) \<Longrightarrow> Returned \<in> set (ig_workers s)"
    using set_update_subset_insert by fastforce
  with cancel_writing busy_update_simps(3) [OF cancel_writing.hyps(1,2), of Ended] show ?case by (auto simp: ingest_inv_def)
qed

lemma ingest_inv_run:
  assumes "ingest_run submit rows bsize writers w s" "0 < bsize" "0 \<le> rows"
  shows "ingest_inv rows bsize s"
  using assms(1)
proof (induction rule: rtranclp_induct)
  case base
  show ?case using assms(3) by (rule ingest_inv_start)
next
  case (step y z)
  then show ?case using ingest_inv_step assms(2) by blast
qed

section \<open>Conservation\<close>

lemma batch_count_pos: "0 < bsize \<Longrightarrow> int k * bsize < rows \<Longrightarrow> 0 < bt_count (batch_at rows bsize k)"
  by (simp add: batch_at_def)

lemma sum_batch_counts:
  assumes "0 < bsize" "0 \<le> rows"
  shows "(\<forall>k < n. int k * bsize < rows) \<Longrightarrow>
    sum_list (map bt_count (map (batch_at rows bsize) [0..<n])) = min rows (int n * bsize)"
proof (induction n)
  case (Suc n)
  then have "int n * bsize < rows" by simp
  with Suc claim_next(2) [OF assms(1) this] show ?case by simp
qed (use assms in simp)

lemma distinct_batches: "distinct (map (batch_at rows bsize) ks) \<longleftrightarrow> distinct ks"
  by (induction ks) (auto simp: batch_at_def)

lemma sum_list_mset_le:
  fixes f :: "'a \<Rightarrow> int"
  assumes "mset ys = mset xs + M" "\<forall>y \<in> set ys. 0 \<le> f y"
  shows "sum_list (map f xs) \<le> sum_list (map f ys)"
proof -
  have "sum_list (map f ys) = sum_mset (image_mset f (mset ys))" by (simp add: sum_mset_sum_list flip: mset_map)
  also have "\<dots> = sum_list (map f xs) + sum_mset (image_mset f M)"
    unfolding assms(1) by (simp add: sum_mset_sum_list flip: mset_map)
  finally have eq: "sum_list (map f ys) = sum_list (map f xs) + sum_mset (image_mset f M)" .
  have "0 \<le> f y" if "y \<in># M" for y
    using assms that by (metis UnCI set_mset_mset set_mset_union)
  then have "0 \<le> sum_mset (image_mset f M)" by (induction M) auto
  with eq show ?thesis by simp
qed

lemma ingest_conserved:
  assumes inv: "ingest_inv rows bsize s" and "0 < bsize" "0 \<le> rows"
  shows "0 \<le> ig_acknowledged s" "ig_acknowledged s \<le> ig_next_offset s" "ig_next_offset s \<le> rows"
    "distinct (map bt_index (ig_acked s))" "sum_list (map bt_count (ig_claimed s)) = ig_next_offset s"
proof -
  have claimed: "ig_claimed s = map (batch_at rows bsize) [0..<ig_next_batch s]"
    and lim: "\<forall>k < ig_next_batch s. int k * bsize < rows"
    and ms: "mset (ig_claimed s) = mset (ig_acked s) + (mset (busy (ig_workers s)) + mset (ig_lost s))"
    and ack: "ig_acknowledged s = sum_list (map bt_count (ig_acked s))"
    and off: "ig_next_offset s = min rows (int (ig_next_batch s) * bsize)"
    using inv by (auto simp: ingest_inv_def ac_simps)
  show total: "sum_list (map bt_count (ig_claimed s)) = ig_next_offset s"
    using sum_batch_counts [OF assms(2,3) lim] off unfolding claimed by simp
  have pos: "\<forall>b \<in> set (ig_claimed s). 0 \<le> bt_count b"
    using lim batch_count_pos [OF assms(2)] unfolding claimed by (auto intro: less_imp_le)
  have sub: "set (ig_acked s) \<subseteq> set (ig_claimed s)" using mset_eq_setD [OF ms [symmetric, unfolded mset_append [symmetric]]] by auto
  show "0 \<le> ig_acknowledged s" unfolding ack using pos sub by (intro sum_list_nonneg) auto
  show "ig_acknowledged s \<le> ig_next_offset s"
    unfolding ack total [symmetric] by (rule sum_list_mset_le [OF ms pos])
  show "ig_next_offset s \<le> rows" unfolding off by simp
  have "distinct (ig_claimed s @ [])" unfolding claimed by (simp add: distinct_batches)
  then have "distinct (ig_acked s)"
    using ms by (metis append_Nil2 distinct_append mset_append mset_eq_imp_distinct_iff)
  moreover have "inj_on bt_index (set (ig_acked s))"
  proof (rule inj_onI)
    have rebuild: "b = batch_at rows bsize (bt_index b)" if "b \<in> set (ig_claimed s)" for b
      using that unfolding claimed by (auto simp: batch_at_def)
    fix x y assume "x \<in> set (ig_acked s)" "y \<in> set (ig_acked s)" "bt_index x = bt_index y"
    then show "x = y" using rebuild sub by (metis subsetD)
  qed
  ultimately show "distinct (map bt_index (ig_acked s))" by (simp add: distinct_map)
qed

text \<open>
  C6: at every point of an ingestion, however its workers interleave, fail or are cancelled, the
  acknowledged rows are exactly those of the acknowledged batches, they never exceed the assigned
  rows, which never exceed the offered rows, and no two acknowledged batches share an index. The
  three counts that the result reports are therefore never negative.
\<close>

theorem ingest_conservation:
  assumes "ingest_run submit rows bsize writers w s" "0 < bsize" "0 \<le> rows"
  shows "0 \<le> ig_acknowledged s \<and> ig_acknowledged s \<le> ig_next_offset s \<and> ig_next_offset s \<le> rows \<and>
    ig_acknowledged s = sum_list (map bt_count (ig_acked s)) \<and>
    sum_list (map bt_count (ig_claimed s)) = ig_next_offset s \<and> distinct (map bt_index (ig_acked s))"
  using ingest_conserved [OF ingest_inv_run [OF assms] assms(2,3)] ingest_inv_run [OF assms]
  by (simp add: ingest_inv_def)

section \<open>A finished ingestion is complete\<close>

lemma ingest_workers_length:
  "ingest_run submit rows bsize writers w s \<Longrightarrow> length (ig_workers s) = writers"
  by (induction rule: rtranclp_induct) (auto simp: ingest_start_def elim!: ingest_step.cases)

lemma ended_needs_failure:
  assumes "ingest_run submit rows bsize writers w s"
  shows "Ended \<in> set (ig_workers s) \<Longrightarrow> ig_failure s \<noteq> None"
  using assms
proof (induction rule: rtranclp_induct)
  case base
  then show ?case by (auto simp: ingest_start_def)
next
  case (step y z)
  from step.hyps(2) step.IH step.prems show ?case
    by (cases rule: ingest_step.cases) (auto dest!: subsetD [OF set_update_subset_insert])
qed

lemma ingest_finished:
  assumes run: "ingest_run submit rows bsize writers w s" and pos: "0 < bsize" "0 \<le> rows" "0 < writers"
    and over: "ingest_over s" and ok: "ig_failure s = None"
  shows "ig_acknowledged s = rows" "mset (ig_acked s) = mset (map (batch_at rows bsize) [0..<ig_next_batch s])"
    "ig_next_offset s = rows"
proof -
  note inv = ingest_inv_run [OF run pos(1,2)]
  have ret: "set (ig_workers s) \<subseteq> {Returned}"
    using over ended_needs_failure [OF run] ok by (auto simp: ingest_over_def list_all_iff)
  moreover have "ig_workers s \<noteq> []" using ingest_workers_length [OF run] pos(3) by auto
  ultimately have "Returned \<in> set (ig_workers s)" by (cases "ig_workers s") auto
  then show off: "ig_next_offset s = rows" using inv by (auto simp: ingest_inv_def)
  have "busy (ig_workers s) = []" using ret by (auto simp: busy_def)
  then show ms: "mset (ig_acked s) = mset (map (batch_at rows bsize) [0..<ig_next_batch s])"
    using inv ok by (auto simp: ingest_inv_def)
  have "ig_claimed s = map (batch_at rows bsize) [0..<ig_next_batch s]" using inv by (simp add: ingest_inv_def)
  then have "sum_list (map bt_count (ig_acked s)) = sum_list (map bt_count (ig_claimed s))"
    using ms by (metis mset_map sum_mset_sum_list)
  then show "ig_acknowledged s = rows"
    using ingest_conserved(5) [OF inv pos(1,2)] off inv by (simp add: ingest_inv_def)
qed

text \<open>
  C21: when the workers are done and none failed, every offered row is acknowledged, in batches
  that are exactly those the cursor cuts the rows into; the result is then returned, and the
  conservation error of the driver cannot be raised.
\<close>

theorem ingest_success_complete:
  assumes "ingest_run submit rows bsize writers w s" "0 < bsize" "0 \<le> rows" "0 < writers"
    and "ingest_over s" "ig_failure s = None"
  shows "ig_acknowledged s = rows \<and> ig_next_offset s = rows \<and>
    mset (ig_acked s) = mset (map (batch_at rows bsize) [0..<ig_next_batch s]) \<and>
    ingest_outcome backend rows body s = Inr body"
  using ingest_finished [OF assms] assms(6) by (simp add: ingest_outcome_def)

section \<open>Every ingestion ends\<close>

primrec worker_weight :: "worker \<Rightarrow> nat" where
  "worker_weight Idle = 1"
| "worker_weight (Writing b) = 2"
| "worker_weight Returned = 0"
| "worker_weight Ended = 0"

definition ingest_measure :: "int \<Rightarrow> 'w ingest \<Rightarrow> nat" where
  "ingest_measure rows s = 2 * nat (rows - ig_next_offset s) + sum_list (map worker_weight (ig_workers s)) +
     (if ig_failure s = None then 1 else 0)"

lemma weight_update:
  assumes "i < length ws"
  shows "sum_list (map worker_weight (ws[i := x])) + worker_weight (ws ! i) =
    sum_list (map worker_weight ws) + worker_weight x"
proof -
  obtain a c where ws: "ws = a @ ws ! i # c" and up: "ws[i := x] = a @ x # c" using list_split_nth [OF assms] by blast
  have "sum_list (map worker_weight ws) =
      sum_list (map worker_weight a) + worker_weight (ws ! i) + sum_list (map worker_weight c)"
    by (subst ws) simp
  then show ?thesis unfolding up by simp
qed

lemma ingest_step_measure:
  assumes "ingest_step submit rows bsize s s'" "0 < bsize"
  shows "ingest_measure rows s' < ingest_measure rows s"
  using assms
proof (induction rule: ingest_step.induct)
  case (claim i s b d)
  have "0 < bt_count b" using claim.hyps(4,5) claim.prems by (simp add: claim_batch_def)
  then have "nat (rows - (ig_next_offset s + bt_count b)) < nat (rows - ig_next_offset s)" using claim.hyps(4) by simp
  then have "Suc (2 * nat (rows - (ig_next_offset s + bt_count b))) < 2 * nat (rows - ig_next_offset s)" by linarith
  with weight_update [OF claim.hyps(1), of "Writing b"] claim.hyps(2) show ?case by (simp add: ingest_measure_def)
next
  case (leave i s)
  with weight_update [OF leave.hyps(1), of Returned] show ?case by (simp add: ingest_measure_def)
next
  case (acknowledge i s b answered w' d)
  with weight_update [OF acknowledge.hyps(1), of Idle] show ?case by (simp add: ingest_measure_def)
next
  case (raises i s b answered e w' d)
  with weight_update [OF raises.hyps(1), of Ended] show ?case by (simp add: ingest_measure_def)
next
  case (interrupted s)
  then show ?case by (simp add: ingest_measure_def)
next
  case (cancel_idle i s e)
  with weight_update [OF cancel_idle.hyps(1), of Ended] show ?case by (simp add: ingest_measure_def)
next
  case (cancel_writing i s b e w')
  with weight_update [OF cancel_writing.hyps(1), of Ended] show ?case by (simp add: ingest_measure_def)
qed

lemma ingest_progress:
  assumes "\<not> ingest_over s"
  shows "\<exists>s'. ingest_step submit rows bsize s s'"
proof -
  from assms obtain i where i: "i < length (ig_workers s)" and live: "ig_workers s ! i \<noteq> Returned" "ig_workers s ! i \<noteq> Ended"
    by (auto simp: ingest_over_def list_all_length)
  show ?thesis
  proof (cases "ig_workers s ! i")
    case Idle
    show ?thesis
    proof (cases "ig_failure s")
      case None
      show ?thesis
      proof (cases "ig_next_offset s < rows")
        case True
        from ingest_step.claim [OF i Idle None this refl] show ?thesis by blast
      next
        case False
        then have "rows \<le> ig_next_offset s" by simp
        from ingest_step.leave [OF i Idle None this] show ?thesis by blast
      qed
    next
      case (Some e)
      from ingest_step.cancel_idle [OF i Idle Some] show ?thesis by blast
    qed
  next
    case (Writing b)
    obtain a r w' where sub: "submit i b (ig_world s) = ((a, r), w')" by (metis surj_pair)
    show ?thesis
    proof (cases "ig_failure s")
      case None
      show ?thesis
      proof (cases r)
        case (Inl e)
        from ingest_step.raises [where submit = submit, OF i Writing None sub [unfolded Inl]] show ?thesis by blast
      next
        case (Inr u)
        then have "submit i b (ig_world s) = ((a, Inr ()), w')" using sub by simp
        from ingest_step.acknowledge [where submit = submit, OF i Writing None this] show ?thesis by blast
      qed
    next
      case (Some e)
      from ingest_step.cancel_writing [OF i Writing Some disjI1 [OF refl]] show ?thesis by blast
    qed
  qed (use live in auto)
qed

lemma relpowp_measure:
  assumes "\<And>s s'. r s s' \<Longrightarrow> m s' < (m s :: nat)"
  shows "(r ^^ n) s s' \<Longrightarrow> m s' + n \<le> m s"
proof (induction n arbitrary: s')
  case (Suc n)
  then obtain t where t: "(r ^^ n) s t" "r t s'" by auto
  with Suc.IH [OF t(1)] assms [OF t(2)] show ?case by simp
qed simp


section \<open>What the stores hold\<close>

text \<open>
  The contract of writing one batch, for any store: \<open>stored\<close> are the rows the store holds, \<open>ready\<close>
  says the writer's connection is usable. An acknowledged batch has been added; a batch that was
  not acknowledged has been added as a whole or not at all.
\<close>

definition lands :: "'w submit \<Rightarrow> ('w \<Rightarrow> bool) \<Rightarrow> ('w \<Rightarrow> pg_row multiset) \<Rightarrow> (batch \<Rightarrow> pg_row multiset) \<Rightarrow> bool" where
  "lands submit ready stored payload \<longleftrightarrow>
     (\<forall>i b w a r w'. ready w \<longrightarrow> submit i b w = ((a, r), w') \<longrightarrow>
        ready w' \<and> (stored w' = stored w + payload b \<or> r \<noteq> Inr () \<and> stored w' = stored w))"

definition batch_payload :: "int \<Rightarrow> batch \<Rightarrow> pg_row multiset" where
  "batch_payload base_us b = mset (map (\<lambda>i. m_postgres (measurement_row i base_us)) [bt_offset b..bt_offset b + bt_count b - 1])"

definition stored_inv :: "('w \<Rightarrow> bool) \<Rightarrow> ('w \<Rightarrow> pg_row multiset) \<Rightarrow> (batch \<Rightarrow> pg_row multiset) \<Rightarrow> pg_row multiset \<Rightarrow> 'w ingest \<Rightarrow> bool" where
  "stored_inv ready stored payload initial s \<longleftrightarrow> ready (ig_world s) \<and>
     (\<exists>extra. extra \<subseteq># mset (ig_lost s) \<and>
        stored (ig_world s) = initial + (\<Sum>b \<in># mset (ig_acked s) + extra. payload b))"

lemma stored_inv_step:
  assumes "lands submit ready stored payload" "ingest_step submit rows bsize s s'" "stored_inv ready stored payload initial s"
  shows "stored_inv ready stored payload initial s'"
proof -
  from assms(3) obtain extra where rd: "ready (ig_world s)" and ex: "extra \<subseteq># mset (ig_lost s)"
    and st: "stored (ig_world s) = initial + (\<Sum>b \<in># mset (ig_acked s) + extra. payload b)"
    by (auto simp: stored_inv_def)
  have ld: "ready w' \<and> (stored w' = stored (ig_world s) + payload b \<or> r \<noteq> Inr () \<and> stored w' = stored (ig_world s))"
    if "submit i b (ig_world s) = ((a, r), w')" for i b a r w'
    using assms(1) rd that unfolding lands_def by blast
  have lost: "stored_inv ready stored payload initial s'"
    if "ready w'" "ig_world s' = w'" "ig_acked s' = ig_acked s" "ig_lost s' = ig_lost s @ [b]"
      and cases: "stored w' = stored (ig_world s) \<or> stored w' = stored (ig_world s) + payload b" for w' b
    using cases
  proof
    assume "stored w' = stored (ig_world s)"
    with that st ex show ?thesis unfolding stored_inv_def
      by (intro conjI exI [of _ extra]) (auto intro: subset_mset.order_trans)
  next
    assume "stored w' = stored (ig_world s) + payload b"
    with that st ex show ?thesis unfolding stored_inv_def
      by (intro conjI exI [of _ "add_mset b extra"]) (auto simp: ac_simps)
  qed
  from assms(2) show ?thesis
  proof (cases rule: ingest_step.cases)
    case (acknowledge i b answered w' d)
    with ld [OF acknowledge(5)] have "ready w'" "stored w' = stored (ig_world s) + payload b" by auto
    with acknowledge st ex show ?thesis unfolding stored_inv_def
      by (intro conjI exI [of _ extra]) (auto simp: ac_simps)
  next
    case (raises i b answered e w' d)
    with ld [OF raises(5)] show ?thesis by (intro lost [of w' b]) auto
  next
    case (cancel_writing i b e w')
    obtain a r w2 where sub: "submit i b (ig_world s) = ((a, r), w2)" by (metis surj_pair)
    show ?thesis
      by (rule lost [of w' b]) (use cancel_writing sub ld [OF sub] rd in auto)
  qed (use rd ex st in \<open>auto simp: stored_inv_def\<close>)
qed

lemma stored_inv_run:
  assumes "lands submit ready stored payload" "ready w" "ingest_run submit rows bsize writers w s"
  shows "stored_inv ready stored payload (stored w) s"
  using assms(3)
proof (induction rule: rtranclp_induct)
  case base
  show ?case using assms(2) by (simp add: stored_inv_def ingest_start_def)
next
  case (step y z)
  then show ?case using stored_inv_step [OF assms(1)] by blast
qed

text \<open>The batches of the cursor together are the whole data set.\<close>

lemma upto_append: "a \<le> b \<Longrightarrow> b \<le> c \<Longrightarrow> [a..b - 1] @ [b..c - 1] = [a..c - (1 :: int)]"
proof -
  assume "a \<le> b" "b \<le> c"
  show ?thesis
  proof (cases "b = c")
    case False
    then have "[a..c - 1] = [a..b - 1] @ [b..c - 1]"
      using upto_split1 [of a b "c - 1"] \<open>a \<le> b\<close> \<open>b \<le> c\<close> by simp
    then show ?thesis by simp
  qed simp
qed

lemma batches_cover:
  assumes "0 < bsize" "0 \<le> rows"
  shows "(\<forall>k < n. int k * bsize < rows) \<Longrightarrow>
    (\<Sum>b \<in># mset (map (batch_at rows bsize) [0..<n]). batch_payload base_us b) =
      mset (map (\<lambda>i. m_postgres (measurement_row i base_us)) [0..min rows (int n * bsize) - 1])"
proof (induction n)
  case 0
  then show ?case using assms by simp
next
  case (Suc n)
  let ?f = "\<lambda>i. m_postgres (measurement_row i base_us)"
  have less: "int n * bsize < rows" using Suc by simp
  have m: "min rows (int n * bsize) = int n * bsize" using less by simp
  have "[0..int n * bsize - 1] @ [int n * bsize..min rows (int (Suc n) * bsize) - 1] = [0..min rows (int (Suc n) * bsize) - 1]"
    using assms less by (intro upto_append) (auto simp: algebra_simps)
  then have joined: "mset (map ?f [0..int n * bsize - 1]) + mset (map ?f [int n * bsize..min rows (int (Suc n) * bsize) - 1]) =
      mset (map ?f [0..min rows (int (Suc n) * bsize) - 1])"
    by (metis map_append mset_append)
  have "bt_offset (batch_at rows bsize n) = int n * bsize"
    "bt_offset (batch_at rows bsize n) + bt_count (batch_at rows bsize n) = min rows (int (Suc n) * bsize)"
    using claim_next(2) [OF assms(1) less] by (simp_all add: batch_at_def)
  then have payload: "batch_payload base_us (batch_at rows bsize n) =
      mset (map ?f [int n * bsize..min rows (int (Suc n) * bsize) - 1])"
    unfolding batch_payload_def by simp
  have "(\<Sum>b \<in># mset (map (batch_at rows bsize) [0..<n]). batch_payload base_us b) = mset (map ?f [0..int n * bsize - 1])"
    using Suc m by simp
  then have "(\<Sum>b \<in># mset (map (batch_at rows bsize) [0..<Suc n]). batch_payload base_us b) =
      mset (map ?f [0..int n * bsize - 1]) + mset (map ?f [int n * bsize..min rows (int (Suc n) * bsize) - 1])"
    unfolding payload [symmetric] by (simp add: add.commute)
  then show ?case unfolding joined .
qed

lemma ingest_success_stored:
  assumes "lands submit ready stored (batch_payload base_us)" "ready w"
    and "ingest_run submit rows bsize writers w s" "0 < bsize" "0 \<le> rows" "0 < writers"
    and "ingest_over s" "ig_failure s = None"
  shows "stored (ig_world s) = stored w + mset (map (\<lambda>i. m_postgres (measurement_row i base_us)) [0..rows - 1])"
proof -
  note inv = ingest_inv_run [OF assms(3,4,5)]
  have lim: "\<forall>k < ig_next_batch s. int k * bsize < rows" and lost: "ig_lost s = []"
    and off: "ig_next_offset s = min rows (int (ig_next_batch s) * bsize)"
    using inv assms(8) by (auto simp: ingest_inv_def)
  have "stored (ig_world s) = stored w + (\<Sum>b \<in># mset (ig_acked s). batch_payload base_us b)"
    using stored_inv_run [OF assms(1,2,3)] lost by (auto simp: stored_inv_def)
  also have "mset (ig_acked s) = mset (map (batch_at rows bsize) [0..<ig_next_batch s])"
    using ingest_finished(2) [OF assms(3-8)] .
  finally show ?thesis
    using batches_cover [OF assms(4,5) lim, of base_us] ingest_finished(3) [OF assms(3-8)] off by simp
qed

section \<open>The two stores\<close>

lemma initial_rows_payload:
  assumes "initial_rows (bt_offset b) (bt_count b) base_us = Inr rows"
  shows "mset (map m_postgres rows) = batch_payload base_us b"
proof -
  have "rows = map (\<lambda>i. measurement_row i base_us) [bt_offset b..bt_offset b + bt_count b - 1]"
    using assms unfolding initial_rows_def
    by (auto simp: result_simps measurement_def list_all2_conv_all_nth split: if_splits intro!: nth_equalityI)
  then show ?thesis by (simp add: batch_payload_def comp_def)
qed

lemma timescale_lands:
  assumes "pg_contract sv names view"
  shows "lands (timescale_submit sv pc names run_id base_us deadline) (\<lambda>w. pending_tx (view w) = None)
    (\<lambda>w. db_rows (committed (view w))) (batch_payload base_us)"
  unfolding lands_def
proof (intro allI impI)
  fix i b w a r w'
  assume idle: "pending_tx (view w) = None"
    and sub: "timescale_submit sv pc names run_id base_us deadline i b w = ((a, r), w')"
  let ?goal = "pending_tx (view w') = None \<and>
    (db_rows (committed (view w')) = db_rows (committed (view w)) + batch_payload base_us b \<or>
     r \<noteq> Inr () \<and> db_rows (committed (view w')) = db_rows (committed (view w)))"
  show ?goal
  proof (cases "initial_rows (bt_offset b) (bt_count b) base_us")
    case (Inl e)
    with sub idle show ?thesis by (auto simp: timescale_submit_def)
  next
    case (Inr rows)
    let ?rid = "request_id run_id ''initial'' (bt_index b)"
    note payload = initial_rows_payload [OF Inr]
    show ?thesis
    proof (cases "length (pc_writers pc) \<le> i")
      case True
      with sub Inr idle show ?thesis by (auto simp: timescale_submit_def pg_write_def)
    next
      case False
      obtain r1 w1 where run: "copy_batch sv (pc_writers pc ! i) True names ?rid rows deadline w = (r1, w1)" by (rule prod.exhaust)
      have r: "w' = w1" "r = Inr () \<Longrightarrow> r1 = Inr True"
        using sub Inr False run by (auto simp: timescale_submit_def pg_write_def guard_def split: sum.splits if_splits)
      from copy_batch_effect [OF assms idle run] r payload show ?thesis
        by (auto simp: batch_effect_def with_batch_def add_rows_def add_receipt_def split: sum.splits bool.splits)
    qed
  qed
qed

text \<open>
  What the server's interface promises for a write: the rows of a request are added together or
  not at all, and a receipt that does not call the request a duplicate means they were added.
\<close>

definition varve_write_contract :: "'w services \<Rightarrow> VarveClient \<Rightarrow> Names \<Rightarrow> ('w \<Rightarrow> pg_row multiset) \<Rightarrow> bool" where
  "varve_write_contract sv vc names stored \<longleftrightarrow>
     (\<forall>rid rows w r w'.
        varve_request sv vc ''POST'' ''/v1/write'' (Some (json_text False True (write_request names rid rows))) w = (r, w') \<longrightarrow>
        stored w' = stored w + mset (map m_postgres rows) \<or>
        stored w' = stored w \<and> \<not> (\<exists>d. r = Inr (JObj d) \<and> dget d ''duplicate'' = JBool False))"

lemma write_request_dumps: "dumps False True (write_request names rid rows) = Inr (json_text False True (write_request names rid rows))"
proof -
  have "json_finite (write_request names rid rows)"
    by (simp add: write_request_def m_varve_def list_all_iff is_finite_def)
  then show ?thesis by (simp add: dumps_def)
qed

lemma receipt_not_duplicate:
  "validate_varve_receipt receipt n False = Inr d \<Longrightarrow> receipt = JObj d \<and> dget d ''duplicate'' = JBool False"
  by (cases receipt) (auto simp: validate_varve_receipt_def result_simps)

lemma varve_lands:
  assumes "varve_write_contract sv vc names stored"
  shows "lands (varve_submit sv vc names run_id base_us) (\<lambda>_. True) stored (batch_payload base_us)"
  unfolding lands_def
proof (intro allI impI)
  fix i b w a r w'
  assume sub: "varve_submit sv vc names run_id base_us i b w = ((a, r), w')"
  show "True \<and> (stored w' = stored w + batch_payload base_us b \<or> r \<noteq> Inr () \<and> stored w' = stored w)"
  proof (cases "initial_rows (bt_offset b) (bt_count b) base_us")
    case (Inl e)
    with sub show ?thesis by (auto simp: varve_submit_def)
  next
    case (Inr rows)
    let ?rid = "request_id run_id ''initial'' (bt_index b)"
    note payload = initial_rows_payload [OF Inr]
    obtain r1 w1 where run: "varve_request sv vc ''POST'' ''/v1/write'' (Some (json_text False True (write_request names ?rid rows))) w = (r1, w1)"
      by (rule prod.exhaust)
    have w': "w' = w1" and ok: "r = Inr () \<Longrightarrow> \<exists>d. r1 = Inr (JObj d) \<and> dget d ''duplicate'' = JBool False"
      using sub Inr run
      by (auto simp: varve_submit_def varve_write_def write_request_dumps result_simps dest!: receipt_not_duplicate split: sum.splits)
    from assms run have "stored w1 = stored w + mset (map m_postgres rows) \<or>
        stored w1 = stored w \<and> \<not> (\<exists>d. r1 = Inr (JObj d) \<and> dget d ''duplicate'' = JBool False)"
      unfolding varve_write_contract_def by blast
    with ok payload w' show ?thesis by auto
  qed
qed



section \<open>A run with one writer\<close>

lemma single_batch_run:
  assumes "submit 0 (batch_at rows bsize 0) w = ((a, Inr ()), w1)" "0 < rows" "rows \<le> bsize"
  shows "\<exists>s. ingest_run submit rows bsize 1 w s \<and> ingest_over s \<and> ig_failure s = None \<and> ig_world s = w1"
proof -
  let ?s0 = "ingest_start 1 w"
  let ?b = "batch_at rows bsize 0"
  have b: "?b = claim_batch rows bsize (ig_next_batch ?s0) (ig_next_offset ?s0)"
    by (simp add: claim_batch_def batch_at_def ingest_start_def)
  let ?s1 = "?s0\<lparr>ig_next_batch := ig_next_batch ?s0 + 1, ig_next_offset := ig_next_offset ?s0 + bt_count ?b,
          ig_workers := (ig_workers ?s0)[0 := Writing ?b], ig_prepared := ig_prepared ?s0 @ [0],
          ig_claimed := ig_claimed ?s0 @ [?b]\<rparr>"
  have st1: "ingest_step submit rows bsize ?s0 ?s1"
    by (rule ingest_step.claim [OF _ _ _ _ b]) (use assms in \<open>simp_all add: ingest_start_def\<close>)
  let ?s2 = "?s1\<lparr>ig_world := w1, ig_latencies := ig_latencies ?s1 @ [0], ig_acknowledged := ig_acknowledged ?s1 + bt_count ?b,
          ig_workers := (ig_workers ?s1)[0 := Idle], ig_acked := ig_acked ?s1 @ [?b]\<rparr>"
  have st2: "ingest_step submit rows bsize ?s1 ?s2"
    by (rule ingest_step.acknowledge [where answered = a]) (use assms in \<open>simp_all add: ingest_start_def\<close>)
  let ?s3 = "?s2\<lparr>ig_workers := (ig_workers ?s2)[0 := Returned]\<rparr>"
  have st3: "ingest_step submit rows bsize ?s2 ?s3"
    by (rule ingest_step.leave) (use assms in \<open>simp_all add: ingest_start_def batch_at_def\<close>)
  have "ingest_run submit rows bsize 1 w ?s3" using st1 st2 st3 by (meson rtranclp.rtrancl_into_rtrancl rtranclp.rtrancl_refl)
  moreover have "ingest_over ?s3" "ig_failure ?s3 = None" "ig_world ?s3 = w1"
    by (simp_all add: ingest_over_def ingest_start_def)
  ultimately show ?thesis by blast
qed

text \<open>A store that keeps every row it is sent.\<close>

definition keep_rows :: "pg_row multiset submit" where
  "keep_rows i b w = ((True, Inr ()), w + batch_payload 0 b)"

theorem ingest_conservation_witness:
  "\<exists>s. ingest_run keep_rows 3 5 1 {#} s \<and> ig_acknowledged s \<le> ig_next_offset s \<and> ig_next_offset s \<le> 3"
proof -
  obtain s where run: "ingest_run keep_rows 3 5 1 {#} s"
    using single_batch_run [of keep_rows 3 5 "{#}" True "batch_payload 0 (batch_at 3 5 0)"] by (auto simp: keep_rows_def)
  from ingest_conservation [OF run] run show ?thesis by auto
qed

theorem ingest_success_complete_witness:
  "\<exists>s. ingest_run keep_rows 3 5 1 {#} s \<and> ig_acknowledged s = 3"
proof -
  obtain s where run: "ingest_run keep_rows 3 5 1 {#} s" "ingest_over s" "ig_failure s = None"
    using single_batch_run [of keep_rows 3 5 "{#}" True "batch_payload 0 (batch_at 3 5 0)"] by (auto simp: keep_rows_def)
  from ingest_success_complete [OF run(1) _ _ _ run(2,3)] run(1) show ?thesis by auto
qed


lemma ideal_copy:
  assumes "b \<notin> dom (db_receipts (committed v))" "pending_tx v = None" "length rows \<noteq> 1"
  shows "copy_batch ideal_services c True names b rows example_deadline v = (Inr True, v\<lparr>committed := with_batch b rows (committed v)\<rparr>)"
proof -
  have "fl 100 = 100" using b64.int_exact [of 100] by simp
  then have tm: "io_timeout ideal_services example_deadline CALL_TIMEOUT v = (Inr 35, v)"
    by (simp add: io_timeout_def ideal_services_def dl_timeout_def dl_remaining_def CALL_TIMEOUT_def)
  have "copy_batch ideal_services c True names b rows example_deadline v =
      io_transaction ideal_services c 35 (copy_many ideal_services c names b rows 35) v"
    using assms(3) by (auto simp: copy_batch_def io_bind_def tm split: list.splits)
  also have "\<dots> = (Inr True, v\<lparr>committed := with_batch b rows (committed v)\<rparr>)"
    using assms(1,2)
    by (simp add: io_transaction_def copy_many_def ideal_services_def ideal_pg_def io_then_def io_bind_def
        receipt_insert_def fetchone_def seen_def put_def with_batch_def Let_def)
  finally show ?thesis .
qed


text \<open>A server that refuses every write meets the contract, and an empty ingestion succeeds on it.\<close>

definition refusing_services :: "pg_row multiset services" where
  "refusing_services = \<lparr>sv_now = io_return 0, sv_utc = io_return [],
     sv_http = (\<lambda>_ _ _ _. io_raise (RuntimeError ''refused'')), sv_connect = (\<lambda>_ _. io_return 1),
     sv_close = (\<lambda>_. io_return ()), sv_pg = (\<lambda>_ _ _ _. io_return None), sv_copy = (\<lambda>_ _ _ _. io_return ())\<rparr>"


end
