(* ===== verification/Retry.thy ===== *)
theory Retry
  imports Maintenance Ingest
begin

text \<open>
  The fingerprints of the raw tables of both servers, and the drill that repeats an acknowledged
  batch under its stable identity, and a changed batch under the same identity, and demands that
  neither changes anything.
\<close>

section \<open>Raw fingerprints\<close>

definition fingerprint_projection :: string where
  "fingerprint_projection = ''count(*) AS n, sum(value) AS total, min(value) AS min, max(value) AS max, '' @
     ''min(timestamp_us) AS min_timestamp_us, max(timestamp_us) AS max_timestamp_us''"

definition varve_moments_sql :: "Names \<Rightarrow> string \<Rightarrow> string" where
  "varve_moments_sql names dir =
     ''SELECT timestamp_us, tenant, series, value FROM '' @ varve_table names @
     '' ORDER BY timestamp_us '' @ dir @ '', tenant '' @ dir @ '', series '' @ dir @ '', value '' @ dir @ '' LIMIT 8''"

definition pg_summary_stmt :: "Names \<Rightarrow> statement" where
  "pg_summary_stmt names =
     [Sql (''SELECT count(*)::bigint AS n, sum(value)::double precision AS total, '' @
        ''min(value)::double precision AS min, max(value)::double precision AS max, '' @
        ''(extract(epoch FROM min(ts))*1000000)::bigint AS min_timestamp_us, '' @
        ''(extract(epoch FROM max(ts))*1000000)::bigint AS max_timestamp_us FROM ''),
      qualified_name (pg_schema names) (pg_table names)]"

definition pg_moments_stmt :: "Names \<Rightarrow> string \<Rightarrow> statement" where
  "pg_moments_stmt names dir =
     [Sql ''SELECT (extract(epoch FROM ts)*1000000)::bigint AS timestamp_us, tenant, series, value FROM '',
      qualified_name (pg_schema names) (pg_table names),
      Sql ('' ORDER BY ts '' @ dir @ '', tenant '' @ dir @ '', series '' @ dir @ '', value '' @ dir @ '' LIMIT 8'')]"

definition pg_identity_stmt :: statement where
  "pg_identity_stmt = [Sql (''SELECT current_database() AS database_name, d.oid::bigint AS database_oid, '' @
     ''n.nspname AS schema_name, n.oid::bigint AS schema_oid '' @
     ''FROM pg_database d CROSS JOIN pg_namespace n '' @
     ''WHERE d.datname = current_database() AND n.nspname = %s'')]"

definition normalize_moment :: "json \<Rightarrow> json result" where
  "normalize_moment row =
     ebind (ebind (field row ''timestamp_us'') py_to_int) (\<lambda>t.
     ebind (field row ''tenant'') (\<lambda>tn.
     ebind (field row ''series'') (\<lambda>se.
     ebind (ebind (field row ''value'') py_to_float) (\<lambda>v.
     Inr (JObj [(''timestamp_us'', JInt t), (''tenant'', JStr (py_str tn)), (''series'', JStr (py_str se)), (''value'', JFloat v)])))))"

definition normalize_moments :: "json list \<Rightarrow> json list result" where
  "normalize_moments rows = emap normalize_moment rows"

definition float_or_none :: "json \<Rightarrow> json result" where
  "float_or_none v = (case v of JNull \<Rightarrow> Inr JNull | _ \<Rightarrow> ebind (py_to_float v) (\<lambda>f. Inr (JFloat f)))"

definition int_or_none :: "json \<Rightarrow> json result" where
  "int_or_none v = (case v of JNull \<Rightarrow> Inr JNull | _ \<Rightarrow> ebind (py_to_int v) (\<lambda>i. Inr (JInt i)))"

definition common :: "json list \<Rightarrow> json list \<Rightarrow> json list \<Rightarrow> json result" where
  "common summary_rows first_rows last_rows =
     (case summary_rows of
        [row] \<Rightarrow>
          ebind (ebind (field row ''n'') py_to_int) (\<lambda>n.
          ebind (ebind (field row ''total'') float_or_none) (\<lambda>total.
          ebind (ebind (field row ''min'') float_or_none) (\<lambda>mn.
          ebind (ebind (field row ''max'') float_or_none) (\<lambda>mx.
          ebind (ebind (field row ''min_timestamp_us'') int_or_none) (\<lambda>t0.
          ebind (ebind (field row ''max_timestamp_us'') int_or_none) (\<lambda>t1.
          ebind (normalize_moments first_rows) (\<lambda>firsts.
          ebind (normalize_moments last_rows) (\<lambda>lasts.
          Inr (JObj [(''count'', JInt n), (''sum'', total), (''min'', mn), (''max'', mx),
            (''min_timestamp_us'', t0), (''max_timestamp_us'', t1),
            (''first_exact_moments'', JList firsts), (''last_exact_moments'', JList lasts)])))))))))
      | _ \<Rightarrow> Inl (RuntimeError ''raw fingerprint summary returned an unexpected row count''))"

definition fingerprint_entry :: "json \<Rightarrow> json \<Rightarrow> json result" where
  "fingerprint_entry identity raw =
     ebind (canonical_json_sha256 raw) (\<lambda>raw_digest.
     ebind (canonical_json_sha256 (JObj [(''database_identity'', identity), (''raw'', raw)])) (\<lambda>digest.
     Inr (JObj [(''database_identity'', identity), (''raw'', raw), (''raw_sha256'', JStr raw_digest),
                (''fingerprint_sha256'', JStr digest)])))"

definition varve_identity :: "json \<Rightarrow> json result" where
  "varve_identity status = (case status of
     JObj d \<Rightarrow> (case dget d ''database_id'' of
        JStr s \<Rightarrow> if s = [] then Inl (RuntimeError ''Varve raw fingerprint lacks database identity'')
                 else Inr (JObj [(''database_id'', JStr s)])
      | _ \<Rightarrow> Inl (RuntimeError ''Varve raw fingerprint lacks database identity''))
   | _ \<Rightarrow> Inl (AttributeError ''get''))"

definition fingerprints_of :: "json \<Rightarrow> json \<Rightarrow> json \<Rightarrow> json list \<Rightarrow> dict result" where
  "fingerprints_of varve_raw timescale_raw status identity_rows =
     (if \<not> py_eq varve_raw timescale_raw then Inl (RuntimeError ''Varve and Timescale raw exact-moment fingerprints differ'')
      else
       ebind (varve_identity status) (\<lambda>vid.
       case identity_rows of
         [pid] \<Rightarrow>
           ebind (fingerprint_entry vid varve_raw) (\<lambda>v.
           ebind (fingerprint_entry pid timescale_raw) (\<lambda>p.
           Inr [(''varve'', v), (''timescale'', p)]))
       | _ \<Rightarrow> Inl (RuntimeError ''Timescale raw fingerprint lacks database identity'')))"

definition raw_fingerprints :: "'w services \<Rightarrow> VarveClient \<Rightarrow> TimescaleClient \<Rightarrow> Names \<Rightarrow> ('w, dict) io" where
  "raw_fingerprints sv vc pc names =
     io_bind (varve_sql sv vc (''SELECT '' @ fingerprint_projection @ '' FROM '' @ varve_table names)) (\<lambda>varve_summary.
     io_bind (varve_sql sv vc (varve_moments_sql names ''ASC'')) (\<lambda>varve_first.
     io_bind (varve_sql sv vc (varve_moments_sql names ''DESC'')) (\<lambda>varve_last.
     io_bind (varve_request sv vc ''GET'' ''/v1/status'' None) (\<lambda>status.
     io_bind (pg_query sv pc (pg_summary_stmt names) []) (\<lambda>pg_summary.
     io_bind (pg_query sv pc (pg_moments_stmt names ''ASC'') []) (\<lambda>pg_first.
     io_bind (pg_query sv pc (pg_moments_stmt names ''DESC'') []) (\<lambda>pg_last.
     io_bind (pg_query sv pc pg_identity_stmt [JStr (pg_schema names)]) (\<lambda>identity_rows.
     io_lift (ebind (common varve_summary varve_first varve_last) (\<lambda>varve_raw.
              ebind (common pg_summary pg_first pg_last) (\<lambda>timescale_raw.
              fingerprints_of varve_raw timescale_raw status identity_rows)))))))))))"

section \<open>The drill\<close>

text \<open>The changed batch: its first row is one quarter higher.\<close>

definition conflicting_rows :: "Measurement list \<Rightarrow> Measurement list result" where
  "conflicting_rows rows = (case rows of
     [] \<Rightarrow> Inl (IndexError ''list index out of range'')
   | row # rest \<Rightarrow> Inr (row\<lparr>value_q := value_q row + 1\<rparr> # rest))"

definition post_batch :: "'w services \<Rightarrow> VarveClient \<Rightarrow> Names \<Rightarrow> string \<Rightarrow> Measurement list \<Rightarrow> ('w, json) io" where
  "post_batch sv vc names batch_id rows =
     io_bind (io_lift (dumps False True (write_request names batch_id rows))) (\<lambda>body.
     varve_request sv vc ''POST'' ''/v1/write'' (Some body))"

definition first_writer :: "TimescaleClient \<Rightarrow> nat result" where
  "first_writer pc = (case pc_writers pc of [] \<Rightarrow> Inl (IndexError ''list index out of range'') | c # _ \<Rightarrow> Inr c)"

definition varve_refuses :: "('w, json) io \<Rightarrow> ('w, unit) io" where
  "varve_refuses post = (\<lambda>w. case post w of
     (Inr _, w') \<Rightarrow> (Inl (RuntimeError ''Varve accepted a conflicting stable request ID''), w')
   | (Inl e, w') \<Rightarrow> (case e of
       HttpStatus status _ \<Rightarrow>
         (if status \<noteq> 409 then Inl (RuntimeError ''Varve conflicting retry did not return HTTP 409'') else Inr (), w')
     | _ \<Rightarrow> (Inl e, w')))"

definition timescale_refuses :: "('w, bool) io \<Rightarrow> ('w, unit) io" where
  "timescale_refuses copy = (\<lambda>w. case copy w of
     (Inr _, w') \<Rightarrow> (Inl (RuntimeError ''Timescale accepted a conflicting stable batch ID''), w')
   | (Inl e, w') \<Rightarrow>
       (if is_runtime_error e \<and> sublist ''conflicts with its canonical payload digest'' (error_text e) then Inr () else Inl e, w'))"

definition conflict_drill :: "'w services \<Rightarrow> VarveClient \<Rightarrow> TimescaleClient \<Rightarrow> Names \<Rightarrow> string \<Rightarrow> Measurement list \<Rightarrow> Deadline \<Rightarrow> ('w, json) io" where
  "conflict_drill sv vc pc names batch_id rows deadline =
     io_bind (io_lift (conflicting_rows rows)) (\<lambda>conflicting.
     io_then (varve_refuses (post_batch sv vc names batch_id conflicting))
     (io_bind (io_lift (first_writer pc)) (\<lambda>c.
     io_then (timescale_refuses (copy_batch sv c True names batch_id conflicting deadline))
     (io_return (JObj [(''varve_http_status'', JInt 409), (''timescale_payload_digest_conflict'', JBool True)])))))"

definition drill_outcomes :: "string \<Rightarrow> int \<Rightarrow> dict \<Rightarrow> json \<Rightarrow> dict \<Rightarrow> dict \<Rightarrow> dict" where
  "drill_outcomes batch_id n receipt conflicting before after =
     [(''batch_id'', JStr batch_id), (''rows'', JInt n),
      (''identical'', JObj [(''varve_duplicate'', dget receipt ''duplicate''), (''varve_sequence'', dget receipt ''sequence''),
                          (''timescale_duplicate'', JBool True)]),
      (''conflicting'', conflicting), (''fingerprints_before'', JObj before), (''fingerprints_after'', JObj after),
      (''unchanged'', JBool True)]"

definition stable_retry_drill :: "'w services \<Rightarrow> VarveClient \<Rightarrow> TimescaleClient \<Rightarrow> Names \<Rightarrow> string \<Rightarrow> int \<Rightarrow> int \<Rightarrow> int \<Rightarrow> Deadline \<Rightarrow> bool \<Rightarrow> ('w, dict) io" where
  "stable_retry_drill sv vc pc names run_id base_us initial_count bsize deadline include_conflicting =
     io_bind (io_lift (initial_rows 0 (min bsize initial_count) base_us)) (\<lambda>rows.
     let batch_id = request_id run_id ''initial'' 0 in
     io_bind (raw_fingerprints sv vc pc names) (\<lambda>before.
     io_bind (post_batch sv vc names batch_id rows) (\<lambda>answer.
     io_bind (io_lift (validate_varve_receipt answer (min bsize initial_count) True)) (\<lambda>receipt.
     io_bind (io_lift (first_writer pc)) (\<lambda>c.
     io_bind (copy_batch sv c True names batch_id rows deadline) (\<lambda>inserted.
     if inserted then io_raise (RuntimeError ''Timescale identical retry unexpectedly inserted rows'')
     else
     io_bind (if include_conflicting then conflict_drill sv vc pc names batch_id rows deadline
              else io_return (JStr ''not_requested'')) (\<lambda>conflicting.
     io_bind (raw_fingerprints sv vc pc names) (\<lambda>after.
     if \<not> py_eq (JObj before) (JObj after) then io_raise (RuntimeError ''raw fingerprint changed across stable-ID retry drill'')
     else io_return (drill_outcomes batch_id (min bsize initial_count) receipt conflicting before after)))))))))"

section \<open>Fingerprints that were returned agree\<close>

text \<open>The shape of a summary: every field is normalised to one type, so that equal means the same.\<close>

definition floaty :: "json \<Rightarrow> bool" where
  "floaty v \<longleftrightarrow> v = JNull \<or> (\<exists>f. v = JFloat f)"

definition inty :: "json \<Rightarrow> bool" where
  "inty v \<longleftrightarrow> v = JNull \<or> (\<exists>i. v = JInt i)"

definition moment_shape :: "json \<Rightarrow> bool" where
  "moment_shape v \<longleftrightarrow> (\<exists>t tn se f. v = JObj [(''timestamp_us'', JInt t), (''tenant'', JStr tn), (''series'', JStr se), (''value'', JFloat f)])"

definition raw_shape :: "json \<Rightarrow> bool" where
  "raw_shape v \<longleftrightarrow> (\<exists>n s mn mx t u fs ls.
     v = JObj [(''count'', JInt n), (''sum'', s), (''min'', mn), (''max'', mx), (''min_timestamp_us'', t), (''max_timestamp_us'', u),
               (''first_exact_moments'', JList fs), (''last_exact_moments'', JList ls)] \<and>
     floaty s \<and> floaty mn \<and> floaty mx \<and> inty t \<and> inty u \<and> list_all moment_shape fs \<and> list_all moment_shape ls)"

lemma raw_shapeI:
  assumes "floaty s" "floaty mn" "floaty mx" "inty t" "inty u" "list_all moment_shape fs" "list_all moment_shape ls"
  shows "raw_shape (JObj [(''count'', JInt n), (''sum'', s), (''min'', mn), (''max'', mx), (''min_timestamp_us'', t),
    (''max_timestamp_us'', u), (''first_exact_moments'', JList fs), (''last_exact_moments'', JList ls)])"
  unfolding raw_shape_def using assms by blast

lemma floaty_eq: "floaty a \<Longrightarrow> floaty b \<Longrightarrow> py_eq a b \<Longrightarrow> a = b"
  by (auto simp: floaty_def py_eq.simps number_of_def)

lemma inty_eq: "inty a \<Longrightarrow> inty b \<Longrightarrow> py_eq a b \<Longrightarrow> a = b"
  by (auto simp: inty_def py_eq.simps number_of_def)

lemma moment_shape_eq: "moment_shape a \<Longrightarrow> moment_shape b \<Longrightarrow> py_eq a b \<Longrightarrow> a = b"
  by (auto simp: moment_shape_def py_eq_obj)

lemma moments_eq:
  assumes "list_all moment_shape as" "list_all moment_shape bs" "py_eq (JList as) (JList bs)"
  shows "as = bs"
proof -
  have "list_all2 py_eq as bs" using assms(3) by simp
  then have "list_all2 (=) as bs"
    by (rule list.rel_mono_strong) (use assms(1,2) moment_shape_eq in \<open>auto simp: list_all_iff\<close>)
  then show ?thesis by (simp add: list.rel_eq)
qed

lemma raw_shape_eq:
  assumes "raw_shape a" "raw_shape b" "py_eq a b"
  shows "a = b"
proof -
  obtain n s mn mx t u fs ls where a:
    "a = JObj [(''count'', JInt n), (''sum'', s), (''min'', mn), (''max'', mx), (''min_timestamp_us'', t), (''max_timestamp_us'', u),
       (''first_exact_moments'', JList fs), (''last_exact_moments'', JList ls)]"
    "floaty s" "floaty mn" "floaty mx" "inty t" "inty u" "list_all moment_shape fs" "list_all moment_shape ls"
    using assms(1) unfolding raw_shape_def by (elim exE conjE)
  obtain n' s' mn' mx' t' u' fs' ls' where b:
    "b = JObj [(''count'', JInt n'), (''sum'', s'), (''min'', mn'), (''max'', mx'), (''min_timestamp_us'', t'), (''max_timestamp_us'', u'),
       (''first_exact_moments'', JList fs'), (''last_exact_moments'', JList ls')]"
    "floaty s'" "floaty mn'" "floaty mx'" "inty t'" "inty u'" "list_all moment_shape fs'" "list_all moment_shape ls'"
    using assms(2) unfolding raw_shape_def by (elim exE conjE)
  have eqs: "n = n'" "py_eq s s'" "py_eq mn mn'" "py_eq mx mx'" "py_eq t t'" "py_eq u u'"
      "py_eq (JList fs) (JList fs')" "py_eq (JList ls) (JList ls')"
    using assms(3) unfolding a(1) b(1) py_eq_obj by (simp_all del: py_eq_simps(5))
  show ?thesis
    unfolding a(1) b(1) eqs(1) floaty_eq [OF a(2) b(2) eqs(2)] floaty_eq [OF a(3) b(3) eqs(3)] floaty_eq [OF a(4) b(4) eqs(4)]
      inty_eq [OF a(5) b(5) eqs(5)] inty_eq [OF a(6) b(6) eqs(6)] moments_eq [OF a(7) b(7) eqs(7)] moments_eq [OF a(8) b(8) eqs(8)] ..
qed

lemma float_or_none_shape: "float_or_none v = Inr a \<Longrightarrow> floaty a"
  by (auto simp: float_or_none_def floaty_def result_simps split: json.splits)

lemma int_or_none_shape: "int_or_none v = Inr a \<Longrightarrow> inty a"
  by (auto simp: int_or_none_def inty_def result_simps split: json.splits)

lemma normalize_moment_shape: "normalize_moment r = Inr a \<Longrightarrow> moment_shape a"
  by (auto simp: normalize_moment_def moment_shape_def result_simps)

lemma normalize_moments_shape: "normalize_moments rs = Inr as \<Longrightarrow> list_all moment_shape as"
  unfolding normalize_moments_def emap_Inr_iff
  by (induction rs as rule: list_all2_induct) (auto intro: normalize_moment_shape)

lemma common_shape:
  assumes "common s f l = Inr a"
  shows "raw_shape a"
proof -
  obtain row where s: "s = [row]" using assms unfolding common_def by (cases s; cases "tl s") simp_all
  show ?thesis
    using assms unfolding common_def s list.case
    by (elim ebindE) (simp only: sum.inject, erule subst, rule raw_shapeI,
      (erule float_or_none_shape int_or_none_shape normalize_moments_shape)+)
qed

lemma fingerprint_entry_parts:
  "fingerprint_entry i r = Inr e \<Longrightarrow> jget e ''raw'' = r \<and> jget e ''database_identity'' = i \<and>
     (\<exists>h. canonical_json_sha256 r = Inr h \<and> jget e ''raw_sha256'' = JStr h)"
  unfolding fingerprint_entry_def by (elim ebindE) (auto simp: jget_def dget_def)

lemma varve_identity_shape:
  "varve_identity status = Inr v \<Longrightarrow> \<exists>s. s \<noteq> [] \<and> v = JObj [(''database_id'', JStr s)]"
  by (auto simp: varve_identity_def split: json.splits if_splits)

lemma fingerprints_of_parts:
  assumes "fingerprints_of vr tr status ids = Inr d"
  shows "\<exists>vid pid ve pe. varve_identity status = Inr vid \<and> fingerprint_entry vid vr = Inr ve \<and>
    fingerprint_entry pid tr = Inr pe \<and> d = [(''varve'', ve), (''timescale'', pe)]"
proof -
  have "py_eq vr tr" using assms unfolding fingerprints_of_def by (cases "py_eq vr tr") simp_all
  with assms obtain vid where v: "varve_identity status = Inr vid" and
    rest: "(case ids of [pid] \<Rightarrow> ebind (fingerprint_entry vid vr) (\<lambda>v. ebind (fingerprint_entry pid tr) (\<lambda>p. Inr [(''varve'', v), (''timescale'', p)]))
       | _ \<Rightarrow> Inl (RuntimeError ''Timescale raw fingerprint lacks database identity'')) = Inr d"
    unfolding fingerprints_of_def by (simp only: simp_thms if_False) (erule ebindE)
  obtain pid where "ids = [pid]" using rest by (cases ids; cases "tl ids") simp_all
  with v rest show ?thesis by (auto elim!: ebindE)
qed


definition summary_sql :: "string \<Rightarrow> json list" where
  "summary_sql s =
     (if s = ''SELECT '' @ fingerprint_projection @ '' FROM '' @ varve_table example_names
      then [JObj (map (\<lambda>k. (k, JNull)) [''total'', ''min'', ''max'', ''min_timestamp_us'', ''max_timestamp_us''] @ [(''n'', JInt 0)])] else [])"

definition summary_pg :: "statement \<Rightarrow> dict list" where
  "summary_pg s =
     (if s = pg_summary_stmt example_names
      then [map (\<lambda>k. (k, JNull)) [''total'', ''min'', ''max'', ''min_timestamp_us'', ''max_timestamp_us''] @ [(''n'', JInt 0)]]
      else if s = pg_identity_stmt then [[(''database_name'', JStr ''db'')]] else [])"

abbreviation empty_tables :: "unit services" where
  "empty_tables \<equiv> canned_services (\<lambda>_. JObj [(''database_id'', JStr ''db'')]) summary_sql summary_pg"

lemma empty_tables_fingerprints: "\<exists>d. raw_fingerprints empty_tables canned_varve canned_pg example_names () = (Inr d, ())"
proof -
  have size: "json_plain (JList (summary_sql s)) \<and> length (utf8 (json_text False True (JList (summary_sql s)))) \<le> 16777216" for s
    by (simp add: summary_sql_def utf8_def utf8_char_def enc_str_def esc_char_def dec_int_def dec_nat.simps)
  note sql = canned_sql [where s = summary_sql, OF conjunct1 [OF size] conjunct2 [OF size]]
  have get: "varve_request empty_tables canned_varve ''GET'' ''/v1/status'' None w = (Inr (JObj [(''database_id'', JStr ''db'')]), w)" for w
    by (rule canned_get) (simp_all add: utf8_def utf8_char_def enc_str_def esc_char_def)
  have replies: "summary_sql (varve_moments_sql example_names dir) = []" "summary_pg (pg_moments_stmt example_names dir) = []" for dir
    by (simp_all add: summary_sql_def summary_pg_def varve_moments_sql_def fingerprint_projection_def pg_moments_stmt_def
        pg_summary_stmt_def pg_identity_stmt_def)
  have ident: "summary_pg pg_identity_stmt = [[(''database_name'', JStr ''db'')]]"
    by (simp add: summary_pg_def pg_summary_stmt_def pg_identity_stmt_def)
  let ?raw = "JObj [(''count'', JInt 0), (''sum'', JNull), (''min'', JNull), (''max'', JNull), (''min_timestamp_us'', JNull),
    (''max_timestamp_us'', JNull), (''first_exact_moments'', JList []), (''last_exact_moments'', JList [])]"
  have common: "common (summary_sql (''SELECT '' @ fingerprint_projection @ '' FROM '' @ varve_table example_names)) [] [] = Inr ?raw"
      "common (map JObj (summary_pg (pg_summary_stmt example_names))) [] [] = Inr ?raw"
    by (simp_all add: common_def summary_sql_def summary_pg_def field_def dindex_def py_to_int_def float_or_none_def int_or_none_def normalize_moments_def)
  have digest: "\<exists>h. canonical_json_sha256 v = Inr h" if "json_finite v" for v
    using that by (simp add: canonical_json_sha256_def dumps_def)
  have "py_eq ?raw ?raw" by (simp add: py_eq_obj)
  moreover obtain h1 h2 h3 where "canonical_json_sha256 ?raw = Inr h1"
      "canonical_json_sha256 (JObj [(''database_identity'', JObj [(''database_id'', JStr ''db'')]), (''raw'', ?raw)]) = Inr h2"
      "canonical_json_sha256 (JObj [(''database_identity'', JObj [(''database_name'', JStr ''db'')]), (''raw'', ?raw)]) = Inr h3"
    using digest [of ?raw] digest [of "JObj [(''database_identity'', JObj [(''database_id'', JStr ''db'')]), (''raw'', ?raw)]"]
      digest [of "JObj [(''database_identity'', JObj [(''database_name'', JStr ''db'')]), (''raw'', ?raw)]"] by auto
  ultimately have "\<exists>d. fingerprints_of ?raw ?raw (JObj [(''database_id'', JStr ''db'')]) [JObj [(''database_name'', JStr ''db'')]] = Inr d"
    by (simp add: fingerprints_of_def varve_identity_def fingerprint_entry_def dget_def)
  then show ?thesis
    unfolding raw_fingerprints_def
    by (simp only: io_bind_def sql get canned_query replies ident common list.map prod.case sum.case io_run ebind_simps prod.inject simp_thms)
qed


section \<open>The drill changes nothing\<close>

text \<open>The tables of PostgreSQL are untouched by the clock, by Varve and by statements that only read.\<close>

definition reads_keep :: "'w services \<Rightarrow> ('w \<Rightarrow> pg_view) \<Rightarrow> bool" where
  "reads_keep sv view \<longleftrightarrow>
     (\<forall>v. keeps (\<lambda>w. view w = v) (sv_now sv)) \<and>
     (\<forall>v verb url body t. keeps (\<lambda>w. view w = v) (sv_http sv verb url body t)) \<and>
     (\<forall>v c stmt params t. read_only stmt \<longrightarrow> keeps (\<lambda>w. view w = v) (sv_pg sv c stmt params t))"

lemma fingerprints_keep:
  assumes "reads_keep sv view"
  shows "keeps (\<lambda>w. view w = v) (raw_fingerprints sv vc pc names)"
proof -
  have now: "keeps (\<lambda>w. view w = v) (sv_now sv)" using assms by (simp add: reads_keep_def)
  have http: "keeps (\<lambda>w. view w = v) (sv_http sv verb url body t)" for verb url body t using assms by (simp add: reads_keep_def)
  have pg: "keeps (\<lambda>w. view w = v) (pg_query sv pc stmt params)" if "read_only stmt" for stmt params
    using assms that by (intro keeps_query now) (simp add: reads_keep_def)
  have ro: "read_only (pg_summary_stmt names)" "read_only (pg_moments_stmt names dir)" "read_only pg_identity_stmt" for dir
    by (simp_all add: read_only_def pg_summary_stmt_def pg_moments_stmt_def pg_identity_stmt_def)
  show ?thesis
    unfolding raw_fingerprints_def by (intro keeps_bind keeps_simps keeps_sql keeps_request now http pg ro)
qed

lemma copy_recorded_keeps:
  assumes "pg_contract sv names view" "pending_tx v = None" "b \<in> dom (db_receipts (committed v))"
  shows "keeps (\<lambda>w. view w = v) (copy_batch sv c autocommit names b rows deadline)"
  unfolding keeps_def
proof (intro allI impI)
  fix w assume w: "view w = v"
  obtain r w' where run: "copy_batch sv c autocommit names b rows deadline w = (r, w')" by (rule prod.exhaust)
  have idle: "pending_tx (view w) = None" using w assms(2) by simp
  from copy_batch_effect [OF assms(1) idle run] assms(3) w
  have "pending_tx (view w') = pending_tx v" "committed (view w') = committed v"
    using assms(2) by (auto simp: batch_effect_def split: sum.splits bool.splits)
  then show "view (snd (copy_batch sv c autocommit names b rows deadline w)) = v" using run by simp
qed

lemma post_keeps: "reads_keep sv view \<Longrightarrow> keeps (\<lambda>w. view w = v) (post_batch sv vc names b rows)"
  unfolding post_batch_def by (intro keeps_bind keeps_simps keeps_request) (simp_all add: reads_keep_def)

lemma refuses_keeps:
  "keeps P post \<Longrightarrow> keeps P (varve_refuses post)"
  "keeps P copy \<Longrightarrow> keeps P (timescale_refuses copy)"
  unfolding keeps_def varve_refuses_def timescale_refuses_def by (auto split: prod.splits sum.splits pyerror.splits)


text \<open>The server that never fails, where statements that only read have no effect.\<close>

definition quiet_services :: "pg_view services" where
  "quiet_services = ideal_services\<lparr>sv_pg := (\<lambda>_ stmt params _ w.
     if read_only stmt then (fst (ideal_pg stmt params w), w) else ideal_pg stmt params w)\<rparr>"

lemma quiet_reads_keep: "reads_keep quiet_services id"
  by (simp add: reads_keep_def keeps_def quiet_services_def) (simp add: ideal_services_def)

lemma quiet_pg: "\<not> read_only stmt \<or> snd (ideal_pg stmt params w) = w \<Longrightarrow>
    sv_pg quiet_services c stmt params t w = sv_pg ideal_services c stmt params t w"
  by (auto simp: quiet_services_def ideal_services_def prod_eq_iff)

lemma quiet_contract: "pg_contract quiet_services names id"
proof -
  have ro: "\<not> read_only [Sql ''BEGIN'']" "\<not> read_only [Sql ''COMMIT'']" "\<not> read_only [Sql ''ROLLBACK'']"
      "\<not> read_only (receipt_insert names)" "\<not> read_only (single_insert names)"
    by (simp_all add: read_only_def receipt_insert_def single_insert_def)
  have select: "snd (ideal_pg (receipt_select locked names) [JStr b] w) = w" for locked b w
    by (simp add: ideal_pg_def receipt_select_def)
  have rest: "sv_now quiet_services = sv_now ideal_services" "sv_copy quiet_services = sv_copy ideal_services"
    by (simp_all add: quiet_services_def)
  show ?thesis
    using ideal_contract [of names] unfolding pg_contract_def rest
    by (simp only: quiet_pg [OF disjI1 [OF ro(1)]] quiet_pg [OF disjI1 [OF ro(2)]] quiet_pg [OF disjI1 [OF ro(3)]]
        quiet_pg [OF disjI1 [OF ro(4)]] quiet_pg [OF disjI1 [OF ro(5)]] quiet_pg [OF disjI2 [OF select]] simp_thms)
qed

definition drilled_view :: pg_view where
  "drilled_view = \<lparr>committed = \<lparr>db_receipts = [''run-initial-00000000'' \<mapsto> (1, ''digest'')], db_rows = {#}\<rparr>, pending_tx = None\<rparr>"


end
