(* ===== verification/Argparse.thy ===== *)
theory Argparse
  imports Driver_Util
begin

text \<open>
  What the programs use of \<^verbatim>\<open>pathlib\<close> and of \<^verbatim>\<open>argparse\<close>: long options with their value in the next
  word or after \<^verbatim>\<open>=\<close>, unique abbreviations, words that look like negative numbers, and the exit with
  code 2 on every error. A parser is its table of options.
\<close>

section \<open>Paths\<close>

fun split_char :: "char \<Rightarrow> string \<Rightarrow> string list" where
  "split_char c [] = [[]]"
| "split_char c (x # xs) =
     (if x = c then [] # split_char c xs
      else case split_char c xs of [] \<Rightarrow> [[x]] | p # ps \<Rightarrow> (x # p) # ps)"

definition path_parts :: "string \<Rightarrow> string list" where
  "path_parts s = filter (\<lambda>p. p \<noteq> [] \<and> p \<noteq> ''.'') (split_char (CHR ''/'') s)"

definition path_root :: "string \<Rightarrow> string" where
  "path_root s = (if prefix ''//'' s \<and> \<not> prefix ''///'' s then ''//'' else if prefix ''/'' s then ''/'' else [])"

text \<open>\<^verbatim>\<open>str(Path(s))\<close>.\<close>

definition py_path :: "string \<Rightarrow> string" where
  "py_path s = (if path_root s = [] \<and> path_parts s = [] then ''.'' else path_root s @ join_str ''/'' (path_parts s))"

definition file_stem :: "string \<Rightarrow> string" where
  "file_stem name =
     (let rest = dropWhile (\<lambda>c. c \<noteq> CHR ''.'') (rev name) in
      if rest = [] \<or> length rest = 1 \<or> length rest = length name then name else rev (tl rest))"

definition with_suffix :: "string \<Rightarrow> string \<Rightarrow> string result" where
  "with_suffix path ending =
     (let parts = path_parts path in
      if parts = [] then Inl (ValueError (path @ '' has an empty name''))
      else Inr (path_root path @ join_str ''/'' (butlast parts @ [file_stem (last parts) @ ending])))"

section \<open>Options\<close>

text \<open>An option takes a value, is a flag, or prints the help text and exits.\<close>

datatype 'n action = Takes "string \<Rightarrow> 'n \<Rightarrow> 'n result" | Flag "'n \<Rightarrow> 'n" | Help

definition takes :: "(string \<Rightarrow> 'a result) \<Rightarrow> ('a \<Rightarrow> 'n \<Rightarrow> 'n) \<Rightarrow> 'n action" where
  "takes convert store = Takes (\<lambda>value ns. ebind (convert value) (\<lambda>v. Inr (store v ns)))"

section \<open>Reading the command line\<close>

text \<open>
  How \<^verbatim>\<open>argparse\<close> classifies a word: a value, an option with or without an attached value, an
  ambiguous abbreviation, or an unknown option.
\<close>

datatype 'n word_kind = Value | Option "'n action" "string option" | Ambiguous | Unknown

definition negative_number :: "string \<Rightarrow> bool" where
  "negative_number s =
     (case s of [] \<Rightarrow> False
      | c # ds \<Rightarrow> c = CHR ''-'' \<and>
          (ds \<noteq> [] \<and> list_all is_dec_digit ds \<or>
           (case dropWhile is_dec_digit ds of
              [] \<Rightarrow> False
            | p # fs \<Rightarrow> p = CHR ''.'' \<and> fs \<noteq> [] \<and> list_all is_dec_digit fs)))"

definition before_equals :: "string \<Rightarrow> string" where
  "before_equals s = takeWhile (\<lambda>c. c \<noteq> CHR ''='') s"

definition after_equals :: "string \<Rightarrow> string option" where
  "after_equals s = (case dropWhile (\<lambda>c. c \<noteq> CHR ''='') s of [] \<Rightarrow> None | _ # v \<Rightarrow> Some v)"

text \<open>A single dash abbreviates nothing here but \<^verbatim>\<open>-h\<close>, which then has text attached.\<close>

definition abbreviated :: "(string \<times> 'n action) list \<Rightarrow> string \<Rightarrow> ('n action \<times> string option) list" where
  "abbreviated table s =
     (if prefix ''--'' s then map (\<lambda>(_, a). (a, after_equals s)) (filter (\<lambda>(k, _). prefix (before_equals s) k) table)
      else if prefix ''-h'' s then [(Help, Some (drop 2 s))] else [])"

definition word_kind_of :: "(string \<times> 'n action) list \<Rightarrow> string \<Rightarrow> 'n word_kind" where
  "word_kind_of table s =
     (if \<not> prefix ''-'' s then Value
      else case map_of table s of
        Some a \<Rightarrow> Option a None
      | None \<Rightarrow>
          if s = ''-'' then Value
          else case (after_equals s, map_of table (before_equals s)) of
            (Some v, Some a) \<Rightarrow> Option a (Some v)
          | _ \<Rightarrow> (case abbreviated table s of
                    [(a, v)] \<Rightarrow> Option a v
                  | _ # _ # _ \<Rightarrow> Ambiguous
                  | [] \<Rightarrow> if negative_number s \<or> CHR '' '' \<in> set s then Value else Unknown))"

definition is_value :: "'n word_kind \<Rightarrow> bool" where
  "is_value k = (case k of Value \<Rightarrow> True | _ \<Rightarrow> False)"

text \<open>\<^verbatim>\<open>parser.error\<close> exits with code 2; so does a value its type refuses.\<close>

definition usage_error :: "'a result" where
  "usage_error = Inl (SystemExit 2)"

definition take_value :: "(string \<Rightarrow> 'n \<Rightarrow> 'n result) \<Rightarrow> string \<Rightarrow> 'n \<Rightarrow> 'n result" where
  "take_value f value ns =
     (case f value ns of
        Inl (ArgumentTypeError _) \<Rightarrow> usage_error
      | Inl (ValueError _) \<Rightarrow> usage_error
      | Inl (TypeError _) \<Rightarrow> usage_error
      | r \<Rightarrow> r)"

text \<open>\<open>extra\<close>: a word was left over. After \<^verbatim>\<open>--\<close> every word is one, and there is no place for them.\<close>

fun parse_args :: "(string \<times> 'n action) list \<Rightarrow> string list \<Rightarrow> bool \<Rightarrow> 'n \<Rightarrow> 'n result" where
  "parse_args table [] extra ns = (if extra then usage_error else Inr ns)"
| "parse_args table (w # ws) extra ns =
     (if w = ''--'' then usage_error
      else case word_kind_of table w of
        Value \<Rightarrow> parse_args table ws True ns
      | Unknown \<Rightarrow> parse_args table ws True ns
      | Ambiguous \<Rightarrow> usage_error
      | Option Help None \<Rightarrow> Inl (SystemExit 0)
      | Option Help (Some _) \<Rightarrow> usage_error
      | Option (Flag f) None \<Rightarrow> parse_args table ws extra (f ns)
      | Option (Flag f) (Some _) \<Rightarrow> usage_error
      | Option (Takes f) (Some value) \<Rightarrow> ebind (take_value f value ns) (\<lambda>ns'. parse_args table ws extra ns')
      | Option (Takes f) None \<Rightarrow>
          (case ws of
             [] \<Rightarrow> usage_error
           | value # rest \<Rightarrow>
               if value = ''--'' \<or> \<not> is_value (word_kind_of table value) then usage_error
               else ebind (take_value f value ns) (\<lambda>ns'. parse_args table rest extra ns')))"

section \<open>What every action keeps\<close>

definition action_keeps :: "('n \<Rightarrow> bool) \<Rightarrow> 'n action \<Rightarrow> bool" where
  "action_keeps P a = (case a of
     Takes f \<Rightarrow> (\<forall>s ns ns'. P ns \<longrightarrow> f s ns = Inr ns' \<longrightarrow> P ns')
   | Flag f \<Rightarrow> (\<forall>ns. P ns \<longrightarrow> P (f ns))
   | Help \<Rightarrow> True)"

lemma takes_keeps:
  assumes "\<And>s v ns. convert s = Inr v \<Longrightarrow> P ns \<Longrightarrow> P (store v ns)"
  shows "action_keeps P (takes convert store)"
  using assms by (auto simp: action_keeps_def takes_def result_simps)

text \<open>A table of options all of whose actions keep a predicate on namespaces.\<close>

locale option_invariant =
  fixes table :: "(string \<times> 'n action) list" and P :: "'n \<Rightarrow> bool"
  assumes actions_keep: "(k, a) \<in> set table \<Longrightarrow> action_keeps P a"
begin

lemma abbreviated_ok: "(a, v) \<in> set (abbreviated table s) \<Longrightarrow> action_keeps P a"
  by (auto simp: abbreviated_def action_keeps_def [of P Help] dest: actions_keep split: if_splits)

lemma word_kind_ok: "word_kind_of table s = Option a v \<Longrightarrow> action_keeps P a"
proof -
  assume k: "word_kind_of table s = Option a v"
  have exact: "map_of table w = Some b \<Longrightarrow> action_keeps P b" for w b by (rule actions_keep) (rule map_of_SomeD)
  show "action_keeps P a"
  proof (cases "map_of table s")
    case (Some b)
    then show ?thesis using k exact by (simp add: word_kind_of_def split: if_splits)
  next
    case None
    show ?thesis
    proof (cases "\<exists>u b. after_equals s = Some u \<and> map_of table (before_equals s) = Some b")
      case True
      then show ?thesis using k None exact by (auto simp: word_kind_of_def split: if_splits)
    next
      case False
      then have "(case abbreviated table s of [(a, v)] \<Rightarrow> Option a v | _ # _ # _ \<Rightarrow> Ambiguous
            | [] \<Rightarrow> if negative_number s \<or> CHR '' '' \<in> set s then Value else Unknown) = Option a v"
        using k None by (auto simp: word_kind_of_def split: if_splits option.splits)
      then have "(a, v) \<in> set (abbreviated table s)" by (auto split: list.splits if_splits)
      then show ?thesis by (rule abbreviated_ok)
    qed
  qed
qed

lemma take_value_ok: "action_keeps P (Takes f) \<Longrightarrow> P ns \<Longrightarrow> take_value f s ns = Inr ns' \<Longrightarrow> P ns'"
  by (auto simp: action_keeps_def take_value_def usage_error_def split: sum.splits pyerror.splits)

lemma parse_args_of_keeps:
  "t = table \<Longrightarrow> parse_args t ws extra ns = Inr ns' \<Longrightarrow> P ns \<Longrightarrow> P ns'"
proof (induction t ws extra ns rule: parse_args.induct)
  case (1 t extra ns)
  then show ?case by (simp add: usage_error_def split: if_splits)
next
  case (2 t w ws extra ns)
  note 2 = 2 [unfolded 2(5)]
  show ?case
  proof (cases "word_kind_of table w")
    case (Option a v)
    note ok = word_kind_ok [OF this]
    show ?thesis
    proof (cases a)
      case (Takes f)
      note ok' = take_value_ok [OF ok [unfolded Takes]]
      show ?thesis
      proof (cases v)
        case None
        then show ?thesis using 2 Option Takes ok'
          by (cases ws) (auto simp: usage_error_def split: if_splits elim!: ebindE)
      next
        case (Some u)
        then show ?thesis using 2 Option Takes ok' by (auto simp: usage_error_def split: if_splits elim!: ebindE)
      qed
    next
      case (Flag f)
      then show ?thesis using 2 Option ok by (cases v) (auto simp: usage_error_def action_keeps_def split: if_splits)
    next
      case Help
      then show ?thesis using 2 Option by (cases v) (auto simp: usage_error_def split: if_splits)
    qed
  qed (use 2 in \<open>auto simp: usage_error_def split: if_splits\<close>)
qed

lemmas parse_args_keeps = parse_args_of_keeps [OF refl]

end

end
