(* ===== verification/Arguments.thy ===== *)
theory Arguments
  imports Argparse
begin

text \<open>
  The command line of the driver (\<^verbatim>\<open>arguments\<close>) and the body its report starts with
  (\<^verbatim>\<open>base_report\<close>). What \<^verbatim>\<open>argparse\<close> does with the declared options is written out: long options
  with their value in the next word or after \<^verbatim>\<open>=\<close>, unique abbreviations, words that look like
  negative numbers, and the exit with code 2 on every error. Whether a file exists is an argument.
\<close>

section \<open>The options\<close>

text \<open>
  The namespace that \<^verbatim>\<open>parse_args\<close> fills. The run id and the output have type \<open>'o\<close>: optional as
  long as the command line is read, always present in what \<^verbatim>\<open>arguments\<close> returns.
\<close>

record 'o Namespace =
  a_rows :: int
  a_batch :: int
  a_writers :: int
  a_query_samples :: int
  a_mixed_seconds :: int
  a_rate :: rat
  a_mixed_read_interval :: rat
  a_mixed_readers :: int
  a_drain_seconds :: int
  a_max_seconds :: int
  a_require_rebuilt :: bool
  a_attestation :: "dict option"
  a_verify_only :: "string option"
  a_output :: 'o
  a_run_id :: 'o

type_synonym options = "string option Namespace"

definition default_options :: options where
  "default_options = \<lparr>a_rows = 250000, a_batch = 1000, a_writers = 4, a_query_samples = 50, a_mixed_seconds = 60,
     a_rate = 5000, a_mixed_read_interval = 1, a_mixed_readers = 1, a_drain_seconds = 60, a_max_seconds = 1200,
     a_require_rebuilt = False, a_attestation = None, a_verify_only = None, a_output = None, a_run_id = None\<rparr>"

definition bounded_int :: "string \<Rightarrow> int \<Rightarrow> int \<Rightarrow> string \<Rightarrow> int result" where
  "bounded_int name minimum maximum value =
     (case parse_bounded_int value name minimum maximum of
        Inl (ValueError msg) \<Rightarrow> Inl (ArgumentTypeError msg)
      | r \<Rightarrow> r)"

definition bounded_float :: "string \<Rightarrow> pynum \<Rightarrow> pynum \<Rightarrow> string \<Rightarrow> rat result" where
  "bounded_float name minimum maximum value =
     (case parse_bounded_float value name minimum maximum of
        Inl (ValueError msg) \<Rightarrow> Inl (ArgumentTypeError msg)
      | r \<Rightarrow> r)"

definition option_table :: "(string \<times> options action) list" where
  "option_table = [
     (''-h'', Help), (''--help'', Help),
     (''--rows'', takes (bounded_int ''rows'' 1 1000000) (\<lambda>v. a_rows_update (\<lambda>_. v))),
     (''--batch'', takes (bounded_int ''batch'' 1 10000) (\<lambda>v. a_batch_update (\<lambda>_. v))),
     (''--writers'', takes (bounded_int ''writers'' 1 16) (\<lambda>v. a_writers_update (\<lambda>_. v))),
     (''--query-samples'', takes (bounded_int ''query-samples'' 1 200) (\<lambda>v. a_query_samples_update (\<lambda>_. v))),
     (''--mixed-seconds'', takes (bounded_int ''mixed-seconds'' 1 180) (\<lambda>v. a_mixed_seconds_update (\<lambda>_. v))),
     (''--rate'', takes (bounded_float ''rate'' (Inl 1) (Inl 20000)) (\<lambda>v. a_rate_update (\<lambda>_. v))),
     (''--mixed-read-interval'', takes (bounded_float ''mixed-read-interval'' (Inr (fl (1 / 100))) (Inr 10))
        (\<lambda>v. a_mixed_read_interval_update (\<lambda>_. v))),
     (''--mixed-readers'', takes (bounded_int ''mixed-readers'' 1 2) (\<lambda>v. a_mixed_readers_update (\<lambda>_. v))),
     (''--drain-seconds'', takes (bounded_int ''drain-seconds'' 1 300) (\<lambda>v. a_drain_seconds_update (\<lambda>_. v))),
     (''--max-seconds'', takes (bounded_int ''max-seconds'' 1 1800) (\<lambda>v. a_max_seconds_update (\<lambda>_. v))),
     (''--require-rebuilt'', Flag (a_require_rebuilt_update (\<lambda>_. True))),
     (''--attestation'', takes parse_attestation (\<lambda>v. a_attestation_update (\<lambda>_. Some v))),
     (''--output'', takes (\<lambda>s. Inr (py_path s)) (\<lambda>v. a_output_update (\<lambda>_. Some v))),
     (''--run-id'', takes Inr (\<lambda>v. a_run_id_update (\<lambda>_. Some v))),
     (''--verify-only'', takes (\<lambda>s. Inr (py_path s)) (\<lambda>v. a_verify_only_update (\<lambda>_. Some v)))]"

section \<open>The checked arguments\<close>

definition settled :: "options \<Rightarrow> string \<Rightarrow> string \<Rightarrow> string Namespace" where
  "settled ns run_id output = \<lparr>a_rows = a_rows ns, a_batch = a_batch ns, a_writers = a_writers ns,
     a_query_samples = a_query_samples ns, a_mixed_seconds = a_mixed_seconds ns, a_rate = a_rate ns,
     a_mixed_read_interval = a_mixed_read_interval ns, a_mixed_readers = a_mixed_readers ns,
     a_drain_seconds = a_drain_seconds ns, a_max_seconds = a_max_seconds ns,
     a_require_rebuilt = a_require_rebuilt ns, a_attestation = a_attestation ns, a_verify_only = a_verify_only ns,
     a_output = output, a_run_id = run_id\<rparr>"

text \<open>\<^verbatim>\<open>int(args.rate * args.mixed_seconds)\<close>, and the count of request identifiers.\<close>

definition mixed_target :: "'o Namespace \<Rightarrow> int" where
  "mixed_target ns = \<lfloor>fl (a_rate ns * of_int (a_mixed_seconds ns))\<rfloor>"

definition ceil_div :: "int \<Rightarrow> int \<Rightarrow> int" where
  "ceil_div a b = \<lceil>fl (of_int a / of_int b)\<rceil>"

definition request_count :: "'o Namespace \<Rightarrow> int" where
  "request_count ns = ceil_div (a_rows ns) (a_batch ns) + ceil_div (mixed_target ns) (a_batch ns)"

definition or_else :: "string option \<Rightarrow> string \<Rightarrow> string" where
  "or_else x y = (case x of Some s \<Rightarrow> if s = [] then y else s | None \<Rightarrow> y)"

definition output_or :: "string option \<Rightarrow> string \<Rightarrow> string" where
  "output_or x y = (case x of Some p \<Rightarrow> p | None \<Rightarrow> y)"

text \<open>\<open>exists\<close> and \<open>is_file\<close> are the operating system's answers, \<open>hex\<close> is \<^verbatim>\<open>uuid.uuid4().hex\<close>.\<close>

definition settle_run :: "(string \<Rightarrow> bool) \<Rightarrow> (string \<Rightarrow> bool) \<Rightarrow> string \<Rightarrow> options \<Rightarrow> string Namespace result" where
  "settle_run exists is_file hex ns =
     (case a_verify_only ns of
        None \<Rightarrow>
          ebind (checked_run_id (or_else (a_run_id ns) (''r'' @ take 15 hex))) (\<lambda>run_id.
          let output = output_or (a_output ns) (py_path (''/results/'' @ run_id @ ''.json'')) in
          if exists output then usage_error else Inr (settled ns run_id output))
      | Some source \<Rightarrow>
          if \<not> is_file source then usage_error
          else
            ebind (if or_else (a_run_id ns) [] = [] then Inr ''verify'' else checked_run_id (or_else (a_run_id ns) [])) (\<lambda>run_id.
            ebind (case a_output ns of Some p \<Rightarrow> Inr p | None \<Rightarrow> with_suffix source ''.verify.json'') (\<lambda>output.
            if exists output then usage_error else Inr (settled ns run_id output))))"

definition arguments :: "(string \<Rightarrow> bool) \<Rightarrow> (string \<Rightarrow> bool) \<Rightarrow> string \<Rightarrow> string list \<Rightarrow> string Namespace result" where
  "arguments exists is_file hex argv =
     ebind (parse_args option_table argv False default_options) (\<lambda>ns.
     ebind (settle_run exists is_file hex ns) (\<lambda>a.
     if a_verify_only a = None \<and> a_rows a < a_batch a then usage_error
     else if a_verify_only a = None \<and> 1000000 < a_rows a + mixed_target a then usage_error
     else if a_verify_only a = None \<and> 200000 < request_count a then usage_error
     else Inr a))"

section \<open>The first body of the report\<close>

definition TIMESCALE_IMAGE :: string where
  "TIMESCALE_IMAGE = ''timescale/timescaledb:2.30.0-pg17 (official full/non-oss)''"
definition TIMESCALE_DIGEST :: string where
  "TIMESCALE_DIGEST = ''sha256:3113d12b78392c064aa7475caf7a52b447b29ddd4f9bfd23526733fcb03e3459''"

definition configuration_json :: "'o Namespace \<Rightarrow> dict" where
  "configuration_json a = [
     (''rows'', JInt (a_rows a)), (''batch'', JInt (a_batch a)), (''writers'', JInt (a_writers a)),
     (''query_samples'', JInt (a_query_samples a)), (''mixed_seconds'', JInt (a_mixed_seconds a)),
     (''offered_rate_rows_per_second'', JFloat (Fin (a_rate a))),
     (''mixed_read_interval_seconds'', JFloat (Fin (a_mixed_read_interval a))),
     (''mixed_readers'', JInt (a_mixed_readers a)), (''drain_seconds'', JInt (a_drain_seconds a)),
     (''outer_wall_clock_seconds'', JInt (a_max_seconds a)), (''require_rebuilt'', JBool (a_require_rebuilt a)),
     (''per_call_timeout_seconds'', JFloat (Fin CALL_TIMEOUT)),
     (''automatic_retries_after_ambiguous_ack'', JInt 0)]"

definition varve_benchmark_config :: dict where
  "varve_benchmark_config = [
     (''max_batch_rows'', JInt 10000), (''max_batch_bytes'', JInt 4194304), (''max_idempotency_keys'', JInt 200000),
     (''hot_max_bytes'', JInt 134217728), (''metadata_max_bytes'', JInt 67108864),
     (''query_memory_bytes_per_worker'', JInt 268435456), (''query_threads'', JInt 2), (''query_workers'', JInt 2),
     (''query_timeout_seconds'', JInt 30)]"

definition infrastructure_assumptions :: dict where
  "infrastructure_assumptions = [
     (''region'', JStr ''Singapore; supplied by infrastructure owner, not independently detected''),
     (''varve_database'', JStr ''2 vCPU / 2,000,000,000 bytes; externally supplied''),
     (''timescale_database'', JStr ''2 vCPU / 2,000,000,000 bytes; externally supplied''),
     (''generator'', JStr ''2 vCPU / 1,000,000,000 bytes; externally supplied''),
     (''timescale_image'', JStr TIMESCALE_IMAGE),
     (''timescale_image_digest'', JStr TIMESCALE_DIGEST),
     (''varve_benchmark_config'', JObj varve_benchmark_config),
     (''ownership'', JStr (''database CPU/memory/disk metrics, database process identities, infrastructure, secrets, '' @
        ''and cleanup are external; runtime snapshots expose timestamps for Main to join''))]"

definition attestation_json :: "dict option \<Rightarrow> dict" where
  "attestation_json value = [
     (''value'', case value of None \<Rightarrow> JNull | Some d \<Rightarrow> JObj d),
     (''supplied'', JBool (value \<noteq> None)),
     (''provenance'', JStr ''client-supplied by Main; retained verbatim and not measured by this process''),
     (''measured_runtime_proof'', JBool False)]"

text \<open>\<open>utc\<close> is the time, \<open>artifact\<close>, \<open>plat\<close> and \<open>cpu\<close> are what the three measuring functions returned.\<close>

definition base_report :: "string Namespace \<Rightarrow> string \<Rightarrow> dict \<Rightarrow> dict \<Rightarrow> dict \<Rightarrow> dict" where
  "base_report a utc artifact plat cpu = [
     (''state'', JStr ''running''),
     (''started_at'', JStr utc),
     (''mode'', JStr (if a_verify_only a \<noteq> None then ''verify_only'' else ''benchmark'')),
     (''run_id'', JStr (a_run_id a)),
     (''workload_stage'', JStr (if a_rows a = 250000 \<and> a_batch a = 1000 \<and> a_writers a = 4
        then ''baseline_250k_synthetic_capability'' else ''bounded_custom_synthetic_capability'')),
     (''artifact'', JObj artifact),
     (''external_attestation'', JObj (attestation_json (a_attestation a))),
     (''generator'', JObj [(''platform'', JObj plat), (''cpu_start'', JObj cpu),
        (''scope'', JStr ''driver process/driver cgroup only; database platform metrics and process identities are external'')]),
     (''configuration'', JObj (configuration_json a)),
     (''infrastructure_assumptions'', JObj infrastructure_assumptions),
     (''claim_boundary'', JStr (''Generic synthetic single-node capability evidence only; not user workload compatibility, '' @
        ''distributed behavior, high availability, or production certification. Short-run percentiles '' @
        ''are observational and are not p99 qualification.'')),
     (''phases'', JList [])]"

section \<open>What accepted arguments satisfy\<close>

definition within_bounds :: "'o Namespace \<Rightarrow> bool" where
  "within_bounds a \<longleftrightarrow>
     1 \<le> a_rows a \<and> a_rows a \<le> 1000000 \<and> 1 \<le> a_batch a \<and> a_batch a \<le> 10000 \<and>
     1 \<le> a_writers a \<and> a_writers a \<le> 16 \<and> 1 \<le> a_query_samples a \<and> a_query_samples a \<le> 200 \<and>
     1 \<le> a_mixed_seconds a \<and> a_mixed_seconds a \<le> 180 \<and> 1 \<le> a_rate a \<and> a_rate a \<le> 20000 \<and>
     fl (1 / 100) \<le> a_mixed_read_interval a \<and> a_mixed_read_interval a \<le> 10 \<and>
     1 \<le> a_mixed_readers a \<and> a_mixed_readers a \<le> 2 \<and> 1 \<le> a_drain_seconds a \<and> a_drain_seconds a \<le> 300 \<and>
     1 \<le> a_max_seconds a \<and> a_max_seconds a \<le> 1800"

lemma bounded_int_Inr: "bounded_int name lo hi s = Inr v \<Longrightarrow> lo \<le> v \<and> v \<le> hi"
  by (auto simp: bounded_int_def parse_bounded_int_def split: option.splits if_splits)

lemma bounded_float_Inr: "bounded_float name lo hi s = Inr v \<Longrightarrow> num_val lo \<le> v \<and> v \<le> num_val hi"
  by (auto simp: bounded_float_def parse_bounded_float_def Let_def split: option.splits if_splits pyfloat.splits)

lemma table_keeps: "list_all (\<lambda>(_, a). action_keeps within_bounds a) option_table"
  unfolding option_table_def
  by (simp only: list.pred_inject prod.case, intro conjI takes_keeps TrueI)
    (auto simp: action_keeps_def within_bounds_def num_val_def dest: bounded_int_Inr bounded_float_Inr)

interpretation driver_options: option_invariant option_table within_bounds
  using table_keeps by unfold_locales (auto simp: list_all_iff)

text \<open>The division in binary64 does not disturb the count of batches.\<close>

lemma ceil_div_exact:
  assumes "0 \<le> a" "a \<le> 2 ^ 30" "0 < b" "b \<le> 10000"
  shows "ceil_div a b = (a + b - 1) div b"
proof (cases "a = 0")
  case True
  then show ?thesis using assms by (simp add: ceil_div_def)
next
  case False
  define q where "q = (a + b - 1) div b"
  have split: "a + b - 1 = q * b + (a + b - 1) mod b" unfolding q_def by simp
  have m: "0 \<le> (a + b - 1) mod b" "(a + b - 1) mod b < b" using assms(3) by simp_all
  have up: "a \<le> q * b" and low: "(q - 1) * b + 1 \<le> a" using split m by (simp_all add: left_diff_distrib)
  have q: "1 \<le> q" "q \<le> 2 ^ 31"
  proof -
    have "b div b \<le> q" unfolding q_def using assms False by (intro zdiv_mono1) simp_all
    then show "1 \<le> q" using assms(3) by simp
    have "(q - 1) * 1 \<le> (q - 1) * b" using \<open>1 \<le> q\<close> assms(3) by (intro mult_left_mono) simp_all
    with low assms(2) show "q \<le> 2 ^ 31" by simp
  qed
  let ?x = "of_int a / of_int b :: rat"
  have b: "0 < (of_int b :: rat)" using assms(3) by simp
  have "?x \<le> of_int q" using up b by (simp add: pos_divide_le_eq flip: of_int_mult)
  then have hi: "fl ?x \<le> of_int q" using fl_mono [of ?x "of_int q"] fl_dyadic [of q 0] q by (simp add: pow2_0)
  have "((q - 1) * 2 ^ 14 + 1) * b \<le> a * 2 ^ 14"
  proof -
    have "((q - 1) * b + 1) * 2 ^ 14 \<le> a * 2 ^ 14" using low by (intro mult_right_mono) simp_all
    then show ?thesis using assms(4) by (simp add: algebra_simps)
  qed
  then have "(of_int ((q - 1) * 2 ^ 14 + 1) :: rat) * of_int b \<le> of_int a * 2 ^ 14"
    by (metis of_int_le_iff of_int_mult of_int_numeral of_int_power)
  then have "of_int ((q - 1) * 2 ^ 14 + 1) / 2 ^ 14 \<le> ?x" using b by (simp add: field_simps)
  moreover have "fl (of_int ((q - 1) * 2 ^ 14 + 1) * pow2 (- 14)) = of_int ((q - 1) * 2 ^ 14 + 1) * pow2 (- 14)"
    using q by (intro fl_dyadic) simp_all
  moreover have "pow2 (- 14) = 1 / 2 ^ 14" by code_simp
  ultimately have "of_int ((q - 1) * 2 ^ 14 + 1) / 2 ^ 14 \<le> fl ?x"
    using fl_mono [of "of_int ((q - 1) * 2 ^ 14 + 1) / 2 ^ 14" ?x] by simp
  moreover have "of_int (q - 1) < (of_int ((q - 1) * 2 ^ 14 + 1) / 2 ^ 14 :: rat)" by (simp add: field_simps)
  ultimately have "of_int (q - 1) < fl ?x" by linarith
  with hi have "\<lceil>fl ?x\<rceil> = q" by (intro ceiling_unique) simp_all
  then show ?thesis by (simp add: ceil_div_def q_def)
qed

lemma settled_simps [simp]:
  "within_bounds (settled ns run_id output) = within_bounds ns" "a_output (settled ns run_id output) = output"
  "a_run_id (settled ns run_id output) = run_id" "a_verify_only (settled ns run_id output) = a_verify_only ns"
  "a_rows (settled ns run_id output) = a_rows ns" "a_batch (settled ns run_id output) = a_batch ns"
  by (simp_all add: within_bounds_def settled_def)

lemma settle_run_Inr:
  assumes "settle_run exists is_file hex ns = Inr a"
  shows "within_bounds a = within_bounds ns \<and> \<not> exists (a_output a) \<and> (a_verify_only a = None \<longrightarrow> run_id_match (a_run_id a))"
  using assms unfolding settle_run_def
  by (auto simp: usage_error_def Let_def checked_run_id_def split: option.splits if_splits elim!: ebindE)

lemma mixed_target_nonneg: "within_bounds a \<Longrightarrow> 0 \<le> mixed_target a"
  by (simp add: mixed_target_def within_bounds_def fl_nonneg)

text \<open>A command line that sets the batch size and the run id.\<close>

abbreviation example_namespace :: "string Namespace" where
  "example_namespace \<equiv> settled (default_options\<lparr>a_batch := 500, a_run_id := Some ''abc''\<rparr>) ''abc'' ''/results/abc.json''"

lemma arguments_example: "arguments (\<lambda>_. False) (\<lambda>_. False) [] [''--batch'', ''500'', ''--run-id'', ''abc''] = Inr example_namespace"
proof -
  let ?ns = "default_options\<lparr>a_batch := 500, a_run_id := Some ''abc''\<rparr>"
  have words: "word_kind_of option_table ''--batch'' = Option (takes (bounded_int ''batch'' 1 10000) (\<lambda>v. a_batch_update (\<lambda>_. v))) None"
      "word_kind_of option_table ''--run-id'' = Option (takes Inr (\<lambda>v. a_run_id_update (\<lambda>_. Some v))) None"
      "word_kind_of option_table ''500'' = Value" "word_kind_of option_table ''abc'' = Value"
    by (simp_all add: word_kind_of_def option_table_def)
  have "bounded_int ''batch'' 1 10000 ''500'' = Inr 500" by code_simp
  then have parsed: "parse_args option_table [''--batch'', ''500'', ''--run-id'', ''abc''] False default_options = Inr ?ns"
    by (simp add: words is_value_def takes_def take_value_def)
  have path: "py_path ''/results/abc.json'' = ''/results/abc.json''" "checked_run_id ''abc'' = Inr ''abc''" by code_simp+
  have settled: "settle_run (\<lambda>_. False) (\<lambda>_. False) [] ?ns = Inr (settled ?ns ''abc'' ''/results/abc.json'')"
    by (simp add: settle_run_def default_options_def or_else_def output_or_def path)
  have targets: "mixed_target (settled ?ns ''abc'' ''/results/abc.json'') = 300000" "request_count (settled ?ns ''abc'' ''/results/abc.json'') = 1100"
    by code_simp+
  show ?thesis
    unfolding arguments_def parsed ebind_simps settled targets by (simp add: default_options_def)
qed

text \<open>
  C33: whatever the command line, the driver starts only within its profile: every setting is in
  its declared range, the output file does not exist yet, and a benchmark run has a valid run id,
  a batch no larger than the data set, at most a million rows in both phases together and at most
  200,000 batches, each of which uses one request identifier.
\<close>

theorem arguments_bounded:
  assumes "arguments exists is_file hex argv = Inr a"
  shows "within_bounds a \<and> \<not> exists (a_output a) \<and>
    (a_verify_only a = None \<longrightarrow>
       run_id_match (a_run_id a) \<and> a_batch a \<le> a_rows a \<and> a_rows a + mixed_target a \<le> 1000000 \<and>
       (a_rows a + a_batch a - 1) div a_batch a + (mixed_target a + a_batch a - 1) div a_batch a \<le> 200000)"
proof -
  obtain ns where ns: "parse_args option_table argv False default_options = Inr ns" "settle_run exists is_file hex ns = Inr a"
    and ok: "a_verify_only a = None \<longrightarrow> a_batch a \<le> a_rows a \<and> a_rows a + mixed_target a \<le> 1000000 \<and> request_count a \<le> 200000"
    using assms unfolding arguments_def by (auto simp: usage_error_def not_less split: if_splits elim!: ebindE)
  have "1 / 100 \<le> (1 :: rat)" by simp
  then have "fl (1 / 100) \<le> 1" using fl_mono [of "1 / 100" 1] fl_dyadic [of 1 0] by (simp add: pow2_0)
  then have "within_bounds default_options" by (simp add: within_bounds_def default_options_def)
  then have b: "within_bounds a" using driver_options.parse_args_keeps [OF ns(1)] settle_run_Inr [OF ns(2)] by simp
  have "request_count a = (a_rows a + a_batch a - 1) div a_batch a + (mixed_target a + a_batch a - 1) div a_batch a"
    if "a_verify_only a = None"
    using b ok that mixed_target_nonneg [OF b] by (simp add: request_count_def ceil_div_exact within_bounds_def)
  with ok b settle_run_Inr [OF ns(2)] show ?thesis by simp
qed

theorem arguments_bounded_witness:
  "\<exists>a. arguments (\<lambda>_. False) (\<lambda>_. False) [] [''--batch'', ''500'', ''--run-id'', ''abc''] = Inr a \<and>
     a_batch a = 500 \<and> a_output a = ''/results/abc.json'' \<and> run_id_match (a_run_id a) \<and> a_rows a + mixed_target a \<le> 1000000"
proof -
  have "a_verify_only example_namespace = None" by (simp add: default_options_def)
  with arguments_bounded [OF arguments_example] show ?thesis
    by (intro exI [of _ example_namespace]) (simp add: arguments_example)
qed

end
