(* ===== verification/Mixed.thy ===== *)
theory Mixed
  imports Pool Retry Arguments
begin

text \<open>
  The mixed workload (\<^verbatim>\<open>mixed_workload\<close>): a finite trace of writes and a finite trace of reads, each
  with a producer, a bounded queue and its workers, in one task group. A write goes to both
  servers at once and is acknowledged only if both accept it. One step is what a task does
  between two points where it waits; the readings of the clock are arguments of the steps.
\<close>

section \<open>One paired write\<close>

text \<open>What a task that writes to one server ends with: whether a latency was recorded, and its result.\<close>

type_synonym 'w write_task = "'w \<Rightarrow> (bool \<times> unit result) \<times> 'w"

text \<open>
  \<^verbatim>\<open>asyncio.wait(..., FIRST_EXCEPTION)\<close> followed by \<^verbatim>\<open>gather\<close>: the two tasks run in either order.
  If the first one to end has raised, the other one may be cancelled; what it had sent may or may not
  have reached its server.
\<close>

inductive paired :: "'w write_task \<Rightarrow> 'w write_task \<Rightarrow> 'w \<Rightarrow> bool \<times> unit result \<Rightarrow> bool \<times> unit result \<Rightarrow> 'w \<Rightarrow> bool"
  for v p :: "'w write_task" and w :: 'w where
  varve_first: "v w = (a, w1) \<Longrightarrow> p w1 = (b, w2) \<Longrightarrow> paired v p w a b w2"
| pg_first: "p w = (b, w1) \<Longrightarrow> v w1 = (a, w2) \<Longrightarrow> paired v p w a b w2"
| varve_raised: "v w = ((answered, Inl e), w1) \<Longrightarrow> w2 = w1 \<or> w2 = snd (p w1) \<Longrightarrow>
     paired v p w (answered, Inl e) (False, Inl Cancelled) w2"
| pg_raised: "p w = ((answered, Inl e), w1) \<Longrightarrow> w2 = w1 \<or> w2 = snd (v w1) \<Longrightarrow>
     paired v p w (False, Inl Cancelled) (answered, Inl e) w2"

text \<open>When the worker itself is cancelled, either task may have ended before or is cut.\<close>

inductive task_ends :: "'w write_task \<Rightarrow> 'w \<Rightarrow> bool \<times> unit result \<Rightarrow> 'w \<Rightarrow> bool" for t :: "'w write_task" and w :: 'w where
  ended: "t w = (a, w') \<Longrightarrow> task_ends t w a w'"
| cut: "w' = w \<or> w' = snd (t w) \<Longrightarrow> task_ends t w (False, Inl Cancelled) w'"

definition cancelled_pair :: "'w write_task \<Rightarrow> 'w write_task \<Rightarrow> 'w \<Rightarrow> bool \<times> unit result \<Rightarrow> bool \<times> unit result \<Rightarrow> 'w \<Rightarrow> bool" where
  "cancelled_pair v p w a b w' \<longleftrightarrow>
     (\<exists>w1. task_ends v w a w1 \<and> task_ends p w1 b w') \<or> (\<exists>w1. task_ends p w b w1 \<and> task_ends v w1 a w')"

section \<open>The job\<close>

text \<open>
  What the closures of \<^verbatim>\<open>mixed_workload\<close> capture. \<open>mj_describe\<close> is \<^verbatim>\<open>describe_error\<close>, applied to an
  exception and its cause, if there is one.
\<close>

record 'w mixed_job =
  mj_target :: int
  mj_batch :: int
  mj_writers :: nat
  mj_readers :: nat
  mj_reads :: nat
  mj_interval :: rat
  mj_rows :: "batch \<Rightarrow> Measurement list result"
  mj_varve :: "batch \<Rightarrow> Measurement list \<Rightarrow> 'w write_task"
  mj_pg :: "nat \<Rightarrow> batch \<Rightarrow> Measurement list \<Rightarrow> 'w write_task"
  mj_read :: "('w, rat \<times> rat) io"
  mj_describe :: "pyerror list \<Rightarrow> string"

definition default_describe :: "pyerror list \<Rightarrow> string" where
  "default_describe es = (case es of [] \<Rightarrow> [] | e # _ \<Rightarrow> error_class e @ '': '' @ take 500 (error_text e))"

definition read_target :: "'o Namespace \<Rightarrow> nat" where
  "read_target a = nat (max 0 (\<lceil>fl (of_int (a_mixed_seconds a) / a_mixed_read_interval a)\<rceil> - 1))"

text \<open>The rows of a write, with their encoding, which is done before anything is sent.\<close>

definition generated_rows :: "Names \<Rightarrow> string \<Rightarrow> int \<Rightarrow> batch \<Rightarrow> Measurement list result" where
  "generated_rows names run_id base_us b =
     ebind (mixed_rows (bt_offset b) (bt_count b) base_us) (\<lambda>rows.
     ebind (dumps False True (write_request names (request_id run_id ''mixed'' (bt_index b)) rows)) (\<lambda>_. Inr rows))"

definition mixed_job :: "'w services \<Rightarrow> VarveClient \<Rightarrow> TimescaleClient \<Rightarrow> Names \<Rightarrow> string Namespace \<Rightarrow> int \<Rightarrow> Stats \<Rightarrow> Deadline \<Rightarrow> (pyerror list \<Rightarrow> string) \<Rightarrow> 'w mixed_job" where
  "mixed_job sv vc pc names a base_us baseline deadline describe_error = \<lparr>
     mj_target = mixed_target a, mj_batch = a_batch a, mj_writers = nat (a_writers a), mj_readers = nat (a_mixed_readers a),
     mj_reads = read_target a, mj_interval = a_mixed_read_interval a,
     mj_rows = generated_rows names (a_run_id a) base_us,
     mj_varve = (\<lambda>b rows. varve_write sv vc names (request_id (a_run_id a) ''mixed'' (bt_index b)) rows),
     mj_pg = (\<lambda>i b rows. pg_write sv pc i names (request_id (a_run_id a) ''mixed'' (bt_index b)) rows deadline
                ''unexpected duplicate mixed Timescale receipt''),
     mj_read = stable_mixed_read sv vc pc names baseline base_us (end_of base_us (a_rows a)),
     mj_describe = describe_error\<rparr>"

text \<open>The write trace is the list of batches, the read trace the ordinals from 1.\<close>

definition write_item :: "'w mixed_job \<Rightarrow> nat \<Rightarrow> batch" where
  "write_item job = batch_at (mj_target job) (mj_batch job)"

definition write_amount :: "'w mixed_job \<Rightarrow> nat" where
  "write_amount job = nat ((mj_target job + mj_batch job - 1) div mj_batch job)"

section \<open>The state\<close>

record 'w mixed =
  mx_world :: 'w
  mx_writes :: "batch pool"
  mx_reads :: "nat pool"
  mx_stop :: bool
  mx_failure :: "string option"
  mx_oracle :: Oracle
  mx_acked :: int
  mx_varve :: int
  mx_pg :: int
  mx_failed :: int
  mx_read_done :: int
  mx_read_failed :: int
  mx_enqueued :: int
  mx_read_enqueued :: int
  mx_peak_writes :: nat
  mx_peak_reads :: nat
  mx_enqueue_lag :: rat
  mx_read_enqueue_lag :: rat
  mx_start_lag :: rat
  mx_read_start_lag :: rat
  mx_varve_ack :: "rat list"
  mx_pg_ack :: "rat list"
  mx_queue_delays :: "rat list"
  mx_end_to_end :: "rat list"
  mx_generation :: "rat list"
  mx_read_arrival :: "rat list"
  mx_varve_reads :: "rat list"
  mx_pg_reads :: "rat list"
  mx_read_delay :: "nat \<Rightarrow> rat"
  mx_observations :: "json list"
  mx_errors :: "string list"

definition mixed_start :: "'w mixed_job \<Rightarrow> Oracle \<Rightarrow> 'w \<Rightarrow> 'w mixed" where
  "mixed_start job orc w = \<lparr>mx_world = w, mx_writes = new_pool (mj_writers job), mx_reads = new_pool (mj_readers job),
     mx_stop = False, mx_failure = None, mx_oracle = orc, mx_acked = 0, mx_varve = 0, mx_pg = 0, mx_failed = 0,
     mx_read_done = 0, mx_read_failed = 0, mx_enqueued = 0, mx_read_enqueued = 0, mx_peak_writes = 0, mx_peak_reads = 0,
     mx_enqueue_lag = 0, mx_read_enqueue_lag = 0, mx_start_lag = 0, mx_read_start_lag = 0,
     mx_varve_ack = [], mx_pg_ack = [], mx_queue_delays = [], mx_end_to_end = [], mx_generation = [],
     mx_read_arrival = [], mx_varve_reads = [], mx_pg_reads = [], mx_read_delay = (\<lambda>_. 0),
     mx_observations = [], mx_errors = []\<rparr>"

section \<open>What the steps record\<close>

definition write_enqueued :: "batch \<Rightarrow> rat \<Rightarrow> batch pool \<Rightarrow> 'w mixed \<Rightarrow> 'w mixed" where
  "write_enqueued b lag p s = s\<lparr>mx_writes := p, mx_enqueued := mx_enqueued s + bt_count b,
     mx_peak_writes := max (mx_peak_writes s) (length (pl_queue p)),
     mx_enqueue_lag := max (mx_enqueue_lag s) lag\<rparr>"

definition write_picked :: "'w mixed_job \<Rightarrow> batch \<Rightarrow> rat \<Rightarrow> rat \<Rightarrow> batch pool \<Rightarrow> 'w mixed \<Rightarrow> 'w mixed" where
  "write_picked job b delay generating p s = s\<lparr>mx_writes := p,
     mx_start_lag := max (mx_start_lag s) delay, mx_queue_delays := mx_queue_delays s @ [delay],
     mx_generation := (case mj_rows job b of Inl _ \<Rightarrow> mx_generation s | Inr _ \<Rightarrow> mx_generation s @ [generating])\<rparr>"

definition recorded :: "bool \<times> unit result \<Rightarrow> rat \<Rightarrow> rat list \<Rightarrow> rat list" where
  "recorded a d xs = (if fst a then xs @ [d] else xs)"

definition accepted :: "bool \<times> unit result \<Rightarrow> bool" where
  "accepted a = (case snd a of Inl _ \<Rightarrow> False | Inr _ \<Rightarrow> True)"

definition failures_of :: "bool \<times> unit result \<Rightarrow> bool \<times> unit result \<Rightarrow> pyerror list" where
  "failures_of a b = (case snd a of Inl e \<Rightarrow> [e] | Inr _ \<Rightarrow> []) @ (case snd b of Inl e \<Rightarrow> [e] | Inr _ \<Rightarrow> [])"

text \<open>Latencies and the acknowledgements of each server, for both ways a pair can end.\<close>

definition pair_ended :: "batch \<Rightarrow> bool \<times> unit result \<Rightarrow> bool \<times> unit result \<Rightarrow> rat \<Rightarrow> rat \<Rightarrow> 'w \<Rightarrow> batch pool \<Rightarrow> 'w mixed \<Rightarrow> 'w mixed" where
  "pair_ended b ra rb da db w' p s = s\<lparr>mx_world := w', mx_writes := p,
     mx_varve_ack := recorded ra da (mx_varve_ack s), mx_pg_ack := recorded rb db (mx_pg_ack s),
     mx_varve := mx_varve s + (if accepted ra then bt_count b else 0),
     mx_pg := mx_pg s + (if accepted rb then bt_count b else 0)\<rparr>"

definition add_once :: "string \<Rightarrow> string list \<Rightarrow> string list" where
  "add_once d errors = (if d \<in> set errors then errors else errors @ [d])"

definition write_acked :: "batch \<Rightarrow> Measurement list \<Rightarrow> rat \<Rightarrow> 'w mixed \<Rightarrow> 'w mixed" where
  "write_acked b rows d s = s\<lparr>mx_oracle := oracle_extend (mx_oracle s) rows, mx_acked := mx_acked s + bt_count b,
     mx_end_to_end := mx_end_to_end s @ [d]\<rparr>"

text \<open>The exception of a task makes the task group fail, whatever it was interrupted by before.\<close>

definition write_refused :: "'w mixed_job \<Rightarrow> batch \<Rightarrow> pyerror list \<Rightarrow> 'w mixed \<Rightarrow> 'w mixed" where
  "write_refused job b failures s = s\<lparr>mx_failed := mx_failed s + bt_count b,
     mx_errors := add_once
       (mj_describe job (RuntimeError ''paired mixed write failed or became ambiguous'' # take 1 failures))
       (mx_errors s @ map (\<lambda>e. mj_describe job [e]) failures),
     mx_stop := True, mx_failure := Some ''ExceptionGroup''\<rparr>"

definition write_unsent :: "'w mixed_job \<Rightarrow> pyerror \<Rightarrow> batch pool \<Rightarrow> 'w mixed \<Rightarrow> 'w mixed" where
  "write_unsent job e p s = s\<lparr>mx_writes := p, mx_errors := add_once (mj_describe job [e]) (mx_errors s),
     mx_stop := True, mx_failure := Some ''ExceptionGroup''\<rparr>"

definition write_cancelled :: "'w mixed_job \<Rightarrow> batch \<Rightarrow> 'w mixed \<Rightarrow> 'w mixed" where
  "write_cancelled job b s = s\<lparr>mx_failed := mx_failed s + bt_count b,
     mx_errors := add_once (mj_describe job [Cancelled]) (mx_errors s), mx_stop := True\<rparr>"

definition read_enqueued :: "rat \<Rightarrow> nat pool \<Rightarrow> 'w mixed \<Rightarrow> 'w mixed" where
  "read_enqueued lag p s = s\<lparr>mx_reads := p, mx_read_enqueued := mx_read_enqueued s + 1,
     mx_peak_reads := max (mx_peak_reads s) (length (pl_queue p)),
     mx_read_enqueue_lag := max (mx_read_enqueue_lag s) lag\<rparr>"

definition read_picked :: "nat \<Rightarrow> rat \<Rightarrow> nat pool \<Rightarrow> 'w mixed \<Rightarrow> 'w mixed" where
  "read_picked k delay p s = s\<lparr>mx_reads := p, mx_read_start_lag := max (mx_read_start_lag s) delay,
     mx_read_delay := (mx_read_delay s)(k := delay)\<rparr>"

definition read_completed :: "'w mixed_job \<Rightarrow> nat \<Rightarrow> rat \<Rightarrow> rat \<Rightarrow> rat \<Rightarrow> 'w \<Rightarrow> nat pool \<Rightarrow> 'w mixed \<Rightarrow> 'w mixed" where
  "read_completed job k varve_ms pg_ms arrival w' p s = s\<lparr>mx_world := w', mx_reads := p,
     mx_varve_reads := mx_varve_reads s @ [varve_ms], mx_pg_reads := mx_pg_reads s @ [pg_ms],
     mx_read_arrival := mx_read_arrival s @ [arrival],
     mx_observations := mx_observations s @ [JObj [
       (''ordinal'', JInt (int k)), (''intended_seconds'', JFloat (Fin (fl (of_nat k * mj_interval job)))),
       (''queue_delay_ms'', JFloat (Fin (mx_read_delay s k))), (''varve_service_ms'', JFloat (Fin varve_ms)),
       (''timescale_service_ms'', JFloat (Fin pg_ms)), (''arrival_latency_ms'', JFloat (Fin arrival)),
       (''state'', JStr ''completed'')]],
     mx_read_done := mx_read_done s + 1\<rparr>"

definition read_raised :: "'w mixed_job \<Rightarrow> nat \<Rightarrow> pyerror \<Rightarrow> 'w \<Rightarrow> nat pool \<Rightarrow> 'w mixed \<Rightarrow> 'w mixed" where
  "read_raised job k e w' p s = s\<lparr>mx_world := w', mx_reads := p, mx_read_failed := mx_read_failed s + 1,
     mx_observations := mx_observations s @ [JObj [
       (''ordinal'', JInt (int k)), (''intended_seconds'', JFloat (Fin (fl (of_nat k * mj_interval job)))),
       (''queue_delay_ms'', JFloat (Fin (mx_read_delay s k))), (''state'', JStr ''failed_or_ambiguous''),
       (''error'', JStr (mj_describe job [e]))]],
     mx_errors := mx_errors s @ [''read '' @ dec_nat k @ '': '' @ mj_describe job [e]],
     mx_stop := True\<rparr>"

section \<open>The steps of the task group\<close>

abbreviation write_step :: "'w mixed_job \<Rightarrow> 'w mixed \<Rightarrow> batch event \<Rightarrow> batch pool \<Rightarrow> bool" where
  "write_step job s \<equiv> pool_step (2 * mj_writers job) (write_item job) (write_amount job) (mx_stop s) (mx_writes s)"

abbreviation read_step :: "'w mixed_job \<Rightarrow> 'w mixed \<Rightarrow> nat event \<Rightarrow> nat pool \<Rightarrow> bool" where
  "read_step job s \<equiv> pool_step (2 * mj_readers job) Suc (mj_reads job) (mx_stop s) (mx_reads s)"

inductive task_step :: "'w mixed_job \<Rightarrow> 'w mixed \<Rightarrow> 'w mixed \<Rightarrow> bool" for job :: "'w mixed_job" where
  write_quiet: "write_step job s Quiet p \<Longrightarrow> task_step job s (s\<lparr>mx_writes := p\<rparr>)"
| write_enqueue: "write_step job s (Enqueued b) p \<Longrightarrow> task_step job s (write_enqueued b lag p s)"
| write_pick: "write_step job s (Picked i b) p \<Longrightarrow> task_step job s (write_picked job b delay generating p s)"
| write_acknowledge: "write_step job s (Completed i b) p \<Longrightarrow> mj_rows job b = Inr rows \<Longrightarrow>
     paired (mj_varve job b rows) (mj_pg job i b rows) (mx_world s) ra rb w' \<Longrightarrow> accepted ra \<Longrightarrow> accepted rb \<Longrightarrow>
     task_step job s (write_acked b rows d (pair_ended b ra rb da db w' p s))"
| write_fail: "write_step job s (Raised i b) p \<Longrightarrow> mj_rows job b = Inr rows \<Longrightarrow>
     paired (mj_varve job b rows) (mj_pg job i b rows) (mx_world s) ra rb w' \<Longrightarrow> \<not> (accepted ra \<and> accepted rb) \<Longrightarrow>
     task_step job s (write_refused job b (failures_of ra rb) (pair_ended b ra rb da db w' p s))"
| write_generate: "write_step job s (Raised i b) p \<Longrightarrow> mj_rows job b = Inl e \<Longrightarrow>
     task_step job s (write_unsent job e p s)"
| write_cancel: "mx_failure s \<noteq> None \<Longrightarrow> write_step job s (Raised i b) p \<Longrightarrow> mj_rows job b = Inr rows \<Longrightarrow>
     cancelled_pair (mj_varve job b rows) (mj_pg job i b rows) (mx_world s) ra rb w' \<Longrightarrow>
     task_step job s (write_cancelled job b (pair_ended b ra rb da db w' p s))"
| write_drop: "mx_failure s \<noteq> None \<Longrightarrow> write_step job s Dropped p \<Longrightarrow> task_step job s (s\<lparr>mx_writes := p\<rparr>)"
| read_quiet: "read_step job s Quiet q \<Longrightarrow> task_step job s (s\<lparr>mx_reads := q\<rparr>)"
| read_enqueue: "read_step job s (Enqueued k) q \<Longrightarrow> task_step job s (read_enqueued lag q s)"
| read_pick: "read_step job s (Picked i k) q \<Longrightarrow> task_step job s (read_picked k delay q s)"
| read_complete: "read_step job s (Completed i k) q \<Longrightarrow> mj_read job (mx_world s) = (Inr (varve_ms, pg_ms), w') \<Longrightarrow>
     task_step job s (read_completed job k varve_ms pg_ms arrival w' q s)"
| read_fail: "read_step job s (Raised i k) q \<Longrightarrow> mj_read job (mx_world s) = (Inl e, w') \<Longrightarrow>
     task_step job s ((read_raised job k e w' q s)\<lparr>mx_failure := Some ''ExceptionGroup''\<rparr>)"
| read_cancel: "mx_failure s \<noteq> None \<Longrightarrow> read_step job s (Raised i k) q \<Longrightarrow>
     w' = mx_world s \<or> w' = snd (mj_read job (mx_world s)) \<Longrightarrow>
     task_step job s (read_raised job k Cancelled w' q s)"
| read_drop: "mx_failure s \<noteq> None \<Longrightarrow> read_step job s Dropped q \<Longrightarrow> task_step job s (s\<lparr>mx_reads := q\<rparr>)"

text \<open>The time limit or a cancellation from outside can come at any moment.\<close>

inductive mixed_step :: "'w mixed_job \<Rightarrow> 'w mixed \<Rightarrow> 'w mixed \<Rightarrow> bool" for job :: "'w mixed_job" where
  of_task: "task_step job s s' \<Longrightarrow> mixed_step job s s'"
| interrupted: "mx_failure s = None \<Longrightarrow> name \<in> {''TimeoutError'', ''CancelledError''} \<Longrightarrow>
     mixed_step job s (s\<lparr>mx_failure := Some name\<rparr>)"

abbreviation mixed_run :: "'w mixed_job \<Rightarrow> Oracle \<Rightarrow> 'w \<Rightarrow> 'w mixed \<Rightarrow> bool" where
  "mixed_run job orc w s \<equiv> (mixed_step job)\<^sup>*\<^sup>* (mixed_start job orc w) s"

definition mixed_over :: "'w mixed \<Rightarrow> bool" where
  "mixed_over s \<longleftrightarrow> pool_over (mx_writes s) \<and> pool_over (mx_reads s)"

section \<open>The result\<close>

definition pending_rows :: "'w mixed_job \<Rightarrow> 'w mixed \<Rightarrow> int" where
  "pending_rows job s = mj_target job - mx_acked s - mx_failed s"

definition pending_reads :: "'w mixed_job \<Rightarrow> 'w mixed \<Rightarrow> int" where
  "pending_reads job s = int (mj_reads job) - mx_read_done s - mx_read_failed s"

definition data_complete :: "'w mixed_job \<Rightarrow> 'w mixed \<Rightarrow> bool" where
  "data_complete job s \<longleftrightarrow>
     mx_acked s = mj_target job \<and> mx_failed s = 0 \<and> pending_rows job s = 0 \<and>
     mx_read_done s = int (mj_reads job) \<and> mx_read_failed s = 0 \<and> pending_reads job s = 0"

definition schedule_met :: "string Namespace \<Rightarrow> 'w mixed_job \<Rightarrow> 'w mixed \<Rightarrow> bool" where
  "schedule_met a job s \<longleftrightarrow>
     mx_start_lag s \<le> fl (fl (of_int (a_batch a) / a_rate a) * 1000) \<and>
     (mj_reads job = 0 \<or> mx_read_start_lag s \<le> fl (a_mixed_read_interval a * 1000))"

definition counts_json :: "'w mixed_job \<Rightarrow> 'w mixed \<Rightarrow> dict" where
  "counts_json job s = [
     (''offered_rows'', JInt (mj_target job)), (''acknowledged_rows'', JInt (mx_acked s)),
     (''varve_acknowledged_rows'', JInt (mx_varve s)), (''timescale_acknowledged_rows'', JInt (mx_pg s)),
     (''failed_or_ambiguous_rows'', JInt (mx_failed s)), (''pending_rows'', JInt (pending_rows job s))]"

definition read_counts_json :: "'w mixed_job \<Rightarrow> 'w mixed \<Rightarrow> dict" where
  "read_counts_json job s = [
     (''offered'', JInt (int (mj_reads job))), (''completed'', JInt (mx_read_done s)),
     (''failed'', JInt (mx_read_failed s)), (''pending'', JInt (pending_reads job s))]"

definition flow_json :: "string Namespace \<Rightarrow> 'w mixed_job \<Rightarrow> rat \<Rightarrow> 'w mixed \<Rightarrow> dict" where
  "flow_json a job elapsed s = [
     (''write_enqueued_rows'', JInt (mx_enqueued s)), (''read_enqueued'', JInt (mx_read_enqueued s)),
     (''peak_write_queue_requests'', JInt (int (mx_peak_writes s))), (''peak_read_queue_requests'', JInt (int (mx_peak_reads s))),
     (''max_write_enqueue_lag_ms'', JFloat (Fin (mx_enqueue_lag s))), (''max_read_enqueue_lag_ms'', JFloat (Fin (mx_read_enqueue_lag s))),
     (''max_write_start_lag_ms'', JFloat (Fin (mx_start_lag s))), (''max_read_start_lag_ms'', JFloat (Fin (mx_read_start_lag s))),
     (''write_unsubmitted_rows'', JInt (mj_target job - mx_enqueued s)), (''read_unsubmitted'', JInt (int (mj_reads job) - mx_read_enqueued s)),
     (''elapsed_with_drain_seconds'', JFloat (Fin elapsed)), (''drain_seconds'', JFloat (Fin (max 0 (fl (elapsed - of_int (a_mixed_seconds a)))))),
     (''pending_enqueued_rows'', JInt (max 0 (pending_rows job s - (mj_target job - mx_enqueued s))))]"

definition latency_lists :: "'w mixed \<Rightarrow> (string \<times> rat list) list" where
  "latency_lists s =
       [(''queue_delay_ms'', mx_queue_delays s), (''end_to_end_from_intended_arrival_ms'', mx_end_to_end s),
        (''varve_ack_latency_ms'', mx_varve_ack s), (''timescale_ack_latency_ms'', mx_pg_ack s),
        (''generation_encoding_ms'', mx_generation s), (''varve_concurrent_read_ms'', mx_varve_reads s),
        (''timescale_concurrent_read_ms'', mx_pg_reads s), (''read_arrival_latency_ms'', mx_read_arrival s),
        (''concurrent_read_pair_ms'', mx_read_arrival s)]"

definition latency_entries :: "'w mixed \<Rightarrow> dict result" where
  "latency_entries s = emap (\<lambda>(key, xs). ebind (raw_and_summary xs) (\<lambda>v. Inr (key, v))) (latency_lists s)"

definition mixed_state :: "bool \<Rightarrow> 'w mixed \<Rightarrow> string" where
  "mixed_state clean s = (if mx_failure s \<noteq> None then ''failed'' else if clean then ''passed'' else ''overloaded'')"

definition mixed_result :: "string Namespace \<Rightarrow> 'w mixed_job \<Rightarrow> rat \<Rightarrow> 'w mixed \<Rightarrow> dict result" where
  "mixed_result a job elapsed s =
     (let complete = data_complete job s; met = schedule_met a job s in
      ebind (latency_entries s) (\<lambda>latencies.
      Inr ([(''state'', JStr (mixed_state (complete \<and> met) s)),
        (''seconds'', JFloat (Fin elapsed)), (''writers'', JInt (a_writers a)), (''readers'', JInt (a_mixed_readers a)),
        (''read_interval_seconds'', JFloat (Fin (a_mixed_read_interval a))),
        (''offered_rate_rows_per_second'', JFloat (Fin (a_rate a))), (''target_rows'', JInt (mj_target job))]
       @ counts_json job s @
       [(''dropped_rows'', JInt 0), (''never_submitted_rows'', JInt (mj_target job - mx_enqueued s)),
        (''reads'', JObj (read_counts_json job s)), (''read_observations'', JList (mx_observations s)),
        (''scheduling'', JObj (flow_json a job elapsed s)), (''data_complete'', JBool complete),
        (''schedule_met'', JBool met), (''clean'', JBool (complete \<and> met)), (''errors'', JList (map JStr (mx_errors s)))]
       @ latencies @
       [(''percentile_scope'', JStr ''observational pilot samples; not p99 qualification''),
        (''late_event_rule'', JStr ''fixed deterministic timestamps strictly before initial base; out-of-order by construction'')])))"

text \<open>The inner \<open>Inl\<close> is the \<^verbatim>\<open>MixedWorkloadError\<close> with its message and the partial result.\<close>

definition mixed_workload :: "string Namespace \<Rightarrow> 'w mixed_job \<Rightarrow> rat \<Rightarrow> 'w mixed \<Rightarrow> ((string \<times> dict) + dict) result" where
  "mixed_workload a job elapsed s =
     (if pending_rows job s < 0 \<or> pending_reads job s < 0 then Inl (RuntimeError ''mixed workload conservation violated'')
      else ebind (mixed_result a job elapsed s) (\<lambda>body.
        Inr (case mx_failure s of
               Some name \<Rightarrow> Inl (''mixed workload aborted with conserved diagnostic accounting: '' @ name, body)
             | None \<Rightarrow> Inr body)))"

section \<open>The trace of writes\<close>

lemma write_amount_less:
  assumes "0 < mj_batch job" "k < write_amount job"
  shows "int k * mj_batch job < mj_target job"
proof -
  let ?t = "mj_target job" and ?b = "mj_batch job"
  have "int k + 1 \<le> (?t + ?b - 1) div ?b" using assms(2) by (simp add: write_amount_def)
  then have "(int k + 1) * ?b \<le> (?t + ?b - 1) div ?b * ?b" using assms(1) by (intro mult_right_mono) simp_all
  also have "\<dots> \<le> ?t + ?b - 1" using pos_mod_sign [OF assms(1), of "?t + ?b - 1"] by (simp add: minus_mod_eq_div_mult [symmetric])
  finally show ?thesis by (simp add: distrib_right)
qed

lemma write_amount_covers:
  assumes "0 < mj_batch job" "0 \<le> mj_target job"
  shows "mj_target job \<le> int (write_amount job) * mj_batch job"
proof -
  let ?t = "mj_target job" and ?b = "mj_batch job"
  have "?t + ?b - 1 = (?t + ?b - 1) div ?b * ?b + (?t + ?b - 1) mod ?b" by simp
  moreover have "(?t + ?b - 1) mod ?b < ?b" using assms(1) by simp
  ultimately have "?t \<le> (?t + ?b - 1) div ?b * ?b" by linarith
  moreover have "0 \<le> (?t + ?b - 1) div ?b" using assms by (intro pos_imp_zdiv_nonneg_iff [THEN iffD2]) simp_all
  ultimately show ?thesis by (simp add: write_amount_def)
qed

lemma write_item_pos: "0 < mj_batch job \<Longrightarrow> k < write_amount job \<Longrightarrow> 0 < bt_count (write_item job k)"
  unfolding write_item_def by (rule batch_count_pos, assumption) (rule write_amount_less)

lemma sum_write_items:
  assumes "0 < mj_batch job" "0 \<le> mj_target job" "n \<le> write_amount job"
  shows "sum_list (map bt_count (map (write_item job) [0..<n])) = min (mj_target job) (int n * mj_batch job)"
  unfolding write_item_def
proof (rule sum_batch_counts [OF assms(1,2)], intro allI impI)
  fix k assume "k < n"
  then show "int k * mj_batch job < mj_target job" using assms by (intro write_amount_less) simp_all
qed

section \<open>The invariant\<close>

definition mixed_pools :: "'w mixed_job \<Rightarrow> 'w mixed \<Rightarrow> bool" where
  "mixed_pools job s \<longleftrightarrow>
     pool_inv (2 * mj_writers job) (write_item job) (write_amount job) (mx_writes s) \<and>
     pool_inv (2 * mj_readers job) Suc (mj_reads job) (mx_reads s) \<and>
     length (pl_tasks (mx_writes s)) = mj_writers job \<and> length (pl_tasks (mx_reads s)) = mj_readers job \<and>
     (mx_failure s = None \<longrightarrow> \<not> mx_stop s \<and> unhurt (mx_writes s) \<and> unhurt (mx_reads s))"

definition write_counts :: "'w mixed_job \<Rightarrow> 'w mixed \<Rightarrow> bool" where
  "write_counts job s \<longleftrightarrow>
     mx_acked s = sum_list (map bt_count (pl_completed (mx_writes s))) \<and>
     0 \<le> mx_failed s \<and> mx_failed s \<le> sum_list (map bt_count (pl_broken (mx_writes s))) \<and>
     mx_acked s \<le> mx_varve s \<and> mx_varve s \<le> mx_acked s + mx_failed s \<and>
     mx_acked s \<le> mx_pg s \<and> mx_pg s \<le> mx_acked s + mx_failed s \<and>
     mx_enqueued s = sum_list (map bt_count (map (write_item job) [0..<pl_next (mx_writes s)])) \<and>
     mx_peak_writes s \<le> 2 * mj_writers job"

definition read_counts :: "'w mixed_job \<Rightarrow> 'w mixed \<Rightarrow> bool" where
  "read_counts job s \<longleftrightarrow>
     mx_read_done s = int (length (pl_completed (mx_reads s))) \<and>
     mx_read_failed s = int (length (pl_broken (mx_reads s))) \<and>
     mx_read_enqueued s = int (pl_next (mx_reads s)) \<and> mx_peak_reads s \<le> 2 * mj_readers job"

definition oracle_follows :: "'w mixed_job \<Rightarrow> Oracle \<Rightarrow> 'w mixed \<Rightarrow> bool" where
  "oracle_follows job orc s \<longleftrightarrow>
     (\<exists>rowss. list_all2 (\<lambda>b rows. mj_rows job b = Inr rows) (pl_completed (mx_writes s)) rowss \<and>
        mx_oracle s = oracle_extend orc (concat rowss))"

lemmas recording_defs = write_enqueued_def write_picked_def pair_ended_def write_acked_def write_refused_def
  write_unsent_def write_cancelled_def read_enqueued_def read_picked_def read_completed_def read_raised_def

lemma ordinary_simps [simp]:
  "ordinary Quiet" "ordinary (Enqueued x)" "ordinary (Picked i x)" "ordinary (Completed i x)"
  "\<not> ordinary (Raised i x)" "\<not> ordinary Dropped"
  by (simp_all add: ordinary_def)

lemma mixed_pools_task:
  assumes "task_step job s s'" "mixed_pools job s"
  shows "mixed_pools job s'"
  using assms
  by (cases rule: task_step.cases)
    (auto simp: mixed_pools_def recording_defs dest: pool_inv_step pool_step_tasks unhurt_step)

lemma mixed_queue_bound: "write_step job s e p \<Longrightarrow> mixed_pools job s \<Longrightarrow> length (pl_queue p) \<le> 2 * mj_writers job"
    and mixed_read_queue_bound: "read_step job s e' q \<Longrightarrow> mixed_pools job s \<Longrightarrow> length (pl_queue q) \<le> 2 * mj_readers job"
  unfolding mixed_pools_def by (blast dest: pool_inv_step pool_inv_def [THEN iffD1])+

lemma write_event_count:
  assumes "write_step job s e p" "mixed_pools job s" "0 < mj_batch job" "e = Completed i b \<or> e = Raised i b \<or> e = Enqueued b"
  shows "0 < bt_count b"
proof -
  have "pool_inv (2 * mj_writers job) (write_item job) (write_amount job) (mx_writes s)" using assms(2) by (simp add: mixed_pools_def)
  from pool_item [OF assms(1) this assms(4)] obtain k where "k < write_amount job" "b = write_item job k" by blast
  with write_item_pos [OF assms(3)] show ?thesis by simp
qed

lemma write_counts_task:
  assumes "task_step job s s'" "mixed_pools job s" "write_counts job s" "0 < mj_batch job"
  shows "write_counts job s'"
  using assms(1)
proof (cases rule: task_step.cases)
  case (write_enqueue b p lag)
  note ev = pool_event [OF write_enqueue(2)]
  show ?thesis using assms(3) ev mixed_queue_bound [OF write_enqueue(2) assms(2)] write_enqueue(1)
    by (simp add: write_counts_def recording_defs)
next
  case (write_acknowledge i b p rows ra rb w' d da db)
  note ev = pool_event [OF write_acknowledge(2)]
  show ?thesis using assms(3) ev write_event_count [OF write_acknowledge(2) assms(2,4)] write_acknowledge
    by (simp add: write_counts_def recording_defs)
next
  case (write_fail i b p rows ra rb w' da db)
  note ev = pool_event [OF write_fail(2)]
  show ?thesis using assms(3) ev write_event_count [OF write_fail(2) assms(2,4)] write_fail(1)
    by (simp add: write_counts_def recording_defs)
next
  case (write_generate i b p e)
  note ev = pool_event [OF write_generate(2)]
  show ?thesis using assms(3) ev write_event_count [OF write_generate(2) assms(2,4)] write_generate(1)
    by (simp add: write_counts_def recording_defs)
next
  case (write_cancel i b p rows ra rb w' da db)
  note ev = pool_event [OF write_cancel(3)]
  show ?thesis using assms(3) ev write_event_count [OF write_cancel(3) assms(2,4)] write_cancel(1)
    by (simp add: write_counts_def recording_defs)
next
  case (write_quiet p)
  then show ?thesis using assms(3) pool_event [OF write_quiet(2)] by (simp add: write_counts_def)
next
  case (write_pick i b p delay generating)
  then show ?thesis using assms(3) pool_event [OF write_pick(2)] by (simp add: write_counts_def recording_defs)
next
  case (write_drop p)
  then show ?thesis using assms(3) pool_event [OF write_drop(3)] by (simp add: write_counts_def)
qed (use assms(3) in \<open>simp_all add: write_counts_def recording_defs\<close>)

lemma read_counts_task:
  assumes "task_step job s s'" "mixed_pools job s" "read_counts job s"
  shows "read_counts job s'"
  using assms(1)
proof (cases rule: task_step.cases)
  case (read_enqueue k q lag)
  show ?thesis using assms(3) pool_event [OF read_enqueue(2)] mixed_read_queue_bound [OF read_enqueue(2) assms(2)] read_enqueue(1)
    by (simp add: read_counts_def recording_defs)
next
  case (read_complete i k q varve_ms pg_ms w' arrival)
  show ?thesis using assms(3) pool_event [OF read_complete(2)] read_complete(1) by (simp add: read_counts_def recording_defs)
next
  case (read_fail i k q e w')
  show ?thesis using assms(3) pool_event [OF read_fail(2)] read_fail(1) by (simp add: read_counts_def recording_defs)
next
  case (read_cancel i k q w')
  show ?thesis using assms(3) pool_event [OF read_cancel(3)] read_cancel(1) by (simp add: read_counts_def recording_defs)
next
  case (read_quiet q)
  show ?thesis using assms(3) pool_event [OF read_quiet(2)] read_quiet(1) by (simp add: read_counts_def)
next
  case (read_pick i k q delay)
  show ?thesis using assms(3) pool_event [OF read_pick(2)] read_pick(1) by (simp add: read_counts_def recording_defs)
next
  case (read_drop q)
  show ?thesis using assms(3) pool_event [OF read_drop(3)] read_drop(1) by (simp add: read_counts_def)
qed (use assms(3) in \<open>simp_all add: read_counts_def recording_defs\<close>)

lemma oracle_follows_task:
  assumes "task_step job s s'" "oracle_follows job orc s"
  shows "oracle_follows job orc s'"
proof -
  from assms(2) obtain rowss where r: "list_all2 (\<lambda>b rows. mj_rows job b = Inr rows) (pl_completed (mx_writes s)) rowss"
    and o: "mx_oracle s = oracle_extend orc (concat rowss)" by (auto simp: oracle_follows_def)
  have same: "oracle_follows job orc s'"
    if "pl_completed (mx_writes s') = pl_completed (mx_writes s)" "mx_oracle s' = mx_oracle s"
    using assms(2) that by (simp add: oracle_follows_def)
  from assms(1) show ?thesis
  proof (cases rule: task_step.cases)
    case (write_acknowledge i b p rows ra rb w' d da db)
    have "pl_completed p = pl_completed (mx_writes s) @ [b]" using pool_event(1) [OF write_acknowledge(2)] by simp
    then have "list_all2 (\<lambda>b rows. mj_rows job b = Inr rows) (pl_completed p) (rowss @ [rows])"
      using r write_acknowledge(3) by (simp add: list_all2_appendI)
    moreover have "oracle_extend (mx_oracle s) rows = oracle_extend orc (concat (rowss @ [rows]))"
      by (simp add: o oracle_extend_def)
    ultimately show ?thesis unfolding oracle_follows_def write_acknowledge(1)
      by (intro exI [of _ "rowss @ [rows]"]) (simp add: recording_defs)
  next
    case (write_enqueue b p lag)
    then show ?thesis using pool_event(1) [OF write_enqueue(2)] by (intro same) (simp_all add: recording_defs)
  next
    case (write_fail i b p rows ra rb w' da db)
    then show ?thesis using pool_event(1) [OF write_fail(2)] by (intro same) (simp_all add: recording_defs)
  next
    case (write_generate i b p e)
    then show ?thesis using pool_event(1) [OF write_generate(2)] by (intro same) (simp_all add: recording_defs)
  next
    case (write_cancel i b p rows ra rb w' da db)
    then show ?thesis using pool_event(1) [OF write_cancel(3)] by (intro same) (simp_all add: recording_defs)
  next
    case (write_quiet p)
    then show ?thesis using pool_event(1) [OF write_quiet(2)] by (intro same) simp_all
  next
    case (write_pick i b p delay generating)
    then show ?thesis using pool_event(1) [OF write_pick(2)] by (intro same) (simp_all add: recording_defs)
  next
    case (write_drop p)
    then show ?thesis using pool_event(1) [OF write_drop(3)] by (intro same) simp_all
  qed (use assms(2) in \<open>simp_all add: oracle_follows_def recording_defs\<close>)
qed

definition mixed_inv :: "'w mixed_job \<Rightarrow> Oracle \<Rightarrow> 'w mixed \<Rightarrow> bool" where
  "mixed_inv job orc s \<longleftrightarrow> mixed_pools job s \<and> write_counts job s \<and> read_counts job s \<and> oracle_follows job orc s"

lemma mixed_inv_start: "mixed_inv job orc (mixed_start job orc w)"
  by (simp add: mixed_inv_def mixed_pools_def write_counts_def read_counts_def oracle_follows_def mixed_start_def
      pool_inv_new unhurt_new) (simp add: new_pool_def oracle_extend_def)

lemma mixed_inv_step:
  assumes "mixed_step job s s'" "mixed_inv job orc s" "0 < mj_batch job"
  shows "mixed_inv job orc s'"
  using assms(1)
proof cases
  case of_task
  with assms(2,3) show ?thesis
    unfolding mixed_inv_def by (blast intro: mixed_pools_task write_counts_task read_counts_task oracle_follows_task)
next
  case (interrupted name)
  with assms(2) show ?thesis
    by (simp add: mixed_inv_def mixed_pools_def write_counts_def read_counts_def oracle_follows_def)
qed

lemma mixed_inv_run:
  assumes "mixed_run job orc w s" "0 < mj_batch job"
  shows "mixed_inv job orc s"
  using assms(1)
proof (induction rule: rtranclp_induct)
  case base
  show ?case by (rule mixed_inv_start)
next
  case (step y z)
  from mixed_inv_step [OF step.hyps(2) step.IH assms(2)] show ?case .
qed

section \<open>Conservation\<close>

lemma write_totals:
  assumes "mixed_inv job orc s" "0 < mj_batch job" "0 \<le> mj_target job"
  shows "mx_acked s + mx_failed s \<le> mx_enqueued s" "mx_enqueued s \<le> mj_target job" "0 \<le> mx_acked s"
proof -
  let ?p = "mx_writes s"
  let ?items = "map (write_item job) [0..<pl_next ?p]"
  have n: "pl_next ?p \<le> write_amount job"
    and ms: "mset ?items = mset (pl_completed ?p @ pl_broken ?p) + (working (pl_tasks ?p) + queued (pl_queue ?p))"
    using assms(1) by (simp_all add: mixed_inv_def mixed_pools_def pool_inv_def ac_simps del: mset_map)
  have pos: "\<forall>b \<in> set ?items. 0 \<le> bt_count b"
    using n write_item_pos [OF assms(2)] by (auto intro!: less_imp_le)
  have le: "sum_list (map bt_count (pl_completed ?p @ pl_broken ?p)) \<le> sum_list (map bt_count ?items)"
    by (rule sum_list_mset_le [OF ms pos])
  then show "mx_acked s + mx_failed s \<le> mx_enqueued s" using assms(1) by (simp add: mixed_inv_def write_counts_def)
  show "mx_enqueued s \<le> mj_target job"
    using assms(1) sum_write_items [OF assms(2,3) n] by (simp add: mixed_inv_def write_counts_def)
  have "set (pl_completed ?p) \<subseteq> set ?items"
    by (metis ms Un_subset_iff set_append set_mset_mset set_mset_union subset_refl)
  then have "0 \<le> sum_list (map bt_count (pl_completed ?p))" using pos by (intro sum_list_nonneg) auto
  then show "0 \<le> mx_acked s" using assms(1) by (simp add: mixed_inv_def write_counts_def)
qed

lemma read_totals:
  assumes "mixed_inv job orc s"
  shows "mx_read_done s + mx_read_failed s \<le> mx_read_enqueued s" "mx_read_enqueued s \<le> int (mj_reads job)"
proof -
  let ?q = "mx_reads s"
  have n: "pl_next ?q \<le> mj_reads job"
    and ms: "mset (map Suc [0..<pl_next ?q]) = mset (pl_completed ?q) + mset (pl_broken ?q) + working (pl_tasks ?q) + queued (pl_queue ?q)"
    using assms by (simp_all add: mixed_inv_def mixed_pools_def pool_inv_def del: mset_map)
  have "pl_next ?q = length (pl_completed ?q) + length (pl_broken ?q) + size (working (pl_tasks ?q)) + size (queued (pl_queue ?q))"
    using arg_cong [OF ms, of size] by simp
  with n assms show "mx_read_done s + mx_read_failed s \<le> mx_read_enqueued s" "mx_read_enqueued s \<le> int (mj_reads job)"
    by (simp_all add: mixed_inv_def read_counts_def)
qed

lemma raw_and_summary_total: "\<exists>r. raw_and_summary xs = Inr r"
  using latency_summary_total [of xs] by (auto simp: raw_and_summary_def)

lemma emap_keyed:
  assumes "\<And>xs. \<exists>v. g xs = Inr v"
  shows "\<exists>d. emap (\<lambda>(key, xs). ebind (g xs) (\<lambda>v. Inr (key, v))) l = Inr d \<and> map fst d = map fst l"
proof (induction l)
  case (Cons x l)
  then obtain d where d: "emap (\<lambda>(key, xs). ebind (g xs) (\<lambda>v. Inr (key, v))) l = Inr d" "map fst d = map fst l" by blast
  obtain v where "g (snd x) = Inr v" using assms by blast
  with d show ?case by (cases x) simp
qed simp

lemma latency_entries_total: "\<exists>d. latency_entries s = Inr d \<and> map fst d = map fst (latency_lists s)"
  unfolding latency_entries_def by (rule emap_keyed) (rule raw_and_summary_total)

lemma mixed_result_total: "\<exists>d. mixed_result a job elapsed s = Inr d"
  using latency_entries_total [of s] by (auto simp: mixed_result_def Let_def)

text \<open>
  C9: at every point of the mixed workload, however its producers, writers and readers interleave,
  fail, are cancelled or run out of time, each offered row is counted at most once as acknowledged
  by both servers or as failed or ambiguous; neither server acknowledged less than the first count
  or more than both; the queues never exceeded their bounds; and so the final check of the counts
  never raises.
\<close>

theorem mixed_conservation:
  assumes "mixed_run job orc w s" "0 < mj_batch job" "0 \<le> mj_target job"
  shows "0 \<le> mx_acked s \<and> 0 \<le> mx_failed s \<and> mx_acked s + mx_failed s \<le> mx_enqueued s \<and> mx_enqueued s \<le> mj_target job \<and>
    mx_acked s \<le> mx_varve s \<and> mx_varve s \<le> mx_acked s + mx_failed s \<and>
    mx_acked s \<le> mx_pg s \<and> mx_pg s \<le> mx_acked s + mx_failed s \<and>
    mx_read_done s + mx_read_failed s \<le> mx_read_enqueued s \<and> mx_read_enqueued s \<le> int (mj_reads job) \<and>
    mx_peak_writes s \<le> 2 * mj_writers job \<and> mx_peak_reads s \<le> 2 * mj_readers job \<and>
    mixed_workload a job elapsed s \<noteq> Inl (RuntimeError ''mixed workload conservation violated'')"
proof -
  note inv = mixed_inv_run [OF assms(1,2)]
  note totals = write_totals [OF inv assms(2,3)] read_totals [OF inv]
  have "\<exists>d. mixed_result a job elapsed s = Inr d" by (rule mixed_result_total)
  then have "mixed_workload a job elapsed s \<noteq> Inl (RuntimeError ''mixed workload conservation violated'')"
    using totals by (auto simp: mixed_workload_def pending_rows_def pending_reads_def)
  with inv totals show ?thesis by (simp add: mixed_inv_def write_counts_def read_counts_def)
qed

section \<open>A mixed workload without failure is complete\<close>

lemma batch_rows_cover:
  assumes "0 < bsize" "0 \<le> rows"
  shows "(\<forall>k < n. int k * bsize < rows) \<Longrightarrow>
    concat (map (\<lambda>b. map f [bt_offset b..bt_offset b + bt_count b - 1]) (map (batch_at rows bsize) [0..<n])) =
      map f [0..min rows (int n * bsize) - 1]"
proof (induction n)
  case 0
  then show ?case using assms by simp
next
  case (Suc n)
  let ?g = "\<lambda>b. map f [bt_offset b..bt_offset b + bt_count b - 1]"
  have less: "int n * bsize < rows" using Suc by simp
  then have m: "min rows (int n * bsize) = int n * bsize" by simp
  have "[0..int n * bsize - 1] @ [int n * bsize..min rows (int (Suc n) * bsize) - 1] = [0..min rows (int (Suc n) * bsize) - 1]"
    using assms less by (intro upto_append) (auto simp: algebra_simps)
  then have cat: "map f [0..int n * bsize - 1] @ map f [int n * bsize..min rows (int (Suc n) * bsize) - 1] =
      map f [0..min rows (int (Suc n) * bsize) - 1]"
    by (metis map_append)
  have "bt_offset (batch_at rows bsize n) = int n * bsize"
    "bt_offset (batch_at rows bsize n) + bt_count (batch_at rows bsize n) = min rows (int (Suc n) * bsize)"
    using claim_next(2) [OF assms(1) less] by (simp_all add: batch_at_def)
  then have b: "?g (batch_at rows bsize n) = map f [int n * bsize..min rows (int (Suc n) * bsize) - 1]" by simp
  have "concat (map ?g (map (batch_at rows bsize) [0..<Suc n])) =
      concat (map ?g (map (batch_at rows bsize) [0..<n])) @ ?g (batch_at rows bsize n)" by simp
  also have "concat (map ?g (map (batch_at rows bsize) [0..<n])) = map f [0..int n * bsize - 1]" using Suc m by simp
  finally show ?case unfolding b cat .
qed

lemma mset_concat_map: "mset xs = mset ys \<Longrightarrow> mset (concat (map g xs)) = mset (concat (map g ys))"
proof -
  assume "mset xs = mset ys"
  moreover have "mset (concat (map g zs)) = (\<Sum>z \<in># mset zs. mset (g z))" for zs by (induction zs) simp_all
  ultimately show ?thesis by simp
qed

lemma generated_rows_eq:
  assumes "0 \<le> bt_offset b"
  shows "generated_rows names run_id base_us b = Inr (map (\<lambda>i. late_row i base_us) [bt_offset b..bt_offset b + bt_count b - 1])"
  using assms by (simp add: generated_rows_def mixed_rows_eq write_request_dumps)

lemma mixed_finished:
  assumes inv: "mixed_inv job orc s" and pos: "0 < mj_batch job" "0 \<le> mj_target job" and over: "mixed_over s" "mx_failure s = None"
  shows "data_complete job s" "mset (pl_completed (mx_writes s)) = mset (map (write_item job) [0..<write_amount job])"
proof -
  have w: "pool_inv (2 * mj_writers job) (write_item job) (write_amount job) (mx_writes s)" "unhurt (mx_writes s)"
    and r: "pool_inv (2 * mj_readers job) Suc (mj_reads job) (mx_reads s)" "unhurt (mx_reads s)"
    using inv over(2) by (simp_all add: mixed_inv_def mixed_pools_def)
  have pw: "pool_over (mx_writes s)" "pool_over (mx_reads s)" using over(1) by (simp_all add: mixed_over_def)
  note dw = pool_done [OF pw(1) w(2,1)] and dr = pool_done [OF pw(2) r(2,1)]
  show ms: "mset (pl_completed (mx_writes s)) = mset (map (write_item job) [0..<write_amount job])" using dw by simp
  have "mset (map bt_count (pl_completed (mx_writes s))) = mset (map bt_count (map (write_item job) [0..<write_amount job]))"
    using ms by (metis mset_map)
  then have "sum_list (map bt_count (pl_completed (mx_writes s))) = sum_list (map bt_count (map (write_item job) [0..<write_amount job]))"
    by (metis sum_mset_sum_list)
  also have "\<dots> = mj_target job"
    using sum_write_items [OF pos order_refl] write_amount_covers [OF pos] by simp
  finally have acked: "mx_acked s = mj_target job" using inv by (simp add: mixed_inv_def write_counts_def)
  have failed: "mx_failed s = 0" using inv w(2) by (simp add: mixed_inv_def write_counts_def unhurt_def)
  have "length (pl_completed (mx_reads s)) = mj_reads job" using dr by (metis diff_zero length_map length_upt size_mset)
  then have "mx_read_done s = int (mj_reads job)" "mx_read_failed s = 0"
    using inv r(2) by (simp_all add: mixed_inv_def read_counts_def unhurt_def)
  with acked failed show "data_complete job s" by (simp add: data_complete_def pending_rows_def pending_reads_def)
qed

text \<open>
  C8: a mixed workload that ends without a failure returns its result, in which the data are
  complete: every intended row was acknowledged by both servers and every intended read was done.
  It is called passed if the schedule was kept and overloaded otherwise. The oracle then predicts
  exactly the initial rows together with the late rows, whatever the order they were acknowledged in.
\<close>

theorem mixed_complete:
  assumes job: "job = mixed_job sv vc pc names a base_us baseline deadline describe_error" and bounds: "within_bounds a"
    and run: "mixed_run job (oracle_extend empty_oracle rows) w s" and over: "mixed_over s" "mx_failure s = None"
  shows "\<exists>body. mixed_workload a job elapsed s = Inr (Inr body) \<and> dget body ''data_complete'' = JBool True \<and>
    dget body ''acknowledged_rows'' = JInt (mixed_target a) \<and>
    dget body ''state'' = JStr (if schedule_met a job s then ''passed'' else ''overloaded'') \<and>
    oracle_snapshot (mx_oracle s) =
      oracle_snapshot (oracle_extend empty_oracle (rows @ map (\<lambda>i. late_row i base_us) [0..mixed_target a - 1]))"
proof -
  have pos: "0 < mj_batch job" "0 \<le> mj_target job" and target: "mj_target job = mixed_target a"
    using bounds mixed_target_nonneg [OF bounds] by (simp_all add: job mixed_job_def within_bounds_def)
  note inv = mixed_inv_run [OF run pos(1)]
  note fin = mixed_finished [OF inv pos over]
  let ?g = "\<lambda>b. map (\<lambda>i. late_row i base_us) [bt_offset b..bt_offset b + bt_count b - 1]"
  obtain rowss where rowss: "list_all2 (\<lambda>b rs. mj_rows job b = Inr rs) (pl_completed (mx_writes s)) rowss"
    and orc: "mx_oracle s = oracle_extend (oracle_extend empty_oracle rows) (concat rowss)"
    using inv by (auto simp: mixed_inv_def oracle_follows_def)
  have item: "mj_rows job b = Inr (?g b)" if "b \<in> set (pl_completed (mx_writes s))" for b
  proof -
    have "b \<in> set (map (write_item job) [0..<write_amount job])" using that fin(2) by (metis set_mset_mset)
    then have "0 \<le> bt_offset b" using pos(1) by (auto simp: write_item_def batch_at_def)
    then show ?thesis by (simp add: job mixed_job_def generated_rows_eq)
  qed
  have "rowss = map ?g (pl_completed (mx_writes s))"
    using rowss item by (auto simp: list_all2_conv_all_nth intro!: nth_equalityI)
  then have "mset (concat rowss) = mset (concat (map ?g (map (write_item job) [0..<write_amount job])))"
    using mset_concat_map [OF fin(2), of ?g] by simp
  also have "concat (map ?g (map (write_item job) [0..<write_amount job])) = map (\<lambda>i. late_row i base_us) [0..mixed_target a - 1]"
    unfolding write_item_def using batch_rows_cover [OF pos, of "write_amount job"] write_amount_less [OF pos(1)] write_amount_covers [OF pos]
    by (simp add: target min_absorb1)
  finally have ms: "mset (rows @ concat rowss) = mset (rows @ map (\<lambda>i. late_row i base_us) [0..mixed_target a - 1])" by simp
  have snap: "oracle_snapshot (mx_oracle s) =
      oracle_snapshot (oracle_extend empty_oracle (rows @ map (\<lambda>i. late_row i base_us) [0..mixed_target a - 1]))"
    using oracle_snapshot_mset [OF ms] by (simp add: orc oracle_of_def oracle_extend_def)
  obtain body where body: "mixed_result a job elapsed s = Inr body" using mixed_result_total by blast
  have "pending_rows job s = 0" "pending_reads job s = 0" "mx_acked s = mixed_target a" using fin(1) target by (simp_all add: data_complete_def)
  then have "mixed_workload a job elapsed s = Inr (Inr body)" using body over(2) by (simp add: mixed_workload_def)
  moreover have "dget body ''data_complete'' = JBool True \<and> dget body ''acknowledged_rows'' = JInt (mixed_target a) \<and>
      dget body ''state'' = JStr (if schedule_met a job s then ''passed'' else ''overloaded'')"
    using body fin(1) over(2) \<open>mx_acked s = mixed_target a\<close>
    by (auto simp: mixed_result_def Let_def counts_json_def mixed_state_def dget_def elim!: ebindE)
  ultimately show ?thesis using snap by blast
qed

section \<open>Every mixed workload ends\<close>

definition mixed_measure :: "'w mixed_job \<Rightarrow> 'w mixed \<Rightarrow> nat" where
  "mixed_measure job s = pool_measure (write_amount job) (mx_writes s) + pool_measure (mj_reads job) (mx_reads s) +
     (if mx_failure s = None then 1 else 0)"

lemma task_step_parts:
  assumes "task_step job s s'"
  shows "(\<exists>e. write_step job s e (mx_writes s')) \<and> mx_reads s' = mx_reads s \<or>
    mx_writes s' = mx_writes s \<and> (\<exists>e. read_step job s e (mx_reads s'))"
    and "mx_failure s \<noteq> None \<Longrightarrow> mx_failure s' \<noteq> None"
  using assms by (cases rule: task_step.cases; force simp: recording_defs)+

lemma mixed_step_measure:
  assumes "mixed_step job s s'" "mixed_pools job s"
  shows "mixed_measure job s' < mixed_measure job s"
  using assms(1)
proof cases
  case of_task
  have w: "pool_inv (2 * mj_writers job) (write_item job) (write_amount job) (mx_writes s)"
    and r: "pool_inv (2 * mj_readers job) Suc (mj_reads job) (mx_reads s)"
    using assms(2) by (simp_all add: mixed_pools_def)
  from task_step_parts [OF of_task] pool_step_measure [OF _ w] pool_step_measure [OF _ r] show ?thesis
    unfolding mixed_measure_def by (cases "mx_failure s = None"; cases "mx_failure s' = None") fastforce+
next
  case (interrupted name)
  then show ?thesis by (simp add: mixed_measure_def)
qed

lemma mixed_measure_start:
  "mixed_measure job (mixed_start job orc w) =
     4 * (write_amount job + mj_reads job) + 3 * (mj_writers job + mj_readers job) + 7"
  by (simp add: mixed_measure_def mixed_start_def pool_measure_new)

lemma completed_can_raise:
  "pool_step cap item amount stop p (Completed i x) p' \<Longrightarrow> \<exists>p''. pool_step cap item amount stop p (Raised i x) p''"
  by (elim completedE) (blast intro: raise_item)

text \<open>A paired write always has an outcome.\<close>

lemma write_worker_moves:
  assumes "write_step job s (Completed i b) p"
  shows "\<exists>s'. task_step job s s'"
proof (cases "mj_rows job b")
  case (Inl e)
  with completed_can_raise [OF assms] show ?thesis by (blast intro: write_generate)
next
  case (Inr rows)
  obtain ra w1 where v: "mj_varve job b rows (mx_world s) = (ra, w1)" by (rule prod.exhaust)
  obtain rb w2 where g: "mj_pg job i b rows w1 = (rb, w2)" by (rule prod.exhaust)
  note pair = varve_first [where v = "mj_varve job b rows" and p = "mj_pg job i b rows", OF v g]
  show ?thesis
  proof (cases "accepted ra \<and> accepted rb")
    case True
    with write_acknowledge [OF assms Inr pair] show ?thesis by blast
  next
    case False
    obtain p'' where "write_step job s (Raised i b) p''" using completed_can_raise [OF assms] by blast
    from write_fail [OF this Inr pair False] show ?thesis by blast
  qed
qed

lemma read_worker_moves:
  assumes "read_step job s (Completed i k) q"
  shows "\<exists>s'. task_step job s s'"
proof (cases "mj_read job (mx_world s)")
  case (Pair r w')
  show ?thesis
  proof (cases r)
    case (Inl e)
    obtain q'' where "read_step job s (Raised i k) q''" using completed_can_raise [OF assms] by blast
    from read_fail [OF this] Pair Inl show ?thesis by blast
  next
    case (Inr x)
    with read_complete [OF assms, of "fst x" "snd x" w'] Pair show ?thesis by auto
  qed
qed

lemma ordinary_write_step:
  assumes "write_step job s e p" "ordinary e"
  shows "(\<exists>s'. task_step job s s' \<and> mx_failure s' = mx_failure s) \<or> (\<exists>i b. e = Completed i b)"
proof (cases e)
  case Quiet
  with write_quiet assms(1) show ?thesis by force
next
  case (Enqueued b)
  with write_enqueue [of job s b p] assms(1) show ?thesis by (force simp: write_enqueued_def)
next
  case (Picked i b)
  with write_pick [of job s i b p] assms(1) show ?thesis by (force simp: write_picked_def)
qed (use assms(2) in simp_all)

lemma ordinary_read_step:
  assumes "read_step job s e q" "ordinary e"
  shows "(\<exists>s'. task_step job s s' \<and> mx_failure s' = mx_failure s) \<or> (\<exists>i k. e = Completed i k)"
proof (cases e)
  case Quiet
  with read_quiet assms(1) show ?thesis by force
next
  case (Enqueued k)
  with read_enqueue [of job s k q] assms(1) show ?thesis by (force simp: read_enqueued_def)
next
  case (Picked i k)
  with read_pick [of job s i k q] assms(1) show ?thesis by (force simp: read_picked_def)
qed (use assms(2) in simp_all)

text \<open>As long as nothing failed, some pool that is not over has an ordinary step.\<close>

lemma unhurt_progress:
  assumes "mixed_pools job s" "mx_failure s = None" "\<not> mixed_over s" "0 < mj_writers job" "0 < mj_readers job"
  shows "(\<exists>e p. write_step job s e p \<and> ordinary e) \<or> (\<exists>e q. read_step job s e q \<and> ordinary e)"
proof -
  have w: "pool_inv (2 * mj_writers job) (write_item job) (write_amount job) (mx_writes s)" "unhurt (mx_writes s)" "pl_tasks (mx_writes s) \<noteq> []"
    and r: "pool_inv (2 * mj_readers job) Suc (mj_reads job) (mx_reads s)" "unhurt (mx_reads s)" "pl_tasks (mx_reads s) \<noteq> []"
    using assms by (auto simp: mixed_pools_def)
  show ?thesis
  proof (cases "pool_over (mx_writes s)")
    case False
    with pool_progress [OF w(1), of "mx_stop s"] w(2,3) assms(4) show ?thesis by (auto simp: unhurt_def)
  next
    case True
    then have "\<not> pool_over (mx_reads s)" using assms(3) by (simp add: mixed_over_def)
    with pool_progress [OF r(1), of "mx_stop s"] r(2,3) assms(5) show ?thesis by (auto simp: unhurt_def)
  qed
qed

lemma hurt_progress:
  assumes "mx_failure s \<noteq> None" "\<not> mixed_over s"
  shows "\<exists>s'. task_step job s s'"
proof -
  have raised: "\<exists>s'. task_step job s s'" if "write_step job s (Raised i b) p" for i b p
  proof (cases "mj_rows job b")
    case (Inl e)
    with that show ?thesis by (blast intro: write_generate)
  next
    case (Inr rows)
    have "cancelled_pair (mj_varve job b rows) (mj_pg job i b rows) (mx_world s) (False, Inl Cancelled) (False, Inl Cancelled) (mx_world s)"
      unfolding cancelled_pair_def by (intro disjI1 exI [of _ "mx_world s"] conjI cut) simp_all
    from write_cancel [OF assms(1) that Inr this] show ?thesis by blast
  qed
  show ?thesis
  proof (cases "pool_over (mx_writes s)")
    case False
    from hurt_pool_moves [OF this] obtain e p where "write_step job s e p" "e = Dropped \<or> (\<exists>i b. e = Raised i b)" by blast
    with raised write_drop [OF assms(1)] show ?thesis by blast
  next
    case True
    then have "\<not> pool_over (mx_reads s)" using assms(2) by (simp add: mixed_over_def)
    from hurt_pool_moves [OF this] obtain e q where "read_step job s e q" "e = Dropped \<or> (\<exists>i k. e = Raised i k)" by blast
    with read_cancel [OF assms(1)] read_drop [OF assms(1)] show ?thesis by blast
  qed
qed

lemma mixed_progress:
  assumes "mixed_pools job s" "\<not> mixed_over s" "0 < mj_writers job" "0 < mj_readers job"
  shows "\<exists>s'. task_step job s s'"
proof (cases "mx_failure s = None")
  case True
  from unhurt_progress [OF assms(1) True assms(2-4)] show ?thesis
    using ordinary_write_step ordinary_read_step write_worker_moves read_worker_moves by metis
next
  case False
  with hurt_progress assms(2) show ?thesis by blast
qed

lemma mixed_pools_steps: "(mixed_step job ^^ n) (mixed_start job orc w) s \<Longrightarrow> mixed_pools job s"
proof (induction n arbitrary: s)
  case 0
  then show ?case using mixed_inv_start [of job orc w] by (auto simp: mixed_inv_def)
next
  case (Suc n)
  then obtain t where t: "(mixed_step job ^^ n) (mixed_start job orc w) t" "mixed_step job t s" by auto
  from t(2) Suc.IH [OF t(1)] show ?case by cases (auto simp: mixed_pools_def dest: mixed_pools_task)
qed

lemma mixed_steps_measure:
  "(mixed_step job ^^ n) (mixed_start job orc w) s \<Longrightarrow> mixed_measure job s + n \<le> mixed_measure job (mixed_start job orc w)"
proof (induction n arbitrary: s)
  case (Suc n)
  then obtain t where t: "(mixed_step job ^^ n) (mixed_start job orc w) t" "mixed_step job t s" by auto
  from Suc.IH [OF t(1)] mixed_step_measure [OF t(2) mixed_pools_steps [OF t(1)]] show ?case by simp
qed simp

text \<open>
  C10: every mixed workload ends. An interleaving takes at most four steps for each intended write
  request and read, three for each worker, and seven more; and until both pools are over some task
  can take a step of its own, without waiting for the time limit: the producers, the bounded queues
  and the workers never wait for each other for ever, also after a failure.
\<close>

theorem mixed_terminates:
  assumes "(mixed_step job ^^ n) (mixed_start job orc w) s" "0 < mj_writers job" "0 < mj_readers job"
  shows "n \<le> 4 * (write_amount job + mj_reads job) + 3 * (mj_writers job + mj_readers job) + 7 \<and>
    (mixed_over s \<or> (\<exists>s'. task_step job s s'))"
  using mixed_steps_measure [OF assms(1)] mixed_measure_start [of job orc w] mixed_progress [OF mixed_pools_steps [OF assms(1)] _ assms(2,3)]
  by auto

section \<open>Servers that accept everything\<close>

definition always_accepted :: "'w mixed_job \<Rightarrow> bool" where
  "always_accepted job \<longleftrightarrow>
     (\<forall>k < write_amount job. \<exists>rows. mj_rows job (write_item job k) = Inr rows \<and>
        (\<forall>i w. i < mj_writers job \<longrightarrow> accepted (fst (mj_varve job (write_item job k) rows w)) \<and>
           accepted (fst (mj_pg job i (write_item job k) rows w)))) \<and>
     (0 < mj_reads job \<longrightarrow> (\<forall>w. \<exists>x w'. mj_read job w = (Inr x, w')))"

lemma accepted_write_moves:
  assumes "always_accepted job" "mixed_pools job s" "write_step job s (Completed i b) p"
  shows "\<exists>s'. task_step job s s' \<and> mx_failure s' = mx_failure s"
proof -
  have inv: "pool_inv (2 * mj_writers job) (write_item job) (write_amount job) (mx_writes s)" using assms(2) by (simp add: mixed_pools_def)
  obtain k where k: "k < write_amount job" "b = write_item job k" using pool_item [OF assms(3) inv] by blast
  have i: "i < mj_writers job" using assms(2,3) by (auto simp: mixed_pools_def elim: completedE)
  obtain rows where rows: "mj_rows job b = Inr rows"
    and ok: "accepted (fst (mj_varve job b rows w))" "accepted (fst (mj_pg job i b rows w))" for w
    using assms(1) k i unfolding always_accepted_def by blast
  obtain ra w1 where v: "mj_varve job b rows (mx_world s) = (ra, w1)" by (rule prod.exhaust)
  obtain rb w2 where g: "mj_pg job i b rows w1 = (rb, w2)" by (rule prod.exhaust)
  have "accepted ra" "accepted rb" using ok(1) [of "mx_world s"] ok(2) [of w1] v g by simp_all
  from write_acknowledge [OF assms(3) rows varve_first [where v = "mj_varve job b rows" and p = "mj_pg job i b rows", OF v g] this, of 0 0 0]
  show ?thesis by (intro exI conjI, assumption) (simp add: recording_defs)
qed

lemma accepted_read_moves:
  assumes "always_accepted job" "mixed_pools job s" "read_step job s (Completed i k) q"
  shows "\<exists>s'. task_step job s s' \<and> mx_failure s' = mx_failure s"
proof -
  have inv: "pool_inv (2 * mj_readers job) Suc (mj_reads job) (mx_reads s)" using assms(2) by (simp add: mixed_pools_def)
  obtain j where "j < mj_reads job" using pool_item [OF assms(3) inv] by blast
  then obtain x w' where "mj_read job (mx_world s) = (Inr (fst x, snd x), w')" using assms(1) unfolding always_accepted_def by fastforce
  from read_complete [OF assms(3) this, of 0] show ?thesis by (intro exI conjI, assumption) (simp add: recording_defs)
qed

lemma accepted_run:
  assumes acc: "always_accepted job" and pos: "0 < mj_writers job" "0 < mj_readers job"
  shows "mixed_pools job s \<Longrightarrow> mx_failure s = None \<Longrightarrow> \<exists>s'. (mixed_step job)\<^sup>*\<^sup>* s s' \<and> mixed_over s' \<and> mx_failure s' = None"
proof (induction "mixed_measure job s" arbitrary: s rule: less_induct)
  case less
  show ?case
  proof (cases "mixed_over s")
    case False
    have "\<exists>s'. task_step job s s' \<and> mx_failure s' = mx_failure s"
      using unhurt_progress [OF less.prems False pos]
    proof (elim disjE exE conjE)
      fix e p assume "write_step job s e p" "ordinary e"
      with ordinary_write_step accepted_write_moves [OF acc less.prems(1)] show ?thesis by blast
    next
      fix e q assume "read_step job s e q" "ordinary e"
      with ordinary_read_step accepted_read_moves [OF acc less.prems(1)] show ?thesis by blast
    qed
    then obtain t where t: "task_step job s t" "mx_failure t = None" using less.prems(2) by auto
    have st: "mixed_step job s t" using t(1) by (rule of_task)
    from less.hyps [OF mixed_step_measure [OF st less.prems(1)] mixed_pools_task [OF t(1) less.prems(1)] t(2)]
    show ?thesis using st by (meson converse_rtranclp_into_rtranclp)
  qed (use less.prems in blast)
qed

lemma accepted_completes:
  assumes "always_accepted job" "0 < mj_writers job" "0 < mj_readers job"
  shows "\<exists>s. mixed_run job orc w s \<and> mixed_over s \<and> mx_failure s = None"
  using accepted_run [OF assms] mixed_inv_start [of job orc w] by (simp add: mixed_inv_def mixed_start_def)

definition example_args :: "string Namespace" where
  "example_args = (settled default_options ''run'' ''/results/run.json'')
     \<lparr>a_rows := 5, a_batch := 2, a_writers := 1, a_mixed_seconds := 1, a_rate := 4\<rparr>"

definition example_receipt :: json where
  "example_receipt = JObj [(''rows'', JInt 2), (''duplicate'', JBool False), (''durability'', JStr ''local_fsync''), (''sequence'', JInt 9)]"

definition accepting_services :: "unit services" where
  "accepting_services = (canned_services (\<lambda>_. JNull) (\<lambda>_. []) (\<lambda>_. [[(''batch_id'', JStr ''b'')]]))
     \<lparr>sv_http := (\<lambda>_ _ _ _. io_return (200, [utf8 (json_text False True example_receipt)]))\<rparr>"

abbreviation example_client :: TimescaleClient where
  "example_client \<equiv> \<lparr>pc_credentials = [], pc_deadline = long_deadline, pc_control = Some 7, pc_writers = [8]\<rparr>"

abbreviation example_job :: "unit mixed_job" where
  "example_job \<equiv> mixed_job accepting_services canned_varve example_client example_names example_args 0 empty_stats long_deadline default_describe"

lemma accepting_timeout: "io_timeout accepting_services long_deadline CALL_TIMEOUT w = (Inr 35, w)"
  using canned_timeout [of _ _ _ w] by (simp add: accepting_services_def io_timeout_def canned_services_def)

lemma accepting_pg: "sv_pg accepting_services c stmt params t = io_return (Some [[(''batch_id'', JStr ''b'')]])"
    "sv_copy accepting_services c stmt rows t = io_return ()"
  by (simp_all add: accepting_services_def canned_services_def)

lemma accepting_copy: "length rows = 2 \<Longrightarrow> accepted (fst (pg_write accepting_services example_client 0 names rid rows long_deadline d w))"
proof -
  assume "length rows = 2"
  then have "copy_batch accepting_services c True names rid rows long_deadline w = (Inr True, w)" for c
    by (auto simp: copy_batch_def io_bind_def io_then_def accepting_timeout copy_many_def io_transaction_def fetchone_def Let_def
        accepting_pg split: list.splits)
  then show ?thesis by (simp add: pg_write_def accepted_def)
qed

lemma accepting_write: "length rows = 2 \<Longrightarrow> accepted (fst (varve_write accepting_services canned_varve names rid rows w))"
proof -
  assume l: "length rows = 2"
  have "json_plain example_receipt" "length (utf8 (json_text False True example_receipt)) \<le> 100" by code_simp+
  then have "decode_response 200 [utf8 (json_text False True example_receipt)] = Inr example_receipt" by (intro decode_printed) simp_all
  then have "varve_request accepting_services canned_varve m path body w = (Inr example_receipt, w)" for m path body
    by (simp add: varve_request_def io_bind_def accepting_timeout) (simp add: accepting_services_def)
  moreover have "\<exists>d. validate_varve_receipt example_receipt 2 False = Inr d"
    by (auto simp: validate_varve_receipt_def example_receipt_def dget_def)
  ultimately show ?thesis using l by (auto simp: varve_write_def write_request_dumps accepted_def)
qed

lemma job_writes:
  "mj_varve (mixed_job sv vc pc names a base_us baseline deadline describe_error) b rows =
     varve_write sv vc names (request_id (a_run_id a) ''mixed'' (bt_index b)) rows"
  "mj_pg (mixed_job sv vc pc names a base_us baseline deadline describe_error) i b rows =
     pg_write sv pc i names (request_id (a_run_id a) ''mixed'' (bt_index b)) rows deadline ''unexpected duplicate mixed Timescale receipt''"
  by (simp_all add: mixed_job_def)

lemma example_targets: "mixed_target example_args = 4" "read_target example_args = 0" "within_bounds example_args"
  by code_simp+

lemma example_accepted: "always_accepted example_job" "mj_writers example_job = 1" "mj_readers example_job = 1"
proof -
  have b: "a_batch example_args = 2" "a_writers example_args = 1" "a_mixed_readers example_args = 1" by code_simp+
  show w: "mj_writers example_job = 1" "mj_readers example_job = 1" by (simp_all add: mixed_job_def b)
  have amount: "write_amount example_job = 2" by (simp add: write_amount_def mixed_job_def example_targets b)
  have item: "bt_offset (write_item example_job k) = 2 * int k" "bt_count (write_item example_job k) = 2" if "k < 2" for k
    using that by (auto simp: write_item_def batch_at_def mixed_job_def example_targets b)
  show "always_accepted example_job"
    unfolding always_accepted_def amount w
  proof (intro conjI allI impI)
    fix k :: nat assume "k < 2"
    let ?b = "write_item example_job k" and ?rows = "map (\<lambda>i. late_row i 0) [2 * int k..2 * int k + 2 - 1]"
    have rows: "mj_rows example_job ?b = Inr ?rows" using item [OF \<open>k < 2\<close>] by (simp add: mixed_job_def generated_rows_eq)
    have "length ?rows = 2" by simp
    then show "\<exists>rows. mj_rows example_job ?b = Inr rows \<and> (\<forall>i w. i < 1 \<longrightarrow>
        accepted (fst (mj_varve example_job ?b rows w)) \<and> accepted (fst (mj_pg example_job i ?b rows w)))"
      using rows accepting_write accepting_copy by (intro exI [of _ ?rows]) (simp add: job_writes)
  next
    fix w assume "0 < mj_reads example_job"
    then show "\<exists>x w'. mj_read example_job w = (Inr x, w')" by (simp add: mixed_job_def example_targets)
  qed
qed

lemma example_run: "\<exists>s. mixed_run example_job (oracle_extend empty_oracle []) () s \<and> mixed_over s \<and> mx_failure s = None"
  using accepted_completes [OF example_accepted(1)] example_accepted(2,3) by simp

theorem mixed_conservation_witness:
  "\<exists>s. mixed_run example_job (oracle_extend empty_oracle []) () s \<and> mixed_over s \<and> mx_acked s + mx_failed s \<le> mx_enqueued s \<and> mx_enqueued s \<le> 4"
proof -
  obtain s where s: "mixed_run example_job (oracle_extend empty_oracle []) () s" "mixed_over s" using example_run by blast
  have "mj_target example_job = 4" "mj_batch example_job = 2" by (simp_all add: mixed_job_def example_targets) code_simp
  with mixed_conservation [OF s(1), of example_args 0] s show ?thesis by (intro exI [of _ s]) simp
qed

theorem mixed_complete_witness:
  "\<exists>s body. mixed_workload example_args example_job 0 s = Inr (Inr body) \<and> dget body ''acknowledged_rows'' = JInt 4 \<and>
     oracle_snapshot (mx_oracle s) = oracle_snapshot (oracle_extend empty_oracle ([] @ map (\<lambda>i. late_row i 0) [0..4 - 1]))"
proof -
  obtain s where s: "mixed_run example_job (oracle_extend empty_oracle []) () s" "mixed_over s" "mx_failure s = None" using example_run by blast
  from mixed_complete [OF refl example_targets(3) s, of 0] show ?thesis unfolding example_targets(1) by blast
qed

theorem mixed_terminates_witness:
  "\<exists>n s. (mixed_step example_job ^^ n) (mixed_start example_job empty_oracle ()) s \<and> n \<le> 4 * 2 + 3 * 2 + 7 \<and> mixed_over s"
proof -
  obtain s where s: "mixed_run example_job empty_oracle () s" "mixed_over s" using example_run by (auto simp: oracle_extend_def)
  then obtain n where n: "(mixed_step example_job ^^ n) (mixed_start example_job empty_oracle ()) s" by (auto dest: rtranclp_imp_relpowp)
  have "a_batch example_args = 2" by code_simp
  then have "write_amount example_job = 2" "mj_reads example_job = 0" by (simp_all add: write_amount_def mixed_job_def example_targets)
  with mixed_terminates [OF n] example_accepted(2,3) n s(2) show ?thesis by (intro exI [of _ n] exI [of _ s]) simp
qed

end
