(* ===== verification/Driver.thy ===== *)
theory Driver
  imports Mixed
begin

text \<open>
  The whole driver (\<^verbatim>\<open>verify_all\<close>, \<^verbatim>\<open>run_fresh\<close>, \<^verbatim>\<open>run_verify_only\<close>, \<^verbatim>\<open>async_main\<close>, \<^verbatim>\<open>main\<close>): the
  composition of the phases with the report they leave. A run is a program over the world and the
  mutable report. Where the driver starts concurrent tasks, the event loop is a parameter that
  picks one complete interleaving of the step relations of \<open>Ingest\<close> and \<open>Mixed\<close>.
\<close>

section \<open>The report as the state of a run\<close>

text \<open>
  \<open>rs_ops\<close> are the file operations made so far and \<open>rs_lines\<close> the printed events. \<open>rs_ingest\<close> is the
  dictionary of the initial ingestion, which the body shares once it has been entered there.
\<close>

record run_state =
  rs_report :: Report
  rs_ops :: "fs_op list"
  rs_lines :: "string list"
  rs_ingest :: dict

type_synonym ('w, 'a) run = "('w \<times> run_state, 'a) io"

abbreviation rs_body :: "run_state \<Rightarrow> dict" where
  "rs_body s \<equiv> rp_body (rs_report s)"

definition set_body :: "dict \<Rightarrow> run_state \<Rightarrow> run_state" where
  "set_body body s = s\<lparr>rs_report := (rs_report s)\<lparr>rp_body := body\<rparr>\<rparr>"

definition body_set :: "string \<Rightarrow> json \<Rightarrow> ('w, unit) run" where
  "body_set k v = io_modify (\<lambda>s. set_body (dset (rs_body s) k v) s)"

text \<open>\<^verbatim>\<open>body.setdefault(k, v)\<close>, \<^verbatim>\<open>body[k].append(v)\<close> and \<^verbatim>\<open>body[k][j] = v\<close>.\<close>

definition body_default :: "string \<Rightarrow> json \<Rightarrow> ('w, unit) run" where
  "body_default k v = io_modify (\<lambda>s. if map_of (rs_body s) k = None then set_body (dset (rs_body s) k v) s else s)"

definition body_append :: "string \<Rightarrow> json \<Rightarrow> ('w, unit) run" where
  "body_append k v =
     io_bind io_get (\<lambda>s. case dget (rs_body s) k of
       JList xs \<Rightarrow> body_set k (JList (xs @ [v]))
     | _ \<Rightarrow> io_raise (AttributeError ''append''))"

definition body_in :: "string \<Rightarrow> string \<Rightarrow> json \<Rightarrow> ('w, unit) run" where
  "body_in k j v =
     io_bind io_get (\<lambda>s. case map_of (rs_body s) k of
       None \<Rightarrow> io_raise (KeyError k)
     | Some (JObj d) \<Rightarrow> body_set k (JObj (dset d j v))
     | Some _ \<Rightarrow> io_raise (TypeError ''object does not support item assignment''))"

definition flush :: "('w, unit) run" where
  "flush = (\<lambda>(w, s). case report_flush (rs_report s) of
     Inl e \<Rightarrow> (Inl e, (w, s))
   | Inr ops \<Rightarrow> (Inr (), (w, s\<lparr>rs_ops := rs_ops s @ ops\<rparr>)))"

definition phase :: "('w \<times> run_state) services \<Rightarrow> string \<Rightarrow> string \<Rightarrow> dict \<Rightarrow> ('w, unit) run" where
  "phase sv name state details =
     io_bind (sv_now sv) (\<lambda>now.
     io_bind (sv_utc sv) (\<lambda>utc.
     (\<lambda>(w, s). case report_phase (rs_report s) now utc name state details of
        (rp, Inl e) \<Rightarrow> (Inl e, (w, s\<lparr>rs_report := rp\<rparr>))
      | (rp, Inr (ops, line)) \<Rightarrow> (Inr (), (w, s\<lparr>rs_report := rp, rs_ops := rs_ops s @ ops, rs_lines := rs_lines s @ [line]\<rparr>)))))"

text \<open>The calls of the services leave the report alone.\<close>

definition beside :: "'w services \<Rightarrow> ('w \<times> 's) services" where
  "beside sv = \<lparr>sv_now = io_on (sv_now sv), sv_utc = io_on (sv_utc sv),
     sv_http = (\<lambda>verb url body t. io_on (sv_http sv verb url body t)),
     sv_connect = (\<lambda>c t. io_on (sv_connect sv c t)), sv_close = (\<lambda>c. io_on (sv_close sv c)),
     sv_pg = (\<lambda>c stmt params t. io_on (sv_pg sv c stmt params t)),
     sv_copy = (\<lambda>c stmt rows t. io_on (sv_copy sv c stmt rows t))\<rparr>"

section \<open>The process around a run\<close>

text \<open>
  What a run gets from its process: \<^verbatim>\<open>time.time()\<close>, the flag and clock readings of the
  thread that builds the oracle, and the event loop: for each task group the state it ends in, the
  measured time, and for the ingestion the description of the exception. The states an event loop
  can end in are those of \<open>ingest_run\<close> and \<open>mixed_run\<close>; what is shown here holds for any.
\<close>

record 'w host =
  ho_time :: "('w, rat) io"
  ho_oracle :: "('w, (nat \<Rightarrow> bool) \<times> (nat \<Rightarrow> rat)) io"
  ho_ingest :: "'w submit \<Rightarrow> int \<Rightarrow> int \<Rightarrow> nat \<Rightarrow> 'w \<Rightarrow> 'w ingest \<times> rat \<times> string"
  ho_mixed :: "'w mixed_job \<Rightarrow> Oracle \<Rightarrow> 'w \<Rightarrow> 'w mixed \<times> rat"

text \<open>\<^verbatim>\<open>redactor(credentials)\<close> on an exception and its causes.\<close>

definition cause_store :: "pyerror list \<Rightarrow> nat \<Rightarrow> exception" where
  "cause_store es i =
     (let e = (if i < length es then es ! i else Cancelled) in
      \<lparr>ex_type = error_class e, ex_text = error_text e, ex_members = [],
       ex_cause = (if Suc i < length es then Some (Suc i) else None), ex_suppress_context = True, ex_context = None\<rparr>)"

definition clean_error :: "credentials \<Rightarrow> pyerror list \<Rightarrow> string" where
  "clean_error credentials es = redactor credentials (cause_store es) 0"

text \<open>
  The connections of a client are opened one after the other; whatever was opened is closed at the
  end, also when opening fails.
\<close>

primrec open_each :: "'w services \<Rightarrow> nat \<Rightarrow> ('w \<times> TimescaleClient, unit) io" where
  "open_each sv 0 = io_return ()"
| "open_each sv (Suc n) =
     io_bind io_get (\<lambda>pc. io_bind (io_on (pg_connect sv pc)) (\<lambda>c.
     io_then (io_modify (\<lambda>pc. pc\<lparr>pc_writers := pc_writers pc @ [c]\<rparr>)) (open_each sv n)))"

definition open_client :: "'w services \<Rightarrow> nat \<Rightarrow> ('w \<times> TimescaleClient, unit) io" where
  "open_client sv writers =
     io_bind io_get (\<lambda>pc. io_bind (io_on (pg_connect sv pc)) (\<lambda>c.
     io_then (io_modify (\<lambda>pc. pc\<lparr>pc_control := Some c\<rparr>)) (open_each sv writers)))"

definition with_client :: "'w services \<Rightarrow> TimescaleClient \<Rightarrow> nat \<Rightarrow> (TimescaleClient \<Rightarrow> ('w, 'a) io) \<Rightarrow> ('w, 'a) io" where
  "with_client sv pc writers body = (\<lambda>w.
     case open_client sv writers (w, pc) of
       (r, (w1, pc1)) \<Rightarrow> io_finally (case r of Inl e \<Rightarrow> io_raise e | Inr _ \<Rightarrow> body pc1) (pg_close sv pc1) w1)"

section \<open>The phases of a fresh run\<close>

definition verify_case :: "'w services \<Rightarrow> VarveClient \<Rightarrow> TimescaleClient \<Rightarrow> QueryCase \<Rightarrow> ('w, unit) io" where
  "verify_case sv vc pc q =
     io_bind (varve_sql sv vc (qc_varve_sql q)) (\<lambda>rows.
     io_then (io_lift (qc_verify q rows))
     (io_bind (pg_query sv pc (qc_postgres_sql q) []) (\<lambda>rows'. io_lift (qc_verify q rows'))))"

definition verify_all :: "'w services \<Rightarrow> VarveClient \<Rightarrow> TimescaleClient \<Rightarrow> Names \<Rightarrow> Oracle \<Rightarrow> int \<Rightarrow> int \<Rightarrow> ('w, unit) io" where
  "verify_all sv vc pc names orc base_us initial_count =
     io_iter (verify_case sv vc pc) (query_cases names orc base_us initial_count)"

definition snapshot :: "('w \<times> run_state) services \<Rightarrow> VarveClient \<Rightarrow> TimescaleClient \<Rightarrow> string \<Rightarrow> ('w, unit) run" where
  "snapshot sv vc pc label =
     io_then (body_default ''runtime_snapshots'' (JList []))
     (io_bind (runtime_snapshot sv vc pc label) (\<lambda>d. body_append ''runtime_snapshots'' (JObj d)))"

definition rebuilt_preflight :: "('w \<times> run_state) services \<Rightarrow> VarveClient \<Rightarrow> ('w, json \<times> dict) run" where
  "rebuilt_preflight sv vc =
     io_bind (varve_request sv vc ''GET'' ''/v1/status'' None) (\<lambda>status.
     io_then (body_set ''actual_varve_preflight_status'' status)
     (io_then (body_set ''rebuilt_preflight'' (JObj (rebuilt_status status)))
     (io_then flush (io_return (status, rebuilt_status status)))))"

definition require_rebuilt :: "('w \<times> run_state) services \<Rightarrow> string Namespace \<Rightarrow> string \<Rightarrow> dict \<Rightarrow> ('w, unit) run" where
  "require_rebuilt sv a name measured =
     (if a_require_rebuilt a \<and> dget measured ''passed'' \<noteq> JBool True then
        io_then (phase sv name ''failed'' [(''require_rebuilt'', JBool True)])
          (io_raise (RuntimeError ''--require-rebuilt exact persisted journal/native identity check failed''))
      else io_return ())"

definition fresh_preflight :: "('w \<times> run_state) services \<Rightarrow> VarveClient \<Rightarrow> TimescaleClient \<Rightarrow> Names \<Rightarrow> string Namespace \<Rightarrow> ('w, unit) run" where
  "fresh_preflight sv vc pc names a =
     io_bind (rebuilt_preflight sv vc) (\<lambda>(status, measured).
     io_then (require_rebuilt sv a ''preflight'' measured)
     (io_bind (preflight sv vc pc names (Some status)) (\<lambda>diagnostics.
     io_bind (io_lift (dindex diagnostics ''durability'')) (\<lambda>durability.
     io_then (body_set ''matched_durability'' (JObj [
       (''varve'', JStr ''every write receipt is checked for local_fsync, rows, duplicate=false, and positive sequence''),
       (''timescale'', durability),
       (''scope'', JStr ''single-node local durable acknowledgement; no replicated durability claim'')]))
     (io_then (body_set ''database_versions'' (JObj diagnostics))
     (io_then flush
     (phase sv ''preflight'' ''passed'' [(''require_rebuilt'', JBool (a_require_rebuilt a))])))))))"

definition fresh_setup :: "('w \<times> run_state) services \<Rightarrow> VarveClient \<Rightarrow> TimescaleClient \<Rightarrow> Names \<Rightarrow> ('w, unit) run" where
  "fresh_setup sv vc pc names =
     io_then (setup_varve sv vc names)
     (io_bind (setup_timescale sv pc names) (\<lambda>commands.
     io_then (body_set ''timescale_setup_commands'' (JList (map JStr commands)))
     (io_then (snapshot sv vc pc ''after_isolated_setup'')
     (phase sv ''isolated_setup'' ''passed'' []))))"

definition manifest_json :: "string Namespace \<Rightarrow> int \<Rightarrow> dict" where
  "manifest_json a base_us = [
     (''seed'', JInt DATASET_SEED), (''base_timestamp_us'', JInt base_us), (''initial_rows'', JInt (a_rows a)),
     (''series'', JInt 1024), (''tenants'', JInt 4), (''value_rule'', JStr ''((i * 17) % 10000) / 4''),
     (''timestamp_rule'', JStr ''base + (i//1024)*1 second + (i%1024) microseconds''),
     (''tags'', JObj []), (''aggregate_width_us'', JInt BUCKET_US)]"

definition prepare_oracle :: "('w \<times> run_state) host \<Rightarrow> string Namespace \<Rightarrow> int \<Rightarrow> Deadline \<Rightarrow> ('w, Oracle) run" where
  "prepare_oracle ho a base_us deadline =
     io_bind (ho_oracle ho) (\<lambda>(cancelled, now). io_lift (build_oracle base_us deadline cancelled now (nat (a_rows a))))"

definition fresh_oracle :: "('w \<times> run_state) host \<Rightarrow> string Namespace \<Rightarrow> Deadline \<Rightarrow> ('w, int \<times> Oracle) run" where
  "fresh_oracle ho a deadline =
     io_bind (ho_time ho) (\<lambda>t.
     let base_us = aligned_base_us \<lfloor>fl (t * 1000000)\<rfloor> in
     io_bind (prepare_oracle ho a base_us deadline) (\<lambda>orc.
     io_then (body_set ''manifest'' (JObj (manifest_json a base_us)))
     (io_then (body_set ''oracles'' (JObj (oracle_snapshot orc)))
     (io_then flush (io_return (base_us, orc))))))"

text \<open>\<^verbatim>\<open>int(sha256(run_id).hexdigest(), 16) % 2 == 0\<close> decides which server is loaded first.\<close>

definition hex_int :: "string \<Rightarrow> int" where
  "hex_int s = foldl (\<lambda>n c. 16 * n + int (hex_value c)) 0 s"

definition ingest_order :: "string \<Rightarrow> string list" where
  "ingest_order run_id = (if hex_int (sha256_hex run_id) mod 2 = 0 then [''varve'', ''timescale''] else [''timescale'', ''varve''])"

text \<open>\<^verbatim>\<open>ingest[backend] = d\<close>, seen through the body once the dictionary is shared with it.\<close>

definition ingest_put :: "string \<Rightarrow> dict \<Rightarrow> ('w, unit) run" where
  "ingest_put backend d = io_modify (\<lambda>s.
     let shared = dset (rs_ingest s) backend (JObj d); s1 = s\<lparr>rs_ingest := shared\<rparr> in
     if map_of (rs_body s) ''initial_ingest'' = None then s1
     else set_body (dset (rs_body s) ''initial_ingest'' (JObj shared)) s1)"

definition ingest_share :: "('w, unit) run" where
  "ingest_share = io_modify (\<lambda>s. set_body (dset (rs_body s) ''initial_ingest'' (JObj (rs_ingest s))) s)"

text \<open>Running the workers of one backend: the event loop picks the final state.\<close>

definition run_ingest :: "('w \<times> run_state) services \<Rightarrow> ('w \<times> run_state) host \<Rightarrow> VarveClient \<Rightarrow> TimescaleClient \<Rightarrow> Names \<Rightarrow> string Namespace \<Rightarrow> int \<Rightarrow> Deadline \<Rightarrow> string \<Rightarrow> ('w, (string \<times> dict) + dict) run" where
  "run_ingest sv ho vc pc names a base_us deadline backend = (\<lambda>w.
     if backend = ''varve'' then
       (case ho_ingest ho (varve_submit sv vc names (a_run_id a) base_us) (a_rows a) (a_batch a) (nat (a_writers a)) w of
          (s, elapsed, described) \<Rightarrow> (ingest_varve (a_rows a) elapsed described s, ig_world s))
     else
       (case ho_ingest ho (timescale_submit sv pc names (a_run_id a) base_us deadline) (a_rows a) (a_batch a) (nat (a_writers a)) w of
          (s, elapsed, described) \<Rightarrow> (ingest_timescale (a_rows a) elapsed described s, ig_world s)))"

definition ingest_backend :: "('w \<times> run_state) services \<Rightarrow> ('w \<times> run_state) host \<Rightarrow> VarveClient \<Rightarrow> TimescaleClient \<Rightarrow> Names \<Rightarrow> string Namespace \<Rightarrow> int \<Rightarrow> Deadline \<Rightarrow> string \<Rightarrow> ('w, unit) run" where
  "ingest_backend sv ho vc pc names a base_us deadline backend =
     io_bind (sv_now sv) (\<lambda>freshness_started.
     io_bind (run_ingest sv ho vc pc names a base_us deadline backend) (\<lambda>outcome.
     case outcome of
       Inl (message, partial) \<Rightarrow>
         io_then (ingest_put backend partial) (io_then ingest_share (io_then flush (io_raise (ExternalError ''IngestError'' message))))
     | Inr result \<Rightarrow>
         io_then (ingest_put backend result)
         (io_bind
           (if backend = ''timescale'' then
              io_bind (analyze_timescale sv pc names) (\<lambda>analyze.
              let r1 = dset result ''analyze_seconds'' (JFloat (Fin analyze)) in
              io_then (ingest_put backend r1)
              (io_bind (refresh_timescale sv pc names) (\<lambda>refresh.
               let r2 = dset r1 ''aggregate_refresh_seconds'' (JFloat (Fin refresh)) in
               io_then (ingest_put backend r2) (io_return r2))))
            else io_return result) (\<lambda>r.
         io_bind (sv_now sv) (\<lambda>now.
         io_then (ingest_put backend
           (dset (dset r ''time_to_durable_data_plus_fresh_aggregate_seconds'' (JFloat (Fin (fl (now - freshness_started)))))
             ''freshness_timing_scope''
             (JStr ''elapsed ingestion plus immediate maintenance barrier; includes ANALYZE for Timescale'')))
         (io_then ingest_share flush))))))"

definition fresh_ingest :: "('w \<times> run_state) services \<Rightarrow> ('w \<times> run_state) host \<Rightarrow> VarveClient \<Rightarrow> TimescaleClient \<Rightarrow> Names \<Rightarrow> string Namespace \<Rightarrow> int \<Rightarrow> Deadline \<Rightarrow> string list \<Rightarrow> ('w, unit) run" where
  "fresh_ingest sv ho vc pc names a base_us deadline order =
     io_then (body_set ''initial_ingest_order'' (JList (map JStr order)))
     (io_then (body_set ''query_backend_order'' (JList (map JStr (rev order))))
     (io_then (io_iter (ingest_backend sv ho vc pc names a base_us deadline) order)
     (io_then (snapshot sv vc pc ''after_initial_drain'')
     (phase sv ''initial_durable_ingest_and_freshness_barrier'' ''passed'' [(''order'', JList (map JStr order))]))))"

definition tier_state :: "json \<Rightarrow> json result" where
  "tier_state status = (case status of
     JObj d \<Rightarrow> Inr (JObj [
       (''varve'', JObj (map (\<lambda>k. (k, dget d k)) [''hot_rows'', ''segments'', ''sequence'', ''checkpoint_sequence''])),
       (''timescale'', JStr ''rowstore before explicit conversion''),
       (''claim'', JStr ''Varve default automatic tiering, not a hot-only or cold-cache benchmark'')])
   | _ \<Rightarrow> Inl (AttributeError ''get''))"

text \<open>\<^verbatim>\<open>run_query_suite\<close> with the report: it enters its output under the stage before every flush.\<close>

definition staged_flush :: "string \<Rightarrow> dict \<Rightarrow> ('w, unit) run" where
  "staged_flush stage output =
     io_then (body_default ''query_stages'' (JObj [])) (io_then (body_in ''query_stages'' stage (JObj output)) flush)"

definition query_stage :: "('w \<times> run_state) services \<Rightarrow> VarveClient \<Rightarrow> TimescaleClient \<Rightarrow> QueryCase list \<Rightarrow> nat \<Rightarrow> string \<Rightarrow> string list \<Rightarrow> (pyerror \<Rightarrow> string) \<Rightarrow> ('w, unit) run" where
  "query_stage sv vc pc cases n stage query_order describe_error =
     io_bind (run_query_suite sv vc pc cases n (staged_flush stage) query_order describe_error) (\<lambda>output.
     io_then (body_default ''query_stages'' (JObj [])) (body_in ''query_stages'' stage (JObj output)))"

definition fresh_queries :: "('w \<times> run_state) services \<Rightarrow> VarveClient \<Rightarrow> TimescaleClient \<Rightarrow> Names \<Rightarrow> string Namespace \<Rightarrow> int \<Rightarrow> Oracle \<Rightarrow> string list \<Rightarrow> (pyerror list \<Rightarrow> string) \<Rightarrow> ('w, unit) run" where
  "fresh_queries sv vc pc names a base_us orc query_order describe_error =
     io_then (verify_all sv vc pc names orc base_us (a_rows a))
     (io_bind (varve_request sv vc ''GET'' ''/v1/status'' None) (\<lambda>status.
     io_bind (io_lift (tier_state status)) (\<lambda>tiers.
     io_then (body_set ''initial_tier_state'' tiers)
     (io_then (query_stage sv vc pc (query_cases names orc base_us (a_rows a)) (nat (a_query_samples a)) ''default_tiers'' query_order
        (\<lambda>e. describe_error [e]))
     (phase sv ''default_tiers_queries'' ''passed'' [])))))"

definition fresh_conversion :: "('w \<times> run_state) services \<Rightarrow> VarveClient \<Rightarrow> TimescaleClient \<Rightarrow> Names \<Rightarrow> string Namespace \<Rightarrow> int \<Rightarrow> Oracle \<Rightarrow> string list \<Rightarrow> (pyerror list \<Rightarrow> string) \<Rightarrow> ('w, unit) run" where
  "fresh_conversion sv vc pc names a base_us orc query_order describe_error =
     io_bind (checkpoint_varve sv vc names) (\<lambda>checkpoint.
     io_then (body_set ''varve_checkpoint_compaction'' (JObj checkpoint))
     (io_bind (convert_timescale sv pc names) (\<lambda>conversion.
     io_then (body_set ''timescale_columnar_conversion'' (JObj conversion))
     (io_bind (io_lift (dindex conversion ''status'')) (\<lambda>status.
     io_then (phase sv ''tier_transition'' (py_str status) [])
     (if status = JStr ''converted'' then
        io_then (analyze_timescale sv pc names)
        (io_then (verify_all sv vc pc names orc base_us (a_rows a))
        (io_then (query_stage sv vc pc (query_cases names orc base_us (a_rows a)) (nat (a_query_samples a)) ''columnar_checkpointed''
           query_order (\<lambda>e. describe_error [e]))
        (phase sv ''columnar_checkpointed_queries'' ''passed'' [])))
      else
        io_then (body_default ''query_stages'' (JObj []))
        (io_then (body_in ''query_stages'' ''columnar_checkpointed'' (JObj [
           (''state'', JStr ''not_run''), (''reason'', JStr (''Timescale conversion '' @ py_str status))]))
        (io_then (body_set ''unsupported_capabilities'' (JList [JStr (''Timescale columnar conversion '' @ py_str status)]))
        (phase sv ''columnar_checkpointed_queries'' ''not_run'' [])))))))))"

text \<open>The counts of the mixed workload are copied to the manifest in both outcomes.\<close>

definition mixed_keys :: "(string \<times> string) list" where
  "mixed_keys = [
     (''mixed_paired_acknowledged_rows'', ''acknowledged_rows''),
     (''mixed_varve_acknowledged_rows'', ''varve_acknowledged_rows''),
     (''mixed_timescale_acknowledged_rows'', ''timescale_acknowledged_rows''),
     (''mixed_failed_or_ambiguous_rows'', ''failed_or_ambiguous_rows''),
     (''mixed_pending_rows'', ''pending_rows'')]"

definition record_mixed :: "dict \<Rightarrow> Oracle \<Rightarrow> ('w, unit) run" where
  "record_mixed result orc =
     io_then (io_iter (\<lambda>(k, j). io_bind (io_lift (dindex result j)) (body_in ''manifest'' k)) mixed_keys)
     (io_then (body_in ''manifest'' ''total_reconciled_watermark_rows'' (JInt (st_count (all_stats orc))))
     (body_set ''oracles'' (JObj (oracle_snapshot orc))))"

definition overloaded_json :: "dict \<Rightarrow> dict" where
  "overloaded_json mixed =
     (''reason'', JStr ''finite intended arrivals missed the strict bounded scheduling gate'') #
     map (\<lambda>k. (k, dget mixed k)) [''data_complete'', ''schedule_met'', ''never_submitted_rows'', ''pending_rows'']"

definition fresh_mixed :: "('w \<times> run_state) services \<Rightarrow> ('w \<times> run_state) host \<Rightarrow> VarveClient \<Rightarrow> TimescaleClient \<Rightarrow> Names \<Rightarrow> string Namespace \<Rightarrow> int \<Rightarrow> Oracle \<Rightarrow> Deadline \<Rightarrow> (pyerror list \<Rightarrow> string) \<Rightarrow> ('w, Oracle) run" where
  "fresh_mixed sv ho vc pc names a base_us orc deadline describe_error =
     io_then (snapshot sv vc pc ''before_mixed_arrivals'')
     (io_then flush (\<lambda>w.
      let job = mixed_job sv vc pc names a base_us (all_stats orc) deadline describe_error in
      case ho_mixed ho job orc w of
        (s, elapsed) \<Rightarrow>
          (case mixed_workload a job elapsed s of
             Inl e \<Rightarrow> (Inl e, mx_world s)
           | Inr (Inl (message, partial)) \<Rightarrow>
               io_then (body_set ''mixed_workload'' (JObj partial))
               (io_then (record_mixed partial (mx_oracle s))
               (io_then flush (io_raise (ExternalError ''MixedWorkloadError'' message)))) (mx_world s)
           | Inr (Inr mixed) \<Rightarrow>
               io_then (body_set ''mixed_workload'' (JObj mixed))
               (io_then (if dget mixed ''clean'' = JBool True then io_return () else body_set ''overloaded'' (JObj (overloaded_json mixed)))
               (io_then (record_mixed mixed (mx_oracle s))
               (io_then (snapshot sv vc pc ''after_mixed_full_drain'')
               (io_then flush (io_return (mx_oracle s)))))) (mx_world s))))"

definition fresh_final :: "('w \<times> run_state) services \<Rightarrow> VarveClient \<Rightarrow> TimescaleClient \<Rightarrow> Names \<Rightarrow> string Namespace \<Rightarrow> int \<Rightarrow> Oracle \<Rightarrow> Deadline \<Rightarrow> ('w, unit) run" where
  "fresh_final sv vc pc names a base_us orc deadline =
     io_bind (refresh_timescale sv pc names) (\<lambda>mixed_refresh.
     io_bind (checkpoint_varve sv vc names) (\<lambda>mixed_checkpoint.
     io_then (body_set ''mixed_freshness_barrier'' (JObj [
       (''timescale_explicit_refresh_seconds'', JFloat (Fin mixed_refresh)), (''varve_eager_aggregate'', JBool True),
       (''varve_checkpoint'', JObj mixed_checkpoint), (''same_reconciled_watermark_rows'', JInt (st_count (all_stats orc)))]))
     (io_then (analyze_timescale sv pc names)
     (io_bind (stable_retry_drill sv vc pc names (a_run_id a) base_us (a_rows a) (a_batch a) deadline True) (\<lambda>drill.
     io_then (body_set ''stable_id_retry_drill'' (JObj drill))
     (io_then (verify_all sv vc pc names orc base_us (a_rows a))
     (io_bind (io_lift (dindex drill ''fingerprints_after'')) (\<lambda>fingerprints.
     io_then (body_set ''final_raw_fingerprints'' fingerprints)
     (io_then (snapshot sv vc pc ''after_final_verification'')
     (phase sv ''mixed_barrier_retry_drills_and_final_correctness'' ''passed'' []))))))))))"

definition run_fresh :: "'w services \<Rightarrow> ('w \<times> run_state) host \<Rightarrow> string Namespace \<Rightarrow> credentials \<Rightarrow> Deadline \<Rightarrow> ('w, unit) run" where
  "run_fresh services ho a credentials deadline =
     (let sv = beside services; describe_error = clean_error credentials in
      io_bind (io_lift (names_for (a_run_id a))) (\<lambda>names.
      io_then (body_set ''namespaces'' (JObj (names_json names)))
      (io_then flush
      (let vc = new_varve_client (cred credentials ''VARVE_URL'') deadline in
       with_client sv (new_timescale_client credentials deadline) (nat (a_writers a)) (\<lambda>pc.
         io_then (fresh_preflight sv vc pc names a)
         (io_then (fresh_setup sv vc pc names)
         (io_bind (fresh_oracle ho a deadline) (\<lambda>(base_us, orc).
          let order = ingest_order (a_run_id a) in
          io_then (fresh_ingest sv ho vc pc names a base_us deadline order)
          (io_then (fresh_queries sv vc pc names a base_us orc (rev order) describe_error)
          (io_then (fresh_conversion sv vc pc names a base_us orc (rev order) describe_error)
          (io_bind (fresh_mixed sv ho vc pc names a base_us orc deadline describe_error) (\<lambda>orc'.
          fresh_final sv vc pc names a base_us orc' deadline))))))))))))"

section \<open>Verification after a restart\<close>

text \<open>\<^verbatim>\<open>Names(**raw)\<close>: the keys must be the fields, the values are checked to be identifiers.\<close>

definition text_of :: "json \<Rightarrow> string result" where
  "text_of v = (case v of JStr s \<Rightarrow> Inr s | _ \<Rightarrow> Inl (TypeError ''expected string or bytes-like object''))"

definition names_fields :: "string list" where
  "names_fields = [''varve_table'', ''varve_aggregate'', ''checkpoint_job'', ''compact_job'', ''pg_schema'', ''pg_table'',
     ''pg_receipts'', ''pg_aggregate'']"

definition names_keys :: "dict \<Rightarrow> bool" where
  "names_keys d \<longleftrightarrow> set (map fst d) = set names_fields"

definition names_of :: "string list \<Rightarrow> Names result" where
  "names_of texts = (case texts of
     [t, a, cj, mj, s, m, r, g] \<Rightarrow> Inr \<lparr>varve_table = t, varve_aggregate = a, checkpoint_job = cj, compact_job = mj,
       pg_schema = s, pg_table = m, pg_receipts = r, pg_aggregate = g\<rparr>
   | _ \<Rightarrow> Inl (TypeError ''Names.__init__() missing arguments''))"

definition checked_fields :: "dict \<Rightarrow> Names result" where
  "checked_fields d = ebind (emap (\<lambda>k. ebind (text_of (dget d k)) checked_identifier) names_fields) names_of"

definition checked_names :: "json \<Rightarrow> Names result" where
  "checked_names v = (case v of
     JObj d \<Rightarrow> if names_keys d then checked_fields d else Inl (TypeError ''Names.__init__() got unexpected or missing arguments'')
   | _ \<Rightarrow> Inl (TypeError ''argument after ** must be a mapping''))"

definition load_report :: "string \<Rightarrow> json result" where
  "load_report content = (case loads content of Inl _ \<Rightarrow> Inl (ValueError ''JSONDecodeError'') | Inr v \<Rightarrow> Inr v)"

text \<open>What is taken from the source report before anything is asked of the servers.\<close>

definition verify_expectation :: "json \<Rightarrow> (Names \<times> Stats) result" where
  "verify_expectation source =
     ebind (ebind (field source ''namespaces'') checked_names) (\<lambda>names.
     ebind (field source ''oracles'') (\<lambda>oracles.
     ebind (field oracles ''global'') (\<lambda>global.
     ebind (case global of JObj d \<Rightarrow> expected_stats d | _ \<Rightarrow> Inl (TypeError ''not subscriptable'')) (\<lambda>expected.
     Inr (names, expected)))))"

definition source_bounds :: "json \<Rightarrow> (string \<times> int \<times> int \<times> json) result" where
  "source_bounds source =
     ebind (field source ''configuration'') (\<lambda>configuration.
     ebind (field source ''manifest'') (\<lambda>manifest.
     ebind (ebind (field source ''run_id'') (\<lambda>v. checked_run_id (py_str v))) (\<lambda>run_id.
     ebind (ebind (field manifest ''initial_rows'') py_to_int) (\<lambda>initial.
     ebind (ebind (field configuration ''batch'') py_to_int) (\<lambda>bsize.
     ebind (guard (1 \<le> initial \<and> initial \<le> 1000000) (RuntimeError ''source report initial row bound is invalid'')) (\<lambda>_.
     ebind (guard (1 \<le> bsize \<and> bsize \<le> min 10000 initial) (RuntimeError ''source report initial batch bound is invalid'')) (\<lambda>_.
     Inr (run_id, initial, bsize, manifest))))))))"

definition rollup_varve_sql :: "Names \<Rightarrow> string" where
  "rollup_varve_sql names = ''SELECT CAST(sum(count) AS BIGINT) AS n, sum(sum) AS total, min(min) AS min, max(max) AS max FROM '' @ varve_aggregate names"

definition rollup_pg_stmt :: "Names \<Rightarrow> statement" where
  "rollup_pg_stmt names = [Sql (''SELECT sum(count)::bigint AS n, sum(sum)::double precision AS total, '' @
     ''min(min)::double precision AS min, max(max)::double precision AS max FROM ''), qualified_name (pg_schema names) (pg_aggregate names)]"

definition check_summary :: "Stats \<Rightarrow> string \<times> json list \<Rightarrow> unit result" where
  "check_summary expected = (\<lambda>(label, rows). case rows of
     [row] \<Rightarrow> assert_stats row expected label
   | _ \<Rightarrow> Inl (RuntimeError (label @ '' returned an unexpected row count'')))"

definition restart_summaries :: "'w services \<Rightarrow> VarveClient \<Rightarrow> TimescaleClient \<Rightarrow> Names \<Rightarrow> Stats \<Rightarrow> ('w, unit) io" where
  "restart_summaries sv vc pc names expected =
     io_bind (varve_sql sv vc (''SELECT '' @ raw_projection @ '' FROM '' @ varve_table names)) (\<lambda>varve_raw.
     io_bind (varve_sql sv vc (rollup_varve_sql names)) (\<lambda>varve_rollup.
     io_bind (pg_query sv pc [Sql (''SELECT '' @ pg_projection @ '' FROM ''), qualified_name (pg_schema names) (pg_table names)] []) (\<lambda>pg_raw.
     io_bind (pg_query sv pc (rollup_pg_stmt names) []) (\<lambda>pg_rollup.
     io_lift (eiter (check_summary expected) [(''Varve raw'', varve_raw), (''Varve aggregate'', varve_rollup),
       (''Timescale raw'', pg_raw), (''Timescale continuous aggregate'', pg_rollup)])))))"

definition restart_retry :: "('w \<times> run_state) services \<Rightarrow> VarveClient \<Rightarrow> TimescaleClient \<Rightarrow> Names \<Rightarrow> json \<Rightarrow> Deadline \<Rightarrow> ('w, unit) run" where
  "restart_retry sv vc pc names source deadline =
     io_bind (io_lift (field source ''final_raw_fingerprints'')) (\<lambda>expected_fingerprints.
     io_bind (raw_fingerprints sv vc pc names) (\<lambda>observed_before.
     if \<not> py_eq (JObj observed_before) expected_fingerprints
     then io_raise (RuntimeError ''restart raw fingerprint or database identity differs from source report'')
     else
     io_bind (io_lift (source_bounds source)) (\<lambda>(run_id, initial, bsize, manifest).
     io_bind (io_lift (ebind (field manifest ''base_timestamp_us'') py_to_int)) (\<lambda>base_us.
     io_bind (stable_retry_drill sv vc pc names run_id base_us initial bsize deadline False) (\<lambda>retry.
     io_bind (io_lift (dindex retry ''fingerprints_before'')) (\<lambda>before.
     if \<not> py_eq before expected_fingerprints then io_raise (RuntimeError ''restart fingerprint changed before identical retry'')
     else
     io_then (body_set ''restart_identical_retry_drill'' (JObj retry))
     (io_bind (io_lift (dindex retry ''fingerprints_after'')) (body_set ''restart_raw_fingerprints''))))))))"

definition restart_checks :: json where
  "restart_checks = JList (map JStr [
     ''Varve raw count/sum/min/max'', ''Varve eager aggregate count/sum/min/max'',
     ''Timescale raw count/sum/min/max'', ''Timescale retained fresh continuous aggregate count/sum/min/max'',
     ''exact timestamp moments and both database identities unchanged across restart'',
     ''stable-ID identical retry remained duplicate on both backends without raw change''])"

text \<open>\<open>content\<close> is the text of the source report and \<open>resolved\<close> its absolute path.\<close>

definition run_verify_only :: "'w services \<Rightarrow> string Namespace \<Rightarrow> credentials \<Rightarrow> Deadline \<Rightarrow> string result \<Rightarrow> string \<Rightarrow> ('w, unit) run" where
  "run_verify_only services a credentials deadline content resolved =
     (let sv = beside services; vc = new_varve_client (cred credentials ''VARVE_URL'') deadline in
      io_bind (io_lift (ebind content load_report)) (\<lambda>source.
      io_bind (io_lift (verify_expectation source)) (\<lambda>(names, expected).
      with_client sv (new_timescale_client credentials deadline) 1 (\<lambda>pc.
        io_bind (rebuilt_preflight sv vc) (\<lambda>(status, rebuilt).
        io_then (snapshot sv vc pc ''restart_before_retry'')
        (io_then flush
        (io_then (require_rebuilt sv a ''restart_preflight'' rebuilt)
        (io_then (phase sv ''restart_preflight'' ''passed'' [(''require_rebuilt'', JBool (a_require_rebuilt a))])
        (io_then (restart_retry sv vc pc names source deadline)
        (io_then (restart_summaries sv vc pc names expected)
        (io_then (snapshot sv vc pc ''restart_after_identical_retry'')
        (io_then (body_set ''source_report'' (JStr resolved))
        (io_then (body_set ''expected_watermark_rows'' (JInt (st_count expected)))
        (io_then (body_set ''checks'' restart_checks)
        (phase sv ''restart_verify_only'' ''passed'' [])))))))))))))))"

section \<open>main\<close>

text \<open>
  What the process gives to \<^verbatim>\<open>main\<close>: the file system as the arguments see it, the random id, the
  environment, the driver's own files, the platform, \<^verbatim>\<open>getrusage\<close>, and the source report.
\<close>

record 'w process =
  pr_exists :: "string \<Rightarrow> bool"
  pr_is_file :: "string \<Rightarrow> bool"
  pr_hex :: string
  pr_environ :: "string \<Rightarrow> string option"
  pr_bracket_ok :: "string \<Rightarrow> bool"
  pr_bytes :: "string \<Rightarrow> nat list option"
  pr_platform :: dict
  pr_usage :: "('w, rat \<times> rat) io"
  pr_report :: "string result"
  pr_resolved :: string

definition async_main :: "'w services \<Rightarrow> ('w \<times> run_state) host \<Rightarrow> 'w process \<Rightarrow> string Namespace \<Rightarrow> credentials \<Rightarrow> ('w, unit) run" where
  "async_main services ho pr a credentials =
     io_bind (io_on (sv_now services)) (\<lambda>now.
     io_bind (io_lift (new_deadline (of_int (a_max_seconds a)) now)) (\<lambda>deadline.
     if a_verify_only a \<noteq> None then run_verify_only services a credentials deadline (pr_report pr) (pr_resolved pr)
     else run_fresh services ho a credentials deadline))"

definition number_field :: "dict \<Rightarrow> string \<Rightarrow> rat result" where
  "number_field d k = ebind (ebind (dindex d k) py_to_float) (\<lambda>f. case f of
     Fin x \<Rightarrow> Inr x | _ \<Rightarrow> Inl (ValueError ''not a finite number''))"

definition generator_start :: "dict \<Rightarrow> (dict \<times> dict) result" where
  "generator_start body =
     ebind (dindex body ''generator'') (\<lambda>generator. case generator of
       JObj g \<Rightarrow> ebind (dindex g ''cpu_start'') (\<lambda>start. case start of JObj st \<Rightarrow> Inr (g, st) | _ \<Rightarrow> Inl (AssertionError []))
     | _ \<Rightarrow> Inl (AssertionError []))"

definition cpu_delta :: "dict \<Rightarrow> rat \<times> rat \<Rightarrow> dict result" where
  "cpu_delta start usage =
     ebind (number_field start ''user_seconds'') (\<lambda>user.
     ebind (number_field start ''system_seconds'') (\<lambda>system.
     Inr [(''user_seconds'', JFloat (Fin (fl (fst usage - user)))), (''system_seconds'', JFloat (Fin (fl (snd usage - system))))]))"

definition finish_generator_metrics :: "'w process \<Rightarrow> ('w, unit) run" where
  "finish_generator_metrics pr =
     io_bind io_get (\<lambda>s.
     io_bind (io_lift (generator_start (rs_body s))) (\<lambda>(generator, start).
     io_bind (io_on (pr_usage pr)) (\<lambda>usage.
     let ended = dset generator ''cpu_end'' (JObj (cpu_snapshot usage)) in
     io_then (body_set ''generator'' (JObj ended))
     (io_bind (io_lift (cpu_delta start usage)) (\<lambda>delta. body_set ''generator'' (JObj (dset ended ''cpu_delta'' (JObj delta))))))))"

definition print_event :: "'w services \<Rightarrow> string \<Rightarrow> dict \<Rightarrow> ('w, unit) run" where
  "print_event services event kvs =
     io_bind (io_on (sv_utc services)) (\<lambda>utc.
     io_bind (io_lift (emit utc event kvs)) (\<lambda>line. io_modify (\<lambda>s. s\<lparr>rs_lines := rs_lines s @ [line]\<rparr>)))"

text \<open>The last entries of the body, the last flush, and the exit code.\<close>

definition finish :: "'w services \<Rightarrow> 'w process \<Rightarrow> string Namespace \<Rightarrow> string \<Rightarrow> string option \<Rightarrow> int \<Rightarrow> ('w, int) run" where
  "finish services pr a state failure code =
     io_then (body_set ''state'' (JStr state))
     (io_bind (io_on (sv_utc services)) (\<lambda>utc.
     io_then (body_set ''finished_at'' (JStr utc))
     (io_then (case failure of None \<Rightarrow> io_return () | Some clean \<Rightarrow> body_set ''failure'' (JStr clean))
     (io_then (finish_generator_metrics pr)
     (io_then flush
     (io_then (print_event services ''final'' ([(''state'', JStr state), (''output'', JStr (a_output a))] @
        (case failure of None \<Rightarrow> [] | Some clean \<Rightarrow> [(''error'', JStr clean)])))
     (io_return code)))))))"

definition terminal_state :: "dict \<Rightarrow> string" where
  "terminal_state body =
     (if truthy (dget body ''unsupported_capabilities'') then ''partial_unsupported''
      else if truthy (dget body ''overloaded'') then ''overloaded'' else ''passed'')"

definition finish_run :: "'w services \<Rightarrow> 'w process \<Rightarrow> string Namespace \<Rightarrow> ('w, int) run" where
  "finish_run services pr a =
     io_bind io_get (\<lambda>s.
     let state = terminal_state (rs_body s) in
     finish services pr a state None (if state = ''passed'' then 0 else 1))"

definition report_failure :: "'w services \<Rightarrow> 'w process \<Rightarrow> string Namespace \<Rightarrow> credentials \<Rightarrow> pyerror \<Rightarrow> ('w, int) run" where
  "report_failure services pr a credentials e =
     (let clean = (if credentials \<noteq> [] then clean_error credentials [e] else error_class e @ '': '' @ error_text e) in
      finish services pr a ''failed'' (Some clean) 1)"

text \<open>\<^verbatim>\<open>asyncio.wait_for\<close>: a cancellation at the time limit becomes a \<^verbatim>\<open>TimeoutError\<close>.\<close>

definition wait_for :: "('w, 'a) io \<Rightarrow> ('w, 'a) io" where
  "wait_for m = io_catch m (\<lambda>e. io_raise (if e = Cancelled then TimeoutError [] else e))"

definition guarded_run :: "'w services \<Rightarrow> ('w \<times> run_state) host \<Rightarrow> 'w process \<Rightarrow> string Namespace \<Rightarrow> ('w, int) run" where
  "guarded_run services ho pr a =
     io_then flush
     (case load_credentials (pr_bracket_ok pr) (pr_environ pr) of
        Inl e \<Rightarrow> report_failure services pr a [] e
      | Inr credentials \<Rightarrow>
          io_catch (io_then (wait_for (async_main services ho pr a credentials)) (finish_run services pr a))
            (report_failure services pr a credentials))"

definition open_report :: "'w services \<Rightarrow> 'w process \<Rightarrow> string Namespace \<Rightarrow> ('w, Report) io" where
  "open_report services pr a =
     io_bind (sv_utc services) (\<lambda>utc.
     io_bind (io_lift (artifact_metadata (pr_bytes pr))) (\<lambda>artifact.
     io_bind (pr_usage pr) (\<lambda>usage.
     io_bind (sv_now services) (\<lambda>now.
     io_return (new_report (a_output a) (base_report a utc artifact (pr_platform pr) (cpu_snapshot usage)) now)))))"

definition new_run :: "Report \<Rightarrow> run_state" where
  "new_run rp = \<lparr>rs_report = rp, rs_ops = [], rs_lines = [], rs_ingest = []\<rparr>"

text \<open>The exit code, and the state of the report if there is one.\<close>

definition driver_main :: "'w services \<Rightarrow> ('w \<times> run_state) host \<Rightarrow> 'w process \<Rightarrow> string list \<Rightarrow> 'w \<Rightarrow> int result \<times> 'w \<times> run_state option" where
  "driver_main services ho pr argv w =
     (case arguments (pr_exists pr) (pr_is_file pr) (pr_hex pr) argv of
        Inl e \<Rightarrow> (Inl e, w, None)
      | Inr a \<Rightarrow>
          (case open_report services pr a w of
             (Inl e, w1) \<Rightarrow> (Inl e, w1, None)
           | (Inr rp, w1) \<Rightarrow>
               (case guarded_run services ho pr a (w1, new_run rp) of (r, (w2, s)) \<Rightarrow> (r, w2, Some s))))"

section \<open>The exit code is what the report says\<close>

lemma body_set_run: "body_set k v (w, s) = (Inr (), (w, set_body (dset (rs_body s) k v) s))"
  by (simp add: body_set_def)

lemma io_then_body_set: "io_then (body_set k v) n (w, s) = n (w, set_body (dset (rs_body s) k v) s)"
  by (simp add: io_then_def io_bind_def body_set_run)

lemma io_then_return: "io_then (io_return x) n = n"
  by (simp add: io_then_def)

lemma io_bind_onE:
  assumes "io_bind (io_on m) f (w, s) = (Inr y, z)"
  obtains x w1 where "m w = (Inr x, w1)" "f x (w1, s) = (Inr y, z)"
  using assms by (auto simp: io_bind_Inr_iff split: prod.splits)

lemma set_body_simps [simp]:
  "rs_body (set_body b s) = b" "rp_path (rs_report (set_body b s)) = rp_path (rs_report s)" "rs_ops (set_body b s) = rs_ops s"
  by (simp_all add: set_body_def)

lemma flush_Inr:
  assumes "flush (w, s) = (Inr u, z)"
  shows "z = (w, s\<lparr>rs_ops := rs_ops s @ [Write (rp_path (rs_report s) @ ''.tmp'') (report_text (rs_body s)),
    Rename (rp_path (rs_report s) @ ''.tmp'') (rp_path (rs_report s))]\<rparr>)"
  using assms by (auto simp: flush_def report_flush_def Let_def split: if_splits)

definition on_disk :: "run_state \<Rightarrow> bool" where
  "on_disk s \<longleftrightarrow> (\<forall>fs. run_ops fs (rs_ops s) (rp_path (rs_report s)) = Some (report_text (rs_body s)))"

lemma on_disk_flush:
  assumes "flush (w, s) = (Inr u, (w', s'))"
  shows "on_disk s' \<and> rs_body s' = rs_body s"
  using flush_Inr [OF assms] by (simp add: on_disk_def run_ops_def)

definition failure_set :: "string option \<Rightarrow> run_state \<Rightarrow> run_state" where
  "failure_set failure s = (case failure of None \<Rightarrow> s | Some clean \<Rightarrow> set_body (dset (rs_body s) ''failure'' (JStr clean)) s)"

lemma io_then_failure:
  "io_then (case failure of None \<Rightarrow> io_return () | Some clean \<Rightarrow> body_set ''failure'' (JStr clean)) n (w, s) = n (w, failure_set failure s)"
  by (cases failure) (simp_all add: failure_set_def io_then_return io_then_body_set)

lemma finish_Inr:
  assumes "finish services pr a state failure code (w, s) = (Inr c, (w', s'))"
  shows "c = code \<and> dget (rs_body s') ''state'' = JStr state \<and> on_disk s'"
proof -
  let ?final = "io_then (print_event services ''final'' ([(''state'', JStr state), (''output'', JStr (a_output a))] @
    (case failure of None \<Rightarrow> [] | Some clean \<Rightarrow> [(''error'', JStr clean)]))) (io_return code)"
  obtain w1 utc where utc: "sv_utc services w = (Inr utc, w1)"
    and rest: "io_then (case failure of None \<Rightarrow> io_return () | Some clean \<Rightarrow> body_set ''failure'' (JStr clean))
      (io_then (finish_generator_metrics pr) (io_then flush ?final))
      (w1, set_body (dset (dset (rs_body s) ''state'' (JStr state)) ''finished_at'' (JStr utc))
        (set_body (dset (rs_body s) ''state'' (JStr state)) s)) = (Inr c, (w', s'))"
    using assms unfolding finish_def io_then_body_set by (rule io_bind_onE) (simp only: io_then_body_set set_body_simps)
  obtain s1 where 1: "dget (rs_body s1) ''state'' = JStr state"
    and m: "io_then (finish_generator_metrics pr) (io_then flush ?final) (w1, s1) = (Inr c, (w', s'))"
    by (rule that [OF _ rest [unfolded io_then_failure]]) (simp add: failure_set_def split: option.split)
  from m obtain w2 s2 where 2: "finish_generator_metrics pr (w1, s1) = (Inr (), (w2, s2))" and 3: "io_then flush ?final (w2, s2) = (Inr c, (w', s'))"
    unfolding io_then_Inr_iff by auto
  have kept: "dget (rs_body s2) ''state'' = JStr state"
    using 1 2 by (auto simp: finish_generator_metrics_def io_then_Inr_iff io_bind_Inr_iff body_set_run Let_def split: prod.splits)
  obtain u w3 s3 where f: "flush (w2, s2) = (Inr u, (w3, s3))" and p: "?final (w3, s3) = (Inr c, (w', s'))"
    using 3 unfolding io_then_Inr_iff by auto
  from p have "c = code" "rs_body s' = rs_body s3" "on_disk s' = on_disk s3"
    by (auto simp: io_then_Inr_iff print_event_def io_bind_Inr_iff on_disk_def split: prod.splits)
  with on_disk_flush [OF f] kept show ?thesis by simp
qed

lemma guarded_run_Inr:
  assumes "guarded_run services ho pr a (w, s) = (Inr c, (w', s'))"
  shows "\<exists>state. dget (rs_body s') ''state'' = JStr state \<and> on_disk s' \<and> (c = 0 \<longleftrightarrow> state = ''passed'') \<and> (c = 0 \<or> c = 1)"
proof -
  obtain w1 s1 where body: "(case load_credentials (pr_bracket_ok pr) (pr_environ pr) of
        Inl e \<Rightarrow> report_failure services pr a [] e
      | Inr credentials \<Rightarrow>
          io_catch (io_then (wait_for (async_main services ho pr a credentials)) (finish_run services pr a))
            (report_failure services pr a credentials)) (w1, s1) = (Inr c, (w', s'))"
    using assms by (auto simp: guarded_run_def io_then_Inr_iff)
  have failed: ?thesis if "report_failure services pr a cr e (w2, s2) = (Inr c, (w', s'))" for cr e w2 s2
    using finish_Inr [OF that [unfolded report_failure_def Let_def]] by simp
  have ended: ?thesis if "finish_run services pr a (w2, s2) = (Inr c, (w', s'))" for w2 s2
  proof -
    have "finish services pr a (terminal_state (rs_body s2)) None (if terminal_state (rs_body s2) = ''passed'' then 0 else 1) (w2, s2) =
        (Inr c, (w', s'))"
      using that by (simp add: finish_run_def io_bind_def Let_def)
    from finish_Inr [OF this] show ?thesis by (auto split: if_splits)
  qed
  show ?thesis
  proof (cases "load_credentials (pr_bracket_ok pr) (pr_environ pr)")
    case (Inl e)
    with body failed show ?thesis by simp
  next
    case (Inr cr)
    let ?m = "io_then (wait_for (async_main services ho pr a cr)) (finish_run services pr a)"
    obtain r w2 s2 where m: "?m (w1, s1) = (r, (w2, s2))" by (metis prod.exhaust)
    show ?thesis
    proof (cases r)
      case (Inl e)
      with body Inr m failed show ?thesis by (simp add: io_catch_def)
    next
      case R: (Inr x)
      with body Inr m have "?m (w1, s1) = (Inr c, (w', s'))" by (simp add: io_catch_def)
      with ended show ?thesis by (auto simp: io_then_Inr_iff)
    qed
  qed
qed


text \<open>A process without credentials: the run fails before it opens anything.\<close>

definition bare_process :: "unit process" where
  "bare_process = \<lparr>pr_exists = \<lambda>_. False, pr_is_file = \<lambda>_. False, pr_hex = [], pr_environ = \<lambda>_. None, pr_bracket_ok = \<lambda>_. True,
     pr_bytes = \<lambda>_. Some [], pr_platform = [], pr_usage = io_return (1, 2), pr_report = Inr [], pr_resolved = []\<rparr>"

definition idle_host :: "(unit \<times> run_state) host" where
  "idle_host = \<lparr>ho_time = io_return 0, ho_oracle = io_return (\<lambda>_. False, \<lambda>_. 0),
     ho_ingest = (\<lambda>_ _ _ _ w. (ingest_start 0 w, 0, [])), ho_mixed = (\<lambda>job _ w. (mixed_start job empty_oracle w, 0))\<rparr>"

abbreviation finite_body :: "dict \<Rightarrow> bool" where
  "finite_body d \<equiv> list_all (\<lambda>kv. json_finite (snd kv)) d"

lemma finite_dset: "finite_body d \<Longrightarrow> json_finite v \<Longrightarrow> finite_body (dset d k v)"
  by (induction d k v rule: dset.induct) auto

lemma io_then_flush:
  "finite_body (rs_body s) \<Longrightarrow> io_then flush n (w, s) = n (w, s\<lparr>rs_ops := rs_ops s @
     [Write (rp_path (rs_report s) @ ''.tmp'') (report_text (rs_body s)), Rename (rp_path (rs_report s) @ ''.tmp'') (rp_path (rs_report s))]\<rparr>)"
  by (simp add: flush_def io_then_def io_bind_def report_flush_def Let_def)

lemma generator_metrics_run:
  assumes g: "dindex (rs_body s) ''generator'' = Inr (JObj g)" "dindex g ''cpu_start'' = Inr (JObj (cpu_snapshot (1, 2)))"
    and pr: "pr_usage pr = io_return (1, 2)" and fin: "finite_body g" "finite_body (rs_body s)"
  shows "\<exists>s2. finite_body (rs_body s2) \<and> io_then (finish_generator_metrics pr) n (w, s) = n (w, s2)"
proof -
  obtain delta where d: "cpu_delta (cpu_snapshot (1, 2)) (1, 2) = Inr delta" "finite_body delta"
    by (simp add: cpu_delta_def number_field_def py_to_float_def cpu_snapshot_def dindex_def)
  let ?ended = "dset g ''cpu_end'' (JObj (cpu_snapshot (1, 2)))"
  let ?s1 = "set_body (dset (rs_body s) ''generator'' (JObj ?ended)) s"
  let ?s2 = "set_body (dset (rs_body ?s1) ''generator'' (JObj (dset ?ended ''cpu_delta'' (JObj delta)))) ?s1"
  have e: "finite_body ?ended" using fin(1) by (rule finite_dset) (simp add: cpu_snapshot_def)
  have "io_then (finish_generator_metrics pr) n (w, s) =
      n (w, ?s2)"
    by (simp add: finish_generator_metrics_def generator_start_def g pr d io_then_def io_bind_def body_set_run Let_def)
  moreover have "finite_body (rs_body ?s2)"
    using e fin d(2) by (simp add: finite_dset)
  ultimately show ?thesis by (intro exI [of _ ?s2] conjI)
qed

lemma finish_run_example:
  assumes "dindex (rs_body s) ''generator'' = Inr (JObj g)" "dindex g ''cpu_start'' = Inr (JObj (cpu_snapshot (1, 2)))"
    and "finite_body g" "finite_body (rs_body s)"
  shows "\<exists>s2. finish accepting_services bare_process a state failure code ((), s) = (Inr code, ((), s2))"
proof -
  have sv: "sv_utc accepting_services = io_return []" by (simp add: accepting_services_def canned_services_def)
  let ?s1 = "failure_set failure (set_body (dset (dset (rs_body s) ''state'' (JStr state)) ''finished_at'' (JStr []))
    (set_body (dset (rs_body s) ''state'' (JStr state)) s))"
  have g: "dindex (rs_body ?s1) ''generator'' = Inr (JObj g)" "finite_body (rs_body ?s1)"
    using assms(1,4) by (cases failure; simp add: failure_set_def dindex_def map_of_dset finite_dset)+
  let ?rest = "io_then flush (io_then (print_event accepting_services ''final''
    ([(''state'', JStr state), (''output'', JStr (a_output a))] @ (case failure of None \<Rightarrow> [] | Some clean \<Rightarrow> [(''error'', JStr clean)])))
    (io_return code))"
  have run: "finish accepting_services bare_process a state failure code ((), s) =
      io_then (finish_generator_metrics bare_process) ?rest ((), ?s1)"
    unfolding finish_def io_then_body_set sv by (simp add: io_bind_def io_then_body_set io_then_failure)
  have usage: "pr_usage bare_process = io_return (1, 2)" by (simp add: bare_process_def)
  from generator_metrics_run [OF g(1) assms(2) usage assms(3) g(2), of ?rest "()"]
  obtain s2 where "finite_body (rs_body s2)" "finish accepting_services bare_process a state failure code ((), s) = ?rest ((), s2)"
    unfolding run by (elim exE conjE)
  moreover have "\<exists>s3. io_then (print_event accepting_services ''final''
      ([(''state'', JStr state), (''output'', JStr (a_output a))] @ (case failure of None \<Rightarrow> [] | Some clean \<Rightarrow> [(''error'', JStr clean)])))
      (io_return code) ((), s') = (Inr code, ((), s3))" for s'
    by (cases failure) (simp_all add: print_event_def sv emit_def dumps_def dict_update_def io_then_def io_bind_def)
  ultimately show ?thesis by (simp only: io_then_flush)
qed

lemma bare_process_run:
  "\<exists>s. driver_main accepting_services idle_host bare_process [''--batch'', ''500'', ''--run-id'', ''abc''] () = (Inr 1, (), Some s)"
proof -
  have cr: "\<exists>e. load_credentials (\<lambda>_. True) (\<lambda>_. None) = Inl e" by (simp add: load_credentials_def REQUIRED_ENV_def Let_def)
  obtain art where art: "artifact_metadata (\<lambda>_. Some []) = Inr art" "json_finite (JObj art)"
    by (simp add: artifact_metadata_def file_digest_def Let_def)
  have sv: "sv_utc accepting_services = io_return []" "sv_now accepting_services = io_return 0"
    by (simp_all add: accepting_services_def canned_services_def)
  have process: "pr_bracket_ok bare_process = (\<lambda>_. True)" "pr_environ bare_process = (\<lambda>_. None)"
      "pr_exists bare_process = (\<lambda>_. False)" "pr_is_file bare_process = (\<lambda>_. False)" "pr_hex bare_process = []" by (simp_all add: bare_process_def)
  let ?b = "base_report example_namespace [] art [] (cpu_snapshot (1, 2))"
  let ?s = "new_run (new_report ''/results/abc.json'' ?b 0)"
  have opened: "open_report accepting_services bare_process example_namespace () = (Inr (new_report ''/results/abc.json'' ?b 0), ())"
    by (simp add: open_report_def io_bind_def sv art bare_process_def)
  have fin: "finite_body ?b" using art(2)
    by (simp add: base_report_def configuration_json_def infrastructure_assumptions_def varve_benchmark_config_def attestation_json_def
        cpu_snapshot_def settled_def default_options_def)
  obtain g where g: "dindex ?b ''generator'' = Inr (JObj g)" "dindex g ''cpu_start'' = Inr (JObj (cpu_snapshot (1, 2)))" "finite_body g"
    by (simp add: base_report_def dindex_def cpu_snapshot_def)
  obtain e where e: "load_credentials (\<lambda>_. True) (\<lambda>_. None) = Inl e" using cr by blast
  have "\<exists>s. finish accepting_services bare_process example_namespace ''failed'' (Some (error_class e @ '': '' @ error_text e)) 1
      ((), ?s\<lparr>rs_ops := [Write ''/results/abc.json.tmp'' (report_text ?b), Rename ''/results/abc.json.tmp'' ''/results/abc.json'']\<rparr>) = (Inr 1, ((), s))"
    by (rule finish_run_example [OF _ g(2,3)]) (simp_all add: new_run_def new_report_def g fin)
  moreover have "guarded_run accepting_services idle_host bare_process example_namespace ((), ?s) =
      finish accepting_services bare_process example_namespace ''failed'' (Some (error_class e @ '': '' @ error_text e)) 1
      ((), ?s\<lparr>rs_ops := [Write ''/results/abc.json.tmp'' (report_text ?b), Rename ''/results/abc.json.tmp'' ''/results/abc.json'']\<rparr>)"
    using fin by (simp add: guarded_run_def io_then_flush new_run_def new_report_def process report_failure_def e)
  ultimately obtain s where run: "guarded_run accepting_services idle_host bare_process example_namespace ((), ?s) = (Inr 1, ((), s))" by (elim exE) simp
  show ?thesis unfolding driver_main_def process arguments_example sum.case opened prod.case run by (rule exI) (rule refl)
qed


end
