(* ===== verification/Exact_Source.thy ===== *)
theory Exact_Source
  imports Driver
begin

text \<open>
  The first half of the exact verifier (\<^verbatim>\<open>verify_exact.py\<close>): reading a finished benchmark report and
  accepting it only if its accounting is complete and consistent (\<^verbatim>\<open>load_source\<close>). Whether the path
  is a file, its size, its bytes and the bytes of the driver's own files are arguments.
\<close>

section \<open>Bounds and the plan\<close>

definition CLEANUP_TIMEOUT :: rat where "CLEANUP_TIMEOUT = 1"
definition PAGE_ROWS :: int where "PAGE_ROWS = 4096"
definition MAX_ROWS :: int where "MAX_ROWS = 1000000"
definition MAX_AGGREGATE_GROUPS :: int where "MAX_AGGREGATE_GROUPS = 100000"
definition MAX_REPORT_BYTES :: int where "MAX_REPORT_BYTES = 64 * 1024 * 1024"

definition ARTIFACT_FILES :: "string list" where
  "ARTIFACT_FILES = [''benchmark.py'', ''core.py'', ''requirements.txt'', ''Dockerfile'']"

record SourcePlan =
  sp_source :: dict
  sp_names :: Names
  sp_base_us :: int
  sp_initial_rows :: int
  sp_late_rows :: int
  sp_source_state :: string
  sp_report_sha256 :: string
  sp_hashes :: "(string \<times> string) list"

definition total_rows :: "SourcePlan \<Rightarrow> int" where
  "total_rows plan = sp_initial_rows plan + sp_late_rows plan"

text \<open>Reading a file piece by piece into the hash is hashing its bytes.\<close>

definition file_sha256 :: "(string \<Rightarrow> nat list option) \<Rightarrow> string \<Rightarrow> string result" where
  "file_sha256 read_bytes path = file_digest read_bytes path"

section \<open>Accounting\<close>

definition integer_of :: "json \<Rightarrow> string \<Rightarrow> int \<Rightarrow> int result" where
  "integer_of v label minimum = (case v of
     JInt i \<Rightarrow> if i < minimum then Inl (RuntimeError (''source report '' @ label @ '' is invalid'')) else Inr i
   | _ \<Rightarrow> Inl (RuntimeError (''source report '' @ label @ '' is invalid'')))"

text \<open>An entry that must be the given count.\<close>

definition demand :: "dict \<Rightarrow> string \<Rightarrow> string \<Rightarrow> int \<Rightarrow> string \<Rightarrow> unit result" where
  "demand d k label expected message =
     ebind (integer_of (dget d k) (label @ ''.'' @ k) 0) (\<lambda>i. guard (i = expected) (RuntimeError message))"

definition complete_backend :: "dict \<Rightarrow> int \<Rightarrow> string \<Rightarrow> unit result" where
  "complete_backend ingest initial backend =
     (let incomplete = RuntimeError (''source report '' @ backend @ '' initial ingest is incomplete'');
          label = ''initial_ingest.'' @ backend in
      case dget ingest backend of
        JObj item \<Rightarrow>
          ebind (guard (py_eq (dget item ''state'') (JStr ''passed'')) incomplete) (\<lambda>_.
          ebind (eiter (\<lambda>k. demand item k label initial (''source report '' @ backend @ '' initial row accounting differs''))
                  [''offered_rows'', ''assigned_rows'', ''rows'']) (\<lambda>_.
          eiter (\<lambda>k. demand item k label 0 (''source report '' @ backend @ '' initial work is incomplete''))
            [''never_submitted_rows'', ''failed_or_ambiguous_rows'']))
      | _ \<Rightarrow> Inl incomplete)"

definition complete_ingest :: "dict \<Rightarrow> int \<Rightarrow> unit result" where
  "complete_ingest source initial = (case dget source ''initial_ingest'' of
     JObj ingest \<Rightarrow> eiter (complete_backend ingest initial) [''varve'', ''timescale'']
   | _ \<Rightarrow> Inl (RuntimeError ''source report lacks initial ingest accounting''))"

text \<open>\<^verbatim>\<open>math.isfinite\<close> of an integer converts it to a float first.\<close>

definition finite_number :: "json \<Rightarrow> bool result" where
  "finite_number v = (case v of
     JInt i \<Rightarrow> (case to_float (of_int i) of Fin _ \<Rightarrow> Inr True | _ \<Rightarrow> Inl (OverflowError ''int too large to convert to float''))
   | JFloat f \<Rightarrow> Inr (is_finite f)
   | _ \<Rightarrow> Inl (TypeError ''must be real number''))"

definition rate_of :: "json \<Rightarrow> json result" where
  "rate_of rate = (case rate of
     JInt _ \<Rightarrow> ebind (finite_number rate) (\<lambda>_. Inr rate)
   | JFloat f \<Rightarrow> if is_finite f then Inr rate else Inl (RuntimeError ''source report mixed rate is invalid'')
   | _ \<Rightarrow> Inl (RuntimeError ''source report mixed rate is invalid''))"

text \<open>\<^verbatim>\<open>int(rate * seconds)\<close>: exact for integers, rounded for floats.\<close>

definition rate_times :: "json \<Rightarrow> int \<Rightarrow> int result" where
  "rate_times rate seconds = (case rate of
     JInt i \<Rightarrow> Inr (i * seconds)
   | JFloat (Fin x) \<Rightarrow> (case to_float (of_int seconds) of
       Fin y \<Rightarrow> (case to_float (x * y) of Fin z \<Rightarrow> Inr (trunc z) | _ \<Rightarrow> Inl (OverflowError ''cannot convert float infinity to integer''))
     | _ \<Rightarrow> Inl (OverflowError ''int too large to convert to float''))
   | _ \<Rightarrow> Inl (TypeError ''unsupported operand''))"

definition mixed_target_matches :: "dict \<Rightarrow> int \<Rightarrow> unit result" where
  "mixed_target_matches config target =
     (let differs = RuntimeError ''source report mixed target differs from configuration'' in
      ebind (rate_of (dget config ''offered_rate_rows_per_second'')) (\<lambda>rate.
      case dget config ''mixed_seconds'' of
        JInt seconds \<Rightarrow>
          if seconds < 1 then Inl differs
          else ebind (rate_times rate seconds) (\<lambda>rows. guard (target = rows) differs)
      | _ \<Rightarrow> Inl differs))"

definition complete_writes :: "dict \<Rightarrow> int \<Rightarrow> int \<Rightarrow> int result" where
  "complete_writes mixed target total_limit =
     (let label = ''mixed_workload'' in
      ebind (integer_of (dget mixed ''acknowledged_rows'') ''mixed_workload.acknowledged_rows'' 0) (\<lambda>acknowledged.
      ebind (guard (acknowledged = target \<and> acknowledged \<le> total_limit)
              (RuntimeError ''source report does not contain a complete bounded mixed workload'')) (\<lambda>_.
      ebind (eiter (\<lambda>k. demand mixed k label acknowledged ''source report paired acknowledgements differ'')
              [''varve_acknowledged_rows'', ''timescale_acknowledged_rows'']) (\<lambda>_.
      ebind (eiter (\<lambda>k. demand mixed k label 0 ''source report has failed, ambiguous, pending, or unsubmitted work'')
              [''failed_or_ambiguous_rows'', ''pending_rows'', ''never_submitted_rows'']) (\<lambda>_.
      ebind (integer_of (dget mixed ''offered_rows'') ''mixed_workload.offered_rows'' 0) (\<lambda>offered_rows.
      ebind (integer_of (dget mixed ''dropped_rows'') ''mixed_workload.dropped_rows'' 0) (\<lambda>dropped_rows.
      ebind (integer_of (dget mixed ''failed_or_ambiguous_rows'') label 0) (\<lambda>failed.
      ebind (integer_of (dget mixed ''pending_rows'') label 0) (\<lambda>pending.
      let accounted = acknowledged + failed + pending + dropped_rows in
      ebind (guard (offered_rows = target \<and> dropped_rows = 0 \<and> accounted = offered_rows)
              (RuntimeError ''source report mixed write conservation differs'')) (\<lambda>_.
      Inr acknowledged))))))))))"

definition complete_reads :: "dict \<Rightarrow> unit result" where
  "complete_reads mixed =
     (let incomplete = ''source report mixed reads are incomplete''; label = ''mixed_workload.reads'' in
      case dget mixed ''reads'' of
        JObj reads \<Rightarrow>
          ebind (integer_of (dget reads ''offered'') ''mixed_workload.reads.offered'' 0) (\<lambda>offered.
          ebind (demand reads ''completed'' label offered incomplete) (\<lambda>_.
          ebind (demand reads ''failed'' label 0 incomplete) (\<lambda>_.
          ebind (demand reads ''pending'' label 0 incomplete) (\<lambda>_.
          guard (dget mixed ''data_complete'' = JBool True) (RuntimeError incomplete)))))
      | _ \<Rightarrow> Inl (RuntimeError ''source report mixed read accounting is absent''))"

definition mixed_checks :: "int \<Rightarrow> (string \<times> int) list" where
  "mixed_checks acknowledged = [
     (''mixed_paired_acknowledged_rows'', acknowledged), (''mixed_varve_acknowledged_rows'', acknowledged),
     (''mixed_timescale_acknowledged_rows'', acknowledged), (''mixed_failed_or_ambiguous_rows'', 0), (''mixed_pending_rows'', 0)]"

definition complete_mixed :: "dict \<Rightarrow> dict \<Rightarrow> int \<Rightarrow> int result" where
  "complete_mixed source manifest total_limit = (case (dget source ''mixed_workload'', dget source ''configuration'') of
     (JObj mixed, JObj config) \<Rightarrow>
       ebind (integer_of (dget mixed ''target_rows'') ''mixed_workload.target_rows'' 0) (\<lambda>target.
       ebind (mixed_target_matches config target) (\<lambda>_.
       ebind (complete_writes mixed target total_limit) (\<lambda>acknowledged.
       ebind (complete_reads mixed) (\<lambda>_.
       ebind (eiter (\<lambda>(k, expected). demand manifest k ''manifest'' expected ''source report manifest mixed accounting differs'')
               (mixed_checks acknowledged)) (\<lambda>_.
       Inr acknowledged)))))
   | _ \<Rightarrow> Inl (RuntimeError ''source report lacks mixed workload/configuration''))"

section \<open>Verdict and barrier\<close>

definition verdict_consistent :: "dict \<Rightarrow> dict \<Rightarrow> string result" where
  "verdict_consistent source mixed =
     (let state = dget source ''state'' in
      if py_eq state (JStr ''passed'') then
        ebind (guard (dget source ''overloaded'' = JNull \<and> py_eq (dget mixed ''state'') (JStr ''passed'') \<and>
                 dget mixed ''schedule_met'' = JBool True \<and> dget mixed ''clean'' = JBool True)
          (RuntimeError ''source passed verdict conflicts with workload diagnostics'')) (\<lambda>_. Inr ''passed'')
      else if py_eq state (JStr ''overloaded'') then
        (let bad = RuntimeError ''only a complete-data overloaded diagnostic is verifiable'' in
         case dget source ''overloaded'' of
           JObj overloaded \<Rightarrow>
             ebind (guard (dget overloaded ''data_complete'' = JBool True \<and> dget overloaded ''schedule_met'' = JBool False \<and>
                      py_eq (dget mixed ''state'') (JStr ''overloaded'') \<and> dget mixed ''schedule_met'' = JBool False \<and>
                      dget mixed ''clean'' = JBool False) bad) (\<lambda>_. Inr ''overloaded'')
         | _ \<Rightarrow> Inl bad)
      else Inl (RuntimeError ''source report verdict is not passed or complete-data overloaded''))"

definition nonnegative_seconds :: "json \<Rightarrow> pyerror \<Rightarrow> unit result" where
  "nonnegative_seconds v bad = (case v of
     JInt i \<Rightarrow> ebind (finite_number v) (\<lambda>_. guard (0 \<le> i) bad)
   | JFloat (Fin x) \<Rightarrow> guard (0 \<le> x) bad
   | _ \<Rightarrow> Inl bad)"

definition fresh_barrier :: "dict \<Rightarrow> int \<Rightarrow> unit result" where
  "fresh_barrier source rows =
     (let bad = RuntimeError ''source report lacks the completed fresh aggregate barrier'' in
      case dget source ''mixed_freshness_barrier'' of
        JObj barrier \<Rightarrow>
          if dget barrier ''varve_eager_aggregate'' \<noteq> JBool True then Inl bad
          else
            ebind (integer_of (dget barrier ''same_reconciled_watermark_rows'') ''freshness watermark'' 0) (\<lambda>watermark.
            ebind (guard (watermark = rows) bad) (\<lambda>_.
            nonnegative_seconds (dget barrier ''timescale_explicit_refresh_seconds'') bad))
      | _ \<Rightarrow> Inl bad)"

definition final_phase :: "dict \<Rightarrow> unit result" where
  "final_phase source =
     (let bad = RuntimeError ''source report final correctness phase is incomplete'' in
      case dget source ''phases'' of
        JList phases \<Rightarrow>
          if phases = [] then Inl bad
          else case last phases of
            JObj d \<Rightarrow> guard (py_eq (dget d ''name'') (JStr ''mixed_barrier_retry_drills_and_final_correctness'') \<and>
              py_eq (dget d ''state'') (JStr ''passed'')) bad
          | _ \<Rightarrow> Inl (AttributeError ''get'')
      | _ \<Rightarrow> Inl bad)"

definition validate_verdict_and_barrier :: "dict \<Rightarrow> int \<Rightarrow> string result" where
  "validate_verdict_and_barrier source rows =
     ebind (field (JObj source) ''mixed_workload'') (\<lambda>v. case v of
       JObj mixed \<Rightarrow>
         ebind (verdict_consistent source mixed) (\<lambda>state.
         ebind (fresh_barrier source rows) (\<lambda>_.
         ebind (final_phase source) (\<lambda>_. Inr state)))
     | _ \<Rightarrow> Inl (AttributeError ''get''))"

section \<open>The source report\<close>

definition parse_report :: "nat list \<Rightarrow> json result" where
  "parse_report raw =
     (let bad = RuntimeError ''source report is not strict JSON'' in
      case utf8_decode raw of
        None \<Rightarrow> Inl bad
      | Some s \<Rightarrow> (case loads_with True s of Inl _ \<Rightarrow> Inl bad | Inr v \<Rightarrow> Inr v))"

definition expected_manifest :: dict where
  "expected_manifest = [
     (''seed'', JInt DATASET_SEED), (''series'', JInt SERIES_COUNT), (''tenants'', JInt TENANT_COUNT),
     (''aggregate_width_us'', JInt BUCKET_US), (''tags'', JObj []),
     (''value_rule'', JStr ''((i * 17) % 10000) / 4''),
     (''timestamp_rule'', JStr ''base + (i//1024)*1 second + (i%1024) microseconds'')]"

text \<open>The row counts, base timestamp and late rows the report accounts for.\<close>

definition checked_workload :: "dict \<Rightarrow> (int \<times> int \<times> int) result" where
  "checked_workload source = (case (dget source ''manifest'', dget source ''configuration'') of
     (JObj manifest, JObj config) \<Rightarrow>
       ebind (integer_of (dget manifest ''initial_rows'') ''manifest.initial_rows'' 1) (\<lambda>initial.
       ebind (integer_of (dget config ''rows'') ''configuration.rows'' 1) (\<lambda>rows.
       ebind (guard (initial = rows \<and> initial \<le> MAX_ROWS) (RuntimeError ''source report initial row bounds differ'')) (\<lambda>_.
       ebind (integer_of (dget manifest ''base_timestamp_us'') ''manifest.base_timestamp_us'' 0) (\<lambda>base_us.
       ebind (guard (base_us mod BUCKET_US = 0) (RuntimeError ''source report base timestamp is not minute aligned'')) (\<lambda>_.
       ebind (eiter (\<lambda>(k, expected). guard (py_eq (dget manifest k) expected)
               (RuntimeError (''source report deterministic manifest field '' @ k @ '' differs''))) expected_manifest) (\<lambda>_.
       ebind (complete_ingest source initial) (\<lambda>_.
       ebind (complete_mixed source manifest (MAX_ROWS - initial)) (\<lambda>late.
       ebind (integer_of (dget manifest ''total_reconciled_watermark_rows'') ''manifest.total rows'' 0) (\<lambda>total.
       ebind (guard (total = initial + late) (RuntimeError ''source report total watermark differs'')) (\<lambda>_.
       Inr (base_us, initial, late)))))))))))
   | _ \<Rightarrow> Inl (RuntimeError ''source report lacks manifest/configuration''))"

definition source_names :: "dict \<Rightarrow> Names result" where
  "source_names source = (case dget source ''run_id'' of
     JStr run_id \<Rightarrow>
       ebind (case checked_run_id run_id of Inl _ \<Rightarrow> Inl (RuntimeError ''source report run identity is invalid'') | Inr _ \<Rightarrow> Inr ()) (\<lambda>_.
       case dget source ''namespaces'' of
         JObj raw_names \<Rightarrow>
           ebind (guard (names_keys raw_names) (RuntimeError ''source report namespaces are invalid'')) (\<lambda>_.
           ebind (checked_fields raw_names) (\<lambda>names.
           ebind (names_for run_id) (\<lambda>owned.
           ebind (guard (names = owned) (RuntimeError ''source report namespaces differ from its run identity'')) (\<lambda>_.
           Inr names))))
       | _ \<Rightarrow> Inl (RuntimeError ''source report lacks namespaces''))
   | _ \<Rightarrow> Inl (RuntimeError ''source report run identity is invalid''))"

definition source_hashes :: "(string \<Rightarrow> nat list option) \<Rightarrow> dict \<Rightarrow> (string \<times> string) list result" where
  "source_hashes read_bytes source =
     (let absent = RuntimeError ''source report artifact hashes are absent'' in
      case dget source ''artifact'' of
        JObj artifact \<Rightarrow>
          (case dget artifact ''files'' of
             JObj files \<Rightarrow>
               ebind (guard (py_eq (dget artifact ''format_version'') (JInt 1)) absent) (\<lambda>_.
               ebind (emap (file_sha256 read_bytes) ARTIFACT_FILES) (\<lambda>hashes.
               let current = zip ARTIFACT_FILES hashes in
               ebind (eiter (\<lambda>(name, hash). guard (py_eq (dget files name) (JStr hash))
                       (RuntimeError (''source report '' @ name @ '' hash differs from verifier dependency''))) current) (\<lambda>_.
               ebind (guard (py_eq (dget artifact ''sha256'') (JStr (sha256_hex (concat hashes))))
                       (RuntimeError ''source report combined artifact hash differs'')) (\<lambda>_.
               Inr current))))
           | _ \<Rightarrow> Inl absent)
      | _ \<Rightarrow> Inl absent)"

definition plan_of :: "(string \<Rightarrow> nat list option) \<Rightarrow> string \<Rightarrow> json \<Rightarrow> SourcePlan result" where
  "plan_of read_bytes digest v = (case v of
     JObj source \<Rightarrow>
       ebind (guard (py_eq (dget source ''mode'') (JStr ''benchmark''))
               (RuntimeError ''source report must be a completed benchmark report'')) (\<lambda>_.
       ebind (checked_workload source) (\<lambda>(base_us, initial, late).
       ebind (validate_verdict_and_barrier source (initial + late)) (\<lambda>state.
       ebind (source_names source) (\<lambda>names.
       ebind (source_hashes read_bytes source) (\<lambda>current.
       Inr \<lparr>sp_source = source, sp_names = names, sp_base_us = base_us, sp_initial_rows = initial, sp_late_rows = late,
            sp_source_state = state, sp_report_sha256 = digest, sp_hashes = current\<rparr>)))))
   | _ \<Rightarrow> Inl (RuntimeError ''source report must be a completed benchmark report''))"

definition load_source :: "bool \<Rightarrow> int \<Rightarrow> nat list \<Rightarrow> (string \<Rightarrow> nat list option) \<Rightarrow> SourcePlan result" where
  "load_source is_file st_size raw read_bytes =
     (if \<not> is_file \<or> st_size > MAX_REPORT_BYTES then Inl (RuntimeError ''--report must be a bounded regular file'')
      else ebind (parse_report raw) (plan_of read_bytes (sha256_bytes raw)))"

section \<open>What an accepted report satisfies\<close>

lemma integer_of_Inr: "integer_of v label m = Inr i \<longleftrightarrow> v = JInt i \<and> m \<le> i"
  by (auto simp: integer_of_def split: json.splits)

lemma demand_Inr: "demand d k label expected message = Inr u \<longleftrightarrow> dget d k = JInt expected \<and> 0 \<le> expected"
  by (auto simp: demand_def result_simps integer_of_Inr)

lemma complete_backend_Inr:
  assumes "complete_backend ingest initial backend = Inr u"
  obtains item where "dget ingest backend = JObj item" "dget item ''rows'' = JInt initial"
    "dget item ''never_submitted_rows'' = JInt 0" "dget item ''failed_or_ambiguous_rows'' = JInt 0"
  using assms by (auto simp: complete_backend_def Let_def demand_Inr result_simps split: json.splits)

lemma complete_ingest_Inr:
  assumes "complete_ingest source initial = Inr u" "backend = ''varve'' \<or> backend = ''timescale''"
  shows "\<exists>ingest item. dget source ''initial_ingest'' = JObj ingest \<and> dget ingest backend = JObj item \<and>
    dget item ''rows'' = JInt initial \<and> dget item ''failed_or_ambiguous_rows'' = JInt 0"
  using assms by (auto simp: complete_ingest_def result_simps split: json.splits elim!: complete_backend_Inr)

lemma complete_writes_Inr:
  "complete_writes mixed target limit = Inr a \<Longrightarrow> a = target \<and> 0 \<le> a \<and> a \<le> limit"
  by (auto simp: complete_writes_def Let_def integer_of_Inr result_simps)

lemma complete_mixed_Inr:
  assumes "complete_mixed source manifest limit = Inr late"
  shows "0 \<le> late \<and> late \<le> limit \<and> dget manifest ''mixed_varve_acknowledged_rows'' = JInt late \<and>
    dget manifest ''mixed_timescale_acknowledged_rows'' = JInt late"
  using assms unfolding complete_mixed_def
  by (auto simp: mixed_checks_def demand_Inr result_simps dest!: complete_writes_Inr split: json.splits)

lemma verdict_consistent_Inr: "verdict_consistent source mixed = Inr state \<Longrightarrow> state = ''passed'' \<or> state = ''overloaded''"
  unfolding verdict_consistent_def Let_def
  by (cases "dget source ''overloaded''") (auto simp: result_simps simp del: py_eq.simps split: if_splits)

lemma verdict_Inr:
  assumes "validate_verdict_and_barrier source rows = Inr state"
  shows "state = ''passed'' \<or> state = ''overloaded''"
proof -
  obtain v where v: "(case v of JObj mixed \<Rightarrow> ebind (verdict_consistent source mixed) (\<lambda>state.
      ebind (fresh_barrier source rows) (\<lambda>_. ebind (final_phase source) (\<lambda>_. Inr state))) | _ \<Rightarrow> Inl (AttributeError ''get'')) = Inr state"
    using assms unfolding validate_verdict_and_barrier_def by (elim ebindE)
  then show ?thesis by (cases v) (auto simp: result_simps dest: verdict_consistent_Inr)
qed

lemma source_names_Inr:
  assumes "source_names source = Inr names"
  shows "\<exists>run_id. dget source ''run_id'' = JStr run_id \<and> run_id_match run_id \<and> names_for run_id = Inr names"
  using assms unfolding source_names_def
  by (auto simp: result_simps checked_run_id_def split: json.splits sum.splits if_splits)

lemma source_hashes_Inr:
  assumes "source_hashes read_bytes source = Inr current"
  shows "map fst current = ARTIFACT_FILES \<and>
    list_all (\<lambda>(name, hash). \<exists>bytes. read_bytes name = Some bytes \<and> hash = sha256_bytes bytes) current"
proof -
  obtain hashes where h: "emap (file_sha256 read_bytes) ARTIFACT_FILES = Inr hashes" "current = zip ARTIFACT_FILES hashes"
    using assms unfolding source_hashes_def Let_def
    by (auto simp: result_simps simp del: emap.simps split: json.splits)
  have "list_all2 (\<lambda>name hash. \<exists>bytes. read_bytes name = Some bytes \<and> hash = sha256_bytes bytes) ARTIFACT_FILES hashes"
    using h(1) by (auto simp: emap_Inr_iff file_sha256_def file_digest_def split: option.splits elim!: list_all2_mono)
  then show ?thesis using h(2)
    by (auto simp: list_all2_iff list_all_iff)
qed

lemma checked_workload_Inr:
  assumes "checked_workload source = Inr (base_us, initial, late)"
  obtains manifest where "dget source ''manifest'' = JObj manifest" "1 \<le> initial" "initial + late \<le> 1000000" "0 \<le> late" "0 \<le> base_us"
    "base_us mod 60000000 = 0" "complete_ingest source initial = Inr ()"
    "dget manifest ''mixed_varve_acknowledged_rows'' = JInt late" "dget manifest ''mixed_timescale_acknowledged_rows'' = JInt late"
  using assms unfolding checked_workload_def
  by (auto simp: integer_of_Inr guard_Inr_iff MAX_ROWS_def BUCKET_US_def split: json.splits elim!: ebindE dest!: complete_mixed_Inr)

lemma checked_workload_facts:
  assumes "checked_workload source = Inr (base_us, initial, late)"
  shows "1 \<le> initial" "initial + late \<le> 1000000" "0 \<le> late" "0 \<le> base_us" "base_us mod 60000000 = 0"
    "complete_ingest source initial = Inr ()"
    "\<exists>manifest. dget source ''manifest'' = JObj manifest \<and> dget manifest ''mixed_varve_acknowledged_rows'' = JInt late \<and>
       dget manifest ''mixed_timescale_acknowledged_rows'' = JInt late"
  using checked_workload_Inr [OF assms] by blast+

definition plan_ok :: "SourcePlan \<Rightarrow> bool" where
  "plan_ok plan \<longleftrightarrow>
     1 \<le> sp_initial_rows plan \<and> 0 \<le> sp_late_rows plan \<and> total_rows plan \<le> 1000000 \<and>
     0 \<le> sp_base_us plan \<and> sp_base_us plan mod 60000000 = 0 \<and>
     (sp_source_state plan = ''passed'' \<or> sp_source_state plan = ''overloaded'') \<and> map fst (sp_hashes plan) = ARTIFACT_FILES"

text \<open>
  C14: a report that the exact verifier accepts gives a well-formed plan: between one and a million
  rows in both streams together, a minute-aligned base time, a final verdict, the names that belong
  to a valid run id, hashes of exactly the driver files that are installed beside the verifier and
  of the report itself; and the report accounts for every row: both backends ingested all initial
  rows with none failed or ambiguous, and both acknowledged exactly the late rows of the plan.
\<close>

theorem load_source_well_formed:
  assumes "load_source is_file st_size raw read_bytes = Inr plan"
  shows "plan_ok plan \<and> is_file \<and> st_size \<le> 64 * 1024 * 1024 \<and> sp_report_sha256 plan = sha256_bytes raw \<and>
    list_all (\<lambda>(name, hash). \<exists>bytes. read_bytes name = Some bytes \<and> hash = sha256_bytes bytes) (sp_hashes plan) \<and>
    (\<exists>run_id. dget (sp_source plan) ''run_id'' = JStr run_id \<and> run_id_match run_id \<and> names_for run_id = Inr (sp_names plan)) \<and>
    (\<forall>backend \<in> {''varve'', ''timescale''}. \<exists>ingest item. dget (sp_source plan) ''initial_ingest'' = JObj ingest \<and>
       dget ingest backend = JObj item \<and> dget item ''rows'' = JInt (sp_initial_rows plan) \<and>
       dget item ''failed_or_ambiguous_rows'' = JInt 0) \<and>
    (\<exists>manifest. dget (sp_source plan) ''manifest'' = JObj manifest \<and>
       dget manifest ''mixed_varve_acknowledged_rows'' = JInt (sp_late_rows plan) \<and>
       dget manifest ''mixed_timescale_acknowledged_rows'' = JInt (sp_late_rows plan))"
proof -
  obtain v where stat: "is_file" "st_size \<le> 64 * 1024 * 1024" and v: "plan_of read_bytes (sha256_bytes raw) v = Inr plan"
    using assms by (auto simp: load_source_def MAX_REPORT_BYTES_def not_less split: if_splits elim!: ebindE)
  obtain source where "v = JObj source" using v by (cases v) (simp_all add: plan_of_def)
  with v obtain base_us initial late state names current where
      w: "checked_workload source = Inr (base_us, initial, late)"
    and s: "validate_verdict_and_barrier source (initial + late) = Inr state"
    and n: "source_names source = Inr names" and h: "source_hashes read_bytes source = Inr current"
    and p: "plan = \<lparr>sp_source = source, sp_names = names, sp_base_us = base_us, sp_initial_rows = initial, sp_late_rows = late,
            sp_source_state = state, sp_report_sha256 = sha256_bytes raw, sp_hashes = current\<rparr>"
    unfolding plan_of_def by (auto elim!: ebindE)
  show ?thesis
    using checked_workload_facts [OF w] verdict_Inr [OF s] source_names_Inr [OF n] source_hashes_Inr [OF h] stat
      complete_ingest_Inr [of source initial "()" "''varve''"] complete_ingest_Inr [of source initial "()" "''timescale''"]
    by (simp add: p plan_ok_def total_rows_def)
qed

text \<open>A report of two initial rows and one late row, written by a driver whose files are empty.\<close>

definition example_ingest :: json where
  "example_ingest = JObj [(''state'', JStr ''passed''), (''offered_rows'', JInt 2), (''assigned_rows'', JInt 2), (''rows'', JInt 2),
     (''never_submitted_rows'', JInt 0), (''failed_or_ambiguous_rows'', JInt 0)]"

definition example_mixed :: dict where
  "example_mixed = [(''state'', JStr ''passed''), (''target_rows'', JInt 1), (''acknowledged_rows'', JInt 1),
     (''varve_acknowledged_rows'', JInt 1), (''timescale_acknowledged_rows'', JInt 1), (''failed_or_ambiguous_rows'', JInt 0),
     (''pending_rows'', JInt 0), (''never_submitted_rows'', JInt 0), (''offered_rows'', JInt 1), (''dropped_rows'', JInt 0),
     (''reads'', JObj [(''offered'', JInt 3), (''completed'', JInt 3), (''failed'', JInt 0), (''pending'', JInt 0)]),
     (''data_complete'', JBool True), (''schedule_met'', JBool True), (''clean'', JBool True)]"

definition example_manifest :: dict where
  "example_manifest = [(''initial_rows'', JInt 2), (''base_timestamp_us'', JInt 60000000), (''total_reconciled_watermark_rows'', JInt 3),
     (''mixed_paired_acknowledged_rows'', JInt 1), (''mixed_varve_acknowledged_rows'', JInt 1), (''mixed_timescale_acknowledged_rows'', JInt 1),
     (''mixed_failed_or_ambiguous_rows'', JInt 0), (''mixed_pending_rows'', JInt 0)] @ expected_manifest"

definition example_source :: "Names \<Rightarrow> string \<Rightarrow> dict" where
  "example_source names hash = [(''mode'', JStr ''benchmark''), (''state'', JStr ''passed''), (''run_id'', JStr ''exact''),
     (''namespaces'', JObj (names_json names)), (''manifest'', JObj example_manifest),
     (''configuration'', JObj [(''rows'', JInt 2), (''offered_rate_rows_per_second'', JInt 1), (''mixed_seconds'', JInt 1)]),
     (''initial_ingest'', JObj [(''varve'', example_ingest), (''timescale'', example_ingest)]),
     (''mixed_workload'', JObj example_mixed),
     (''mixed_freshness_barrier'', JObj [(''varve_eager_aggregate'', JBool True), (''same_reconciled_watermark_rows'', JInt 3),
        (''timescale_explicit_refresh_seconds'', JInt 0)]),
     (''phases'', JList [JObj [(''name'', JStr ''mixed_barrier_retry_drills_and_final_correctness''), (''state'', JStr ''passed'')]]),
     (''artifact'', JObj [(''format_version'', JInt 1), (''files'', JObj (map (\<lambda>name. (name, JStr hash)) ARTIFACT_FILES)),
        (''sha256'', JStr (sha256_hex (hash @ hash @ hash @ hash)))])]"

lemma example_plain: "json_plain (JObj (example_source names hash))"
  by (simp add: example_source_def example_manifest_def example_mixed_def example_ingest_def expected_manifest_def names_json_def
      ARTIFACT_FILES_def)

lemma example_names_for: "\<exists>n. names_for ''exact'' = Inr n \<and> checked_fields (names_json n) = Inr n"
proof -
  have m: "run_id_match ''exact''" by (simp add: run_id_match_def is_name_char_def is_lower_def)
  have low: "is_lower (CHR ''v'')" "is_lower (CHR ''a'')" "is_lower (CHR ''b'')" "is_lower (CHR ''c'')" "is_lower (CHR ''m'')"
    by (simp_all add: is_lower_def)
  note owned = owned_name_ok [OF m low(1)]
  have id: "checked_identifier ''measurements'' = Inr ''measurements''" "checked_identifier ''batch_receipts'' = Inr ''batch_receipts''"
    "checked_identifier ''minute_rollup'' = Inr ''minute_rollup''" by code_simp+
  show ?thesis
    using owned [OF low(2), unfolded owned_name_def] owned [OF low(3), unfolded owned_name_def] owned [OF low(4), unfolded owned_name_def]
      owned [OF low(5), unfolded owned_name_def] id
    by (simp add: names_for_def owned low checked_fields_def names_fields_def names_json_def dget_def text_of_def names_of_def)
qed

lemma example_workload: "checked_workload (example_source names hash) = Inr (60000000, 2, 1)"
proof -
  let ?s = "example_source names hash"
  have get: "dget ?s ''manifest'' = JObj example_manifest" "dget ?s ''mixed_workload'' = JObj example_mixed"
      "dget ?s ''initial_ingest'' = JObj [(''varve'', example_ingest), (''timescale'', example_ingest)]"
      "dget ?s ''configuration'' = JObj [(''rows'', JInt 2), (''offered_rate_rows_per_second'', JInt 1), (''mixed_seconds'', JInt 1)]"
    by (simp_all add: example_source_def dget_def)
  have "(1 :: rat) < 2 ^ 1024" by (rule one_less_power) simp_all
  then have one: "to_float 1 = Fin 1" using fl_dyadic [of 1 0] by (simp add: to_float_def pow2_0)
  have "complete_ingest ?s 2 = Inr ()"
    unfolding complete_ingest_def get
    by (simp add: complete_backend_def demand_def integer_of_def dget_def example_ingest_def Let_def)
  moreover have "complete_mixed ?s example_manifest (MAX_ROWS - 2) = Inr 1"
    unfolding complete_mixed_def get
    by (simp add: mixed_target_matches_def rate_of_def finite_number_def one rate_times_def complete_writes_def complete_reads_def mixed_checks_def
        demand_def integer_of_def dget_def example_mixed_def example_manifest_def MAX_ROWS_def Let_def)
  moreover have "eiter (\<lambda>(k, expected). guard (py_eq (dget example_manifest k) expected)
      (RuntimeError (''source report deterministic manifest field '' @ k @ '' differs''))) expected_manifest = Inr ()"
    by (simp add: expected_manifest_def example_manifest_def dget_def py_eq.simps [of "JObj []"])
  ultimately show ?thesis
    unfolding checked_workload_def get
    by (simp add: example_manifest_def integer_of_def dget_def MAX_ROWS_def BUCKET_US_def)
qed

lemma example_verdict: "validate_verdict_and_barrier (example_source names hash) 3 = Inr ''passed''"
proof -
  let ?s = "example_source names hash"
  have zero: "to_float 0 = Fin 0" by (simp add: to_float_def fl_def)
  have get: "field (JObj ?s) ''mixed_workload'' = Inr (JObj example_mixed)" "dget ?s ''overloaded'' = JNull" "dget ?s ''state'' = JStr ''passed''"
    by (simp_all add: example_source_def dget_def field_def dindex_def)
  have mixed: "dget example_mixed ''state'' = JStr ''passed''" "dget example_mixed ''schedule_met'' = JBool True"
      "dget example_mixed ''clean'' = JBool True"
    by (simp_all add: example_mixed_def dget_def)
  have "verdict_consistent ?s example_mixed = Inr ''passed''"
    by (simp add: verdict_consistent_def get mixed)
  moreover have "fresh_barrier ?s 3 = Inr ()"
    by (simp add: fresh_barrier_def example_source_def dget_def integer_of_def nonnegative_seconds_def finite_number_def zero)
  moreover have "final_phase ?s = Inr ()"
    by (simp add: final_phase_def example_source_def dget_def)
  ultimately show ?thesis by (simp add: validate_verdict_and_barrier_def get)
qed

lemma example_load:
  assumes "names_for ''exact'' = Inr n" "checked_fields (names_json n) = Inr n"
  shows "\<exists>plan. load_source True 2000 (utf8 (json_text False True (JObj (example_source n (sha256_bytes []))))) (\<lambda>_. Some []) = Inr plan"
proof -
  let ?s = "example_source n (sha256_bytes [])"
  have parsed: "parse_report (utf8 (json_text False True (JObj ?s))) = Inr (JObj ?s)"
    unfolding parse_report_def utf8_decode_utf8 option.case loads_with_printed [OF example_plain] Let_def sum.case ..
  have "run_id_match ''exact''" by (simp add: run_id_match_def is_name_char_def is_lower_def)
  then have names: "source_names ?s = Inr n"
    using assms by (simp add: source_names_def example_source_def dget_def checked_run_id_def names_keys_def names_json_def names_fields_def)
  have hashes: "\<exists>current. source_hashes (\<lambda>_. Some []) ?s = Inr current"
    by (simp add: source_hashes_def example_source_def dget_def ARTIFACT_FILES_def file_sha256_def file_digest_def Let_def)
  have "dget ?s ''mode'' = JStr ''benchmark''" by (simp add: example_source_def dget_def)
  with names hashes show ?thesis
    by (auto simp: load_source_def MAX_REPORT_BYTES_def parsed plan_of_def example_workload example_verdict simp del: json_text.simps)
qed

theorem load_source_well_formed_witness:
  "\<exists>n plan. load_source True 2000 (utf8 (json_text False True (JObj (example_source n (sha256_bytes []))))) (\<lambda>_. Some []) = Inr plan \<and>
     plan_ok plan \<and> names_for ''exact'' = Inr n"
proof -
  obtain n where n: "names_for ''exact'' = Inr n" "checked_fields (names_json n) = Inr n" using example_names_for by blast
  obtain plan where plan: "load_source True 2000 (utf8 (json_text False True (JObj (example_source n (sha256_bytes []))))) (\<lambda>_. Some []) = Inr plan"
    using example_load [OF n] by blast
  from load_source_well_formed [OF plan] plan n(1) show ?thesis by blast
qed

end
