(* ===== verification/Exact_Rows.thy ===== *)
theory Exact_Rows
  imports Exact_Source
begin

text \<open>
  The second part of the exact verifier (\<^verbatim>\<open>verify_exact.py\<close>): the rows and minute groups a plan
  predicts, in the order the verifier's queries ask for, the normal form of the rows a server
  returns, and the paged comparison of both. The expected rows are shown to be the data set in
  sorted order, and the paged comparison to accept exactly the tables that hold them.
\<close>

section \<open>Expected rows\<close>

record ExactRow =
  er_timestamp_us :: int
  er_tenant :: string
  er_series :: string
  er_value_q :: int
  er_tags :: string

definition exact_row :: "Measurement \<Rightarrow> ExactRow" where
  "exact_row row = \<lparr>er_timestamp_us = timestamp_us row, er_tenant = tenant row, er_series = series row,
     er_value_q = value_q row, er_tags = ''{}''\<rparr>"

text \<open>\<^verbatim>\<open>range(start, stop, step)\<close>, and the rows of one class of late indices, in the order of their values.\<close>

definition range_step :: "int \<Rightarrow> int \<Rightarrow> int \<Rightarrow> int list" where
  "range_step start stop step = map (\<lambda>k. start + step * int k) [0..<nat ((stop - start + step - 1) div step)]"

definition late_key :: "SourcePlan \<Rightarrow> int \<Rightarrow> int \<times> string \<times> string" where
  "late_key plan index =
     (let row = late_row index (sp_base_us plan) in (timestamp_us row, tenant row, series row))"

definition remainders :: "SourcePlan \<Rightarrow> int list" where
  "remainders plan = sort_key (late_key plan) [0..min SERIES_COUNT (sp_late_rows plan) - 1]"

definition late_class :: "SourcePlan \<Rightarrow> int \<Rightarrow> Measurement list" where
  "late_class plan remainder =
     sort_key value_q (map (\<lambda>index. late_row index (sp_base_us plan)) (range_step remainder (sp_late_rows plan) SERIES_COUNT))"

definition expected_rows :: "SourcePlan \<Rightarrow> ExactRow list" where
  "expected_rows plan =
     map exact_row (concat (map (late_class plan) (remainders plan)) @
       map (\<lambda>index. measurement_row index (sp_base_us plan)) [0..sp_initial_rows plan - 1])"

text \<open>The bound that \<^verbatim>\<open>expected_rows\<close> records while it runs to its end.\<close>

definition max_late_class_values :: "SourcePlan \<Rightarrow> int" where
  "max_late_class_values plan = foldl (\<lambda>m remainder. max m (int (length (late_class plan remainder)))) 0 (remainders plan)"

section \<open>Rows as the servers return them\<close>

text \<open>
  The decimal number \<^verbatim>\<open>str\<close> prints for a float has at most 17 digits, so a product with 4 is exact
  in a decimal context of 28 digits; the product with an integer is rounded to 28 digits.
\<close>

definition decimal_of :: "rat \<Rightarrow> rat" where
  "decimal_of x =
     (if x = 0 then 0
      else case repr_search [1..<18] \<bar>x\<bar> (ilog10 \<bar>x\<bar>) of (m, q) \<Rightarrow> sgn x * of_int m * pow10 q)"

definition round_28 :: "int \<Rightarrow> int" where
  "round_28 v =
     (let n = length (dec_nat (nat \<bar>v\<bar>)) in
      if n \<le> 28 then v else rne (of_int v / 10 ^ (n - 28)) * 10 ^ (n - 28))"

definition quarter :: "json \<Rightarrow> string \<Rightarrow> int result" where
  "quarter v label =
     (let inexact = RuntimeError (label @ '' is not finite exact-quarter data'') in
      case v of
        JInt i \<Rightarrow> Inr (round_28 (i * 4))
      | JFloat (Fin x) \<Rightarrow> (let q = decimal_of x * 4 in if of_int \<lfloor>q\<rfloor> = q then Inr \<lfloor>q\<rfloor> else Inl inexact)
      | JFloat _ \<Rightarrow> Inl inexact
      | _ \<Rightarrow> Inl (RuntimeError (label @ '' is not numeric'')))"

definition empty_tags :: "json \<Rightarrow> string \<Rightarrow> string result" where
  "empty_tags v label =
     ebind (case v of
       JStr s \<Rightarrow> (case loads s of Inl _ \<Rightarrow> Inl (RuntimeError (label @ '' tags are not valid JSON'')) | Inr u \<Rightarrow> Inr u)
     | _ \<Rightarrow> Inr v) (\<lambda>u.
     if u = JObj [] then Inr ''{}'' else Inl (RuntimeError (label @ '' tags differ from the deterministic empty map'')))"

definition normalize_raw :: "json \<Rightarrow> ExactRow result" where
  "normalize_raw row = (case row of
     JObj d \<Rightarrow>
       (case dget d ''timestamp_us'' of
          JInt ts \<Rightarrow>
            (case (dget d ''tenant'', dget d ''series'') of
               (JStr t, JStr s) \<Rightarrow>
                 ebind (quarter (dget d ''value'') ''raw value'') (\<lambda>q.
                 ebind (empty_tags (dget d ''tags'') ''raw'') (\<lambda>tags.
                 Inr \<lparr>er_timestamp_us = ts, er_tenant = t, er_series = s, er_value_q = q, er_tags = tags\<rparr>))
             | _ \<Rightarrow> Inl (RuntimeError ''raw tenant/series is not text''))
        | _ \<Rightarrow> Inl (RuntimeError ''raw timestamp_us is not an integer''))
   | _ \<Rightarrow> Inl (AttributeError ''get''))"

type_synonym AggregateRow = "(int \<times> string \<times> string \<times> string) \<times> int \<times> int \<times> int \<times> int"

definition normalize_aggregate :: "json \<Rightarrow> AggregateRow result" where
  "normalize_aggregate row = (case row of
     JObj d \<Rightarrow>
       (case (dget d ''bucket_us'', dget d ''count'') of
          (JInt bucket, JInt n) \<Rightarrow>
            if n \<le> 0 then Inl (RuntimeError ''aggregate bucket/count is invalid'')
            else (case (dget d ''tenant'', dget d ''series'') of
               (JStr t, JStr s) \<Rightarrow>
                 ebind (empty_tags (dget d ''tags'') ''aggregate'') (\<lambda>tags.
                 ebind (quarter (dget d ''sum'') ''aggregate sum'') (\<lambda>total_q.
                 ebind (quarter (dget d ''min'') ''aggregate min'') (\<lambda>low.
                 ebind (quarter (dget d ''max'') ''aggregate max'') (\<lambda>high.
                 Inr ((bucket, t, s, tags), n, total_q, low, high)))))
             | _ \<Rightarrow> Inl (RuntimeError ''aggregate tenant/series is not text''))
        | _ \<Rightarrow> Inl (RuntimeError ''aggregate bucket/count is invalid''))
   | _ \<Rightarrow> Inl (AttributeError ''get''))"

text \<open>\<^verbatim>\<open>repr\<close> of a row and of a group, for the message of a mismatch.\<close>

definition show_row :: "ExactRow \<Rightarrow> string" where
  "show_row r = ''ExactRow(timestamp_us='' @ dec_int (er_timestamp_us r) @ '', tenant='' @ repr_str (er_tenant r) @ '', series='' @
     repr_str (er_series r) @ '', value_q='' @ dec_int (er_value_q r) @ '', tags='' @ repr_str (er_tags r) @ '')''"

definition show_group :: "AggregateRow \<Rightarrow> string" where
  "show_group = (\<lambda>((bucket, t, s, tags), n, total_q, low, high).
     ''('' @ join_str '', '' [dec_int bucket, repr_str t, repr_str s, repr_str tags, dec_int n, dec_int total_q, dec_int low, dec_int high] @ '')'')"

section \<open>The paged comparison\<close>

text \<open>The first index at which the two lists differ, the shorter one padded.\<close>

fun first_mismatch :: "'a list \<Rightarrow> 'a list \<Rightarrow> nat" where
  "first_mismatch (x # xs) (y # ys) = (if x = y then Suc (first_mismatch xs ys) else 0)"
| "first_mismatch _ _ = 0"

definition item_at :: "('a \<Rightarrow> string) \<Rightarrow> 'a list \<Rightarrow> nat \<Rightarrow> string" where
  "item_at render xs i = (if i < length xs then render (xs ! i) else repr_str ''<end>'')"

definition mismatch_error :: "string \<Rightarrow> ('a \<Rightarrow> string) \<Rightarrow> string \<Rightarrow> nat \<Rightarrow> 'a list \<Rightarrow> 'a list \<Rightarrow> pyerror" where
  "mismatch_error label render backend offset wanted found =
     (let i = first_mismatch wanted found in
      RuntimeError (backend @ '' '' @ label @ '' differs at sorted row '' @ dec_nat (offset + i) @ '': expected '' @
        item_at render wanted i @ '', observed '' @ item_at render found i))"

type_synonym 'w fetch = "nat \<Rightarrow> nat \<Rightarrow> ('w, json list) io"

definition check_page :: "string \<Rightarrow> ('a \<Rightarrow> string) \<Rightarrow> (json \<Rightarrow> 'a result) \<Rightarrow> nat \<Rightarrow> 'a list \<Rightarrow> nat \<Rightarrow> string \<times> 'w fetch \<Rightarrow> ('w, unit) io" where
  "check_page label render norm_row offset wanted limit = (\<lambda>(backend, fetch).
     io_bind (fetch offset limit) (\<lambda>rows.
     io_bind (io_lift (emap norm_row rows)) (\<lambda>found.
     if found = wanted then io_return ()
     else io_raise (mismatch_error label render backend offset wanted found))))"

function verify_pages :: "string \<Rightarrow> ('a \<Rightarrow> string) \<Rightarrow> (json \<Rightarrow> 'a result) \<Rightarrow> nat \<Rightarrow> (string \<times> 'w fetch) list \<Rightarrow> 'a list \<Rightarrow> nat \<Rightarrow> nat \<Rightarrow> ('w, nat \<times> nat) io" where
  "verify_pages label render norm_row page_size backends expected offset pages =
     (let wanted = take page_size expected; limit = (if wanted \<noteq> [] then page_size else 1) in
      io_then (io_iter (check_page label render norm_row offset wanted limit) backends)
      (if wanted = [] then io_return (offset, pages)
       else verify_pages label render norm_row page_size backends (drop page_size expected) (offset + length wanted) (Suc pages)))"
  by pat_completeness auto
termination
  by (relation "measure (\<lambda>(_, _, _, _, _, expected, _, _). length expected)") auto

declare verify_pages.simps [simp del]

definition verify_paged :: "string \<Rightarrow> ('a \<Rightarrow> string) \<Rightarrow> 'a list \<Rightarrow> (string \<times> 'w fetch) list \<Rightarrow> (json \<Rightarrow> 'a result) \<Rightarrow> nat \<Rightarrow> ('w, dict) io" where
  "verify_paged label render expected fetches norm_row page_size =
     (if page_size = 0 \<or> PAGE_ROWS < int page_size then io_raise (ValueError ''page size is outside the verifier bound'')
      else
        io_bind (verify_pages label render norm_row page_size fetches expected 0 0) (\<lambda>(offset, pages).
        io_return [(''rows'', JInt (int offset)), (''pages'', JInt (int pages)), (''page_rows_max'', JInt (int page_size))]))"

section \<open>The expected rows are the data set in order\<close>

definition row_key :: "ExactRow \<Rightarrow> int \<times> string \<times> string \<times> int \<times> string" where
  "row_key r = (er_timestamp_us r, er_tenant r, er_series r, er_value_q r, er_tags r)"

lemma row_key_exact: "row_key (exact_row m) = (timestamp_us m, tenant m, series m, value_q m, ''{}'')"
  by (simp add: row_key_def exact_row_def)

lemma set_range_step:
  assumes "0 < step" "0 \<le> start" "start < step"
  shows "set (range_step start stop step) = {i. 0 \<le> i \<and> i < stop \<and> i mod step = start}"
proof (intro equalityI subsetI)
  fix i assume "i \<in> set (range_step start stop step)"
  then obtain k where k: "i = start + step * int k" and "k \<in> set [0..<nat ((stop - start + step - 1) div step)]"
    unfolding range_step_def set_map by (rule imageE)
  then have "int k < (stop - start + step - 1) div step" by (simp add: zless_nat_eq_int_zless)
  then have "step * (int k + 1) \<le> step * ((stop - start + step - 1) div step)" using assms(1) by (intro mult_left_mono) simp_all
  also have "\<dots> \<le> stop - start + step - 1"
    using minus_mod_eq_mult_div [of "stop - start + step - 1" step] pos_mod_sign [OF assms(1), of "stop - start + step - 1"]
    by linarith
  finally have "i < stop" using k by (simp add: distrib_left)
  then show "i \<in> {i. 0 \<le> i \<and> i < stop \<and> i mod step = start}" using k assms by simp
next
  fix i assume "i \<in> {i. 0 \<le> i \<and> i < stop \<and> i mod step = start}"
  then have i: "0 \<le> i" "i < stop" "i mod step = start" by simp_all
  define k where "k = i div step"
  have eq: "i = start + step * k" using i(3) div_mult_mod_eq [of i step] by (simp add: k_def mult.commute)
  have "(k + 1) * step \<le> stop - start + step - 1" using eq i(2) by (simp add: algebra_simps)
  then have "(k + 1) * step div step \<le> (stop - start + step - 1) div step" using assms(1) by (intro zdiv_mono1)
  then have "k < (stop - start + step - 1) div step" using assms(1) by simp
  moreover have "0 \<le> k" using i(1) assms(1) by (simp add: k_def pos_imp_zdiv_nonneg_iff)
  ultimately show "i \<in> set (range_step start stop step)"
    unfolding range_step_def by (auto simp: eq image_iff intro!: bexI [of _ "nat k"])
qed

lemma distinct_range_step: "0 < step \<Longrightarrow> distinct (range_step start stop step)"
  by (auto simp: range_step_def distinct_map inj_on_def)

lemma set_remainders: "set (remainders plan) = {0..<min 1024 (sp_late_rows plan)}"
  by (auto simp: remainders_def SERIES_COUNT_def)

lemma distinct_remainders: "distinct (remainders plan)"
  by (simp add: remainders_def distinct_sort)

lemma distinct_concat_map:
  assumes "distinct xs" "\<And>x. x \<in> set xs \<Longrightarrow> distinct (f x)"
    and "\<And>x y. x \<in> set xs \<Longrightarrow> y \<in> set xs \<Longrightarrow> x \<noteq> y \<Longrightarrow> set (f x) \<inter> set (f y) = {}"
  shows "distinct (concat (map f xs))"
  using assms
proof (induction xs)
  case (Cons a xs)
  have "set (f a) \<inter> set (f x) = {}" if "x \<in> set xs" for x using Cons.prems that by auto
  then have "set (f a) \<inter> set (concat (map f xs)) = {}" by auto
  moreover have "distinct (concat (map f xs))" using Cons by simp
  ultimately show ?case using Cons.prems(2) by simp
qed simp

lemma sorted_wrt_distinct: "sorted_wrt P xs \<Longrightarrow> distinct xs \<Longrightarrow> sorted_wrt (\<lambda>a b. P a b \<and> a \<noteq> b) xs"
  by (induction xs) auto

lemma sorted_concat_map:
  assumes "sorted_wrt (\<lambda>a b. \<forall>x \<in> set (f a). \<forall>y \<in> set (f b). x \<le> y) rs" "\<And>r. r \<in> set rs \<Longrightarrow> sorted (f r)"
  shows "sorted (concat (map f rs))"
  using assms by (induction rs) (auto simp: sorted_append)

text \<open>The classes of late indices partition the late indices.\<close>

lemma late_indices:
  "mset (concat (map (\<lambda>r. range_step r (sp_late_rows plan) 1024) (remainders plan))) = mset [0..sp_late_rows plan - 1]"
proof -
  let ?f = "\<lambda>r. range_step r (sp_late_rows plan) 1024"
  have f: "set (?f r) = {i. 0 \<le> i \<and> i < sp_late_rows plan \<and> i mod 1024 = r}" if "r \<in> set (remainders plan)" for r
    using that by (intro set_range_step) (auto simp: set_remainders)
  have "distinct (concat (map ?f (remainders plan)))"
    by (rule distinct_concat_map [OF distinct_remainders]) (auto simp: distinct_range_step f)
  moreover have "set (concat (map ?f (remainders plan))) = set [0..sp_late_rows plan - 1]"
  proof (intro equalityI subsetI)
    fix i assume "i \<in> set [0..sp_late_rows plan - 1]"
    then have i: "0 \<le> i" "i < sp_late_rows plan" by simp_all
    have "i mod 1024 \<le> i" using i(1) by (simp add: zmod_le_nonneg_dividend)
    then have "i mod 1024 \<in> set (remainders plan)" using i by (simp add: set_remainders)
    with f [OF this] i show "i \<in> set (concat (map ?f (remainders plan)))" by auto
  qed (auto simp: f)
  ultimately show ?thesis using set_eq_iff_mset_eq_distinct [of "concat (map ?f (remainders plan))" "[0..sp_late_rows plan - 1]"] by simp
qed

lemma mset_late_rows:
  "mset (concat (map (late_class plan) (remainders plan))) = mset (map (\<lambda>i. late_row i (sp_base_us plan)) [0..sp_late_rows plan - 1])"
proof -
  have "mset (concat (map (late_class plan) rs)) =
      image_mset (\<lambda>i. late_row i (sp_base_us plan)) (mset (concat (map (\<lambda>r. range_step r (sp_late_rows plan) 1024) rs)))" for rs
    by (induction rs) (simp_all add: late_class_def SERIES_COUNT_def)
  from this [of "remainders plan"] show ?thesis unfolding late_indices mset_map .
qed

text \<open>All rows of a class share timestamp, tenant and series, and different classes have different timestamps.\<close>

lemma late_class_rows:
  assumes "m \<in> set (late_class plan r)" "0 \<le> r" "r < 1024"
  shows "timestamp_us m = timestamp_us (late_row r (sp_base_us plan))" "tenant m = tenant (late_row r (sp_base_us plan))"
    "series m = series (late_row r (sp_base_us plan))"
proof -
  obtain i where m: "m = late_row i (sp_base_us plan)" and i: "i mod 1024 = r mod 1024"
    using assms set_range_step [of 1024 r "sp_late_rows plan"] by (auto simp: late_class_def SERIES_COUNT_def)
  have ts: "timestamp_us (late_row i (sp_base_us plan)) = timestamp_us (late_row r (sp_base_us plan))"
    by (rule iffD2 [OF late_ts_eq_iff i])
  note same = iffD1 [OF late_stream_collisions ts]
  show "timestamp_us m = timestamp_us (late_row r (sp_base_us plan))" unfolding m by (rule ts)
  show "tenant m = tenant (late_row r (sp_base_us plan))" unfolding m by (rule conjunct1 [OF conjunct2 [OF same]])
  show "series m = series (late_row r (sp_base_us plan))" unfolding m by (rule conjunct2 [OF conjunct2 [OF same]])
qed

lemma sorted_late_class:
  assumes "0 \<le> r" "r < 1024"
  shows "sorted (map (row_key \<circ> exact_row) (late_class plan r))"
proof -
  have "sorted (map value_q (late_class plan r))" by (simp add: late_class_def)
  then have "sorted_wrt (\<lambda>a b. value_q a \<le> value_q b) (late_class plan r)" by (simp add: sorted_map)
  then have "sorted_wrt (\<lambda>a b. (row_key \<circ> exact_row) a \<le> (row_key \<circ> exact_row) b) (late_class plan r)"
  proof (rule sorted_wrt_mono_rel [rotated])
    fix a b assume m: "a \<in> set (late_class plan r)" "b \<in> set (late_class plan r)" and v: "value_q a \<le> value_q b"
    have "timestamp_us a = timestamp_us b" "tenant a = tenant b" "series a = series b"
      using late_class_rows [OF m(1) assms] late_class_rows [OF m(2) assms] by simp_all
    with v show "(row_key \<circ> exact_row) a \<le> (row_key \<circ> exact_row) b" by (simp add: row_key_exact)
  qed
  then show ?thesis by (simp add: sorted_map)
qed

lemma sorted_late: "sorted (map (row_key \<circ> exact_row) (concat (map (late_class plan) (remainders plan))))"
proof -
  let ?ts = "\<lambda>r. timestamp_us (late_row r (sp_base_us plan))"
  have "sorted (map (late_key plan) (remainders plan))" by (simp add: remainders_def)
  then have "sorted_wrt (\<lambda>a b. late_key plan a \<le> late_key plan b \<and> a \<noteq> b) (remainders plan)"
    unfolding sorted_map by (rule sorted_wrt_distinct [OF _ distinct_remainders])
  then have "sorted_wrt (\<lambda>a b. ?ts a < ?ts b) (remainders plan)"
  proof (rule sorted_wrt_mono_rel [rotated])
    fix a b assume r: "a \<in> set (remainders plan)" "b \<in> set (remainders plan)" and k: "late_key plan a \<le> late_key plan b \<and> a \<noteq> b"
    from r k have "a mod 1024 \<noteq> b mod 1024" by (simp add: set_remainders)
    then have "?ts a \<noteq> ?ts b" by (simp only: late_ts_eq_iff not_False_eq_True)
    moreover from k have "?ts a \<le> ?ts b" unfolding late_key_def Let_def by (simp only: less_eq_prod_simp order.strict_iff_order) blast
    ultimately show "?ts a < ?ts b" by (rule order.not_eq_order_implies_strict)
  qed
  then have "sorted_wrt (\<lambda>a b. \<forall>x \<in> set (map (row_key \<circ> exact_row) (late_class plan a)).
      \<forall>y \<in> set (map (row_key \<circ> exact_row) (late_class plan b)). x \<le> y) (remainders plan)"
  proof (rule sorted_wrt_mono_rel [rotated], intro ballI)
    fix a b x y
    assume r: "a \<in> set (remainders plan)" "b \<in> set (remainders plan)" and lt: "?ts a < ?ts b"
      and xy: "x \<in> set (map (row_key \<circ> exact_row) (late_class plan a))" "y \<in> set (map (row_key \<circ> exact_row) (late_class plan b))"
    from r have "0 \<le> a" "a < 1024" "0 \<le> b" "b < 1024" by (simp_all add: set_remainders)
    note shared = late_class_rows(1) [OF _ this(1,2)] late_class_rows(1) [OF _ this(3,4)]
    obtain m n where m: "m \<in> set (late_class plan a)" "x = row_key (exact_row m)" and n: "n \<in> set (late_class plan b)" "y = row_key (exact_row n)"
      using xy by auto
    have "timestamp_us m < timestamp_us n" unfolding shared(1) [OF m(1)] shared(2) [OF n(1)] by (rule lt)
    then show "x \<le> y" unfolding m(2) n(2) row_key_exact by simp
  qed
  then have "sorted (concat (map (\<lambda>r. map (row_key \<circ> exact_row) (late_class plan r)) (remainders plan)))"
    by (rule sorted_concat_map) (rule sorted_late_class; simp add: set_remainders)
  then show ?thesis by (simp add: map_concat comp_def)
qed

lemma sorted_initial: "sorted (map (row_key \<circ> exact_row) (map (\<lambda>i. measurement_row i base) [0..n - 1]))"
proof -
  have "sorted_wrt (<) [0..n - 1]" by simp
  then have "sorted_wrt (\<lambda>i j. (row_key \<circ> exact_row) (measurement_row i base) \<le> (row_key \<circ> exact_row) (measurement_row j base)) [0..n - 1]"
  proof (rule sorted_wrt_mono_rel [rotated])
    fix i j :: int assume "i < j"
    then have "timestamp_us (measurement_row i base) < timestamp_us (measurement_row j base)" by (rule measurement_ts_strict_mono)
    then show "(row_key \<circ> exact_row) (measurement_row i base) \<le> (row_key \<circ> exact_row) (measurement_row j base)"
      unfolding comp_def row_key_exact by (simp del: measurement_row_simps)
  qed
  then show ?thesis unfolding sorted_map sorted_wrt_map .
qed

text \<open>
  C12: the verifier's expectation is complete and in query order: the rows it generates are exactly
  the acknowledged late rows and the initial rows of the data set, with their multiplicities, and
  they come sorted by timestamp, tenant, series, value and tags, although the late stream is
  generated class by class and repeats timestamps.
\<close>

theorem expected_rows_exact:
  "mset (expected_rows plan) =
     mset (map exact_row (map (\<lambda>i. late_row i (sp_base_us plan)) [0..sp_late_rows plan - 1])) +
     mset (map exact_row (map (\<lambda>i. measurement_row i (sp_base_us plan)) [0..sp_initial_rows plan - 1])) \<and>
   sorted (map row_key (expected_rows plan))"
proof -
  let ?late = "concat (map (late_class plan) (remainders plan))"
  let ?init = "map (\<lambda>i. measurement_row i (sp_base_us plan)) [0..sp_initial_rows plan - 1]"
  have "row_key (exact_row l) \<le> row_key (exact_row m)" if l: "l \<in> set ?late" and m: "m \<in> set ?init" for l m
  proof -
    have "l \<in># mset ?late" using l by (simp only: set_mset_mset)
    then obtain i where "l = late_row i (sp_base_us plan)" unfolding mset_late_rows by auto
    then have "timestamp_us l < sp_base_us plan" using late_ts_bounds(2) [of i "sp_base_us plan"] by (simp del: late_row_simps)
    moreover obtain j where "m = measurement_row j (sp_base_us plan)" "0 \<le> j" using m by auto
    then have "sp_base_us plan \<le> timestamp_us m" using measurement_ts_ge by (simp del: measurement_row_simps)
    ultimately have "timestamp_us l < timestamp_us m" by linarith
    then show ?thesis unfolding row_key_exact by simp
  qed
  then have "sorted (map (row_key \<circ> exact_row) (?late @ ?init))"
    using sorted_late [of plan] sorted_initial [of "sp_base_us plan" "sp_initial_rows plan"]
    unfolding map_append sorted_append by auto
  moreover have "mset (expected_rows plan) = image_mset exact_row (mset ?late) + mset (map exact_row ?init)"
    unfolding expected_rows_def by simp
  ultimately show ?thesis unfolding expected_rows_def mset_late_rows by (simp add: comp_def multiset.map_comp)
qed

section \<open>The paged comparison accepts exactly the expected tables\<close>

text \<open>A server whose answers are the pages of one list of rows.\<close>

definition serves :: "'w fetch \<Rightarrow> json list \<Rightarrow> bool" where
  "serves fetch rows \<longleftrightarrow> (\<forall>offset limit w. fetch offset limit w = (Inr (take limit (drop offset rows)), w))"

definition page_matches :: "(json \<Rightarrow> 'a result) \<Rightarrow> nat \<Rightarrow> 'a list \<Rightarrow> nat \<Rightarrow> json list \<Rightarrow> bool" where
  "page_matches norm_row offset wanted limit rows \<longleftrightarrow> emap norm_row (take limit (drop offset rows)) = Inr wanted"

lemma check_page_serves:
  assumes "serves fetch rows"
  shows "\<exists>r. check_page label render norm_row offset wanted limit (backend, fetch) w = (r, w) \<and>
    (r = Inr () \<longleftrightarrow> page_matches norm_row offset wanted limit rows)"
  using assms
  by (cases "emap norm_row (take limit (drop offset rows))") (auto simp: check_page_def serves_def page_matches_def io_bind_def)

lemma check_pages_serve:
  assumes "list_all2 (\<lambda>(_, fetch) rows. serves fetch rows) backends tables"
  shows "\<exists>r. io_iter (check_page label render norm_row offset wanted limit) backends w = (r, w) \<and>
    (r = Inr () \<longleftrightarrow> list_all (page_matches norm_row offset wanted limit) tables)"
  using assms
proof (induction rule: list_all2_induct)
  case (Cons b bs rows tables)
  obtain backend fetch where b: "b = (backend, fetch)" by (cases b)
  obtain r where r: "check_page label render norm_row offset wanted limit b w = (r, w)" "r = Inr () \<longleftrightarrow> page_matches norm_row offset wanted limit rows"
    using check_page_serves [of fetch rows label render norm_row offset wanted limit backend w] Cons.hyps(1) by (auto simp: b)
  from Cons.IH r show ?case by (cases r) (auto simp: io_then_def io_bind_def)
qed (simp add: io_return_def)

lemma emap_append: "emap f (xs @ ys) = ebind (emap f xs) (\<lambda>us. ebind (emap f ys) (\<lambda>vs. Inr (us @ vs)))"
  by (induction xs) (auto simp: ebind_def split: sum.splits)

lemma emap_length: "emap f xs = Inr ys \<Longrightarrow> length xs = length ys"
  by (simp add: emap_Inr_iff list_all2_lengthD)

text \<open>A table from which the first rows are already verified is right exactly if its next page and its rest are.\<close>

lemma emap_split: "emap f xs = Inr ys \<longleftrightarrow> emap f (take n xs) = Inr (take n ys) \<and> emap f (drop n xs) = Inr (drop n ys)"
proof
  assume "emap f xs = Inr ys"
  then show "emap f (take n xs) = Inr (take n ys) \<and> emap f (drop n xs) = Inr (drop n ys)"
    by (simp add: emap_Inr_iff list_all2_takeI list_all2_dropI)
next
  assume "emap f (take n xs) = Inr (take n ys) \<and> emap f (drop n xs) = Inr (drop n ys)"
  then show "emap f xs = Inr ys" using emap_append [of f "take n xs" "drop n xs"] by simp
qed

lemma page_split:
  "emap f (drop offset rows) = Inr expected \<longleftrightarrow> page_matches f offset (take n expected) n rows \<and>
     emap f (drop (offset + length (take n expected)) rows) = Inr (drop n expected)"
proof -
  have "drop n (drop offset rows) = drop (offset + length (take n expected)) rows"
    if "emap f (take n (drop offset rows)) = Inr (take n expected)"
    using emap_length [OF that] by (simp add: min_def add.commute split: if_splits)
  then show ?thesis unfolding page_matches_def emap_split [of f "drop offset rows" expected n] by auto
qed

lemma verify_pages_serve:
  assumes "list_all2 (\<lambda>(_, fetch) rows. serves fetch rows) backends tables" "0 < page_size"
  shows "\<exists>r. verify_pages label render norm_row page_size backends expected offset pages w = (r, w) \<and>
    ((\<exists>p. r = Inr p) \<longleftrightarrow> list_all (\<lambda>rows. emap norm_row (drop offset rows) = Inr expected) tables) \<and>
    (\<forall>p. r = Inr p \<longrightarrow> fst p = offset + length expected)"
proof (induction "length expected" arbitrary: expected offset pages rule: less_induct)
  case less
  let ?wanted = "take page_size expected" and ?limit = "if take page_size expected \<noteq> [] then page_size else 1"
  obtain r where run: "io_iter (check_page label render norm_row offset ?wanted ?limit) backends w = (r, w)"
    and r: "r = Inr () \<longleftrightarrow> list_all (page_matches norm_row offset ?wanted ?limit) tables"
    using check_pages_serve [OF assms(1)] by blast
  have step: "verify_pages label render norm_row page_size backends expected offset pages w = (case r of
      Inl e \<Rightarrow> (Inl e, w)
    | Inr _ \<Rightarrow> if ?wanted = [] then (Inr (offset, pages), w)
        else verify_pages label render norm_row page_size backends (drop page_size expected) (offset + length ?wanted) (Suc pages) w)"
    by (subst verify_pages.simps) (cases r; simp add: run io_then_def io_bind_def Let_def del: take_eq_Nil)
  show ?case
  proof (cases "expected = []")
    case True
    have "page_matches norm_row offset [] 1 rows \<longleftrightarrow> emap norm_row (drop offset rows) = Inr []" for rows
      by (cases "drop offset rows") (auto simp: page_matches_def result_simps)
    with True step r show ?thesis by (cases r) (auto simp: list_all_iff)
  next
    case False
    then have shorter: "length (drop page_size expected) < length expected" and some: "?wanted \<noteq> []"
      using assms(2) by (cases expected; simp)+
    obtain r' where run': "verify_pages label render norm_row page_size backends (drop page_size expected) (offset + length ?wanted) (Suc pages) w = (r', w)"
      and r': "(\<exists>p. r' = Inr p) \<longleftrightarrow> list_all (\<lambda>rows. emap norm_row (drop (offset + length ?wanted) rows) = Inr (drop page_size expected)) tables"
      and len: "\<forall>p. r' = Inr p \<longrightarrow> fst p = offset + length ?wanted + length (drop page_size expected)"
      using less [OF shorter, of "offset + length ?wanted" "Suc pages"] by blast
    have "length ?wanted + length (drop page_size expected) = length expected" by simp
    with len have len': "\<forall>p. r' = Inr p \<longrightarrow> fst p = offset + length expected" by (simp only: add.assoc)
    have right: "list_all (\<lambda>rows. emap norm_row (drop offset rows) = Inr expected) tables \<longleftrightarrow> r = Inr () \<and> (\<exists>p. r' = Inr p)"
      unfolding r r' page_split [of norm_row offset _ expected page_size] if_P [OF some] by (auto simp: list_all_iff)
    show ?thesis
    proof (cases r)
      case (Inl e)
      with step right show ?thesis by simp
    next
      case (Inr u)
      with step run' some right len' show ?thesis by simp
    qed
  qed
qed

text \<open>
  C13: against servers that answer every page query with the requested page of one list of rows, the
  paged comparison returns exactly if every server's rows normalise to the expected rows, in order
  and with no row missing or left over; then it reports their number. A wrong, missing or additional
  row is found wherever it lies relative to the page boundaries.
\<close>

theorem verify_paged_iff:
  assumes "list_all2 (\<lambda>(_, fetch) rows. serves fetch rows) backends tables" "1 \<le> page_size" "page_size \<le> 4096"
  shows "((\<exists>result w'. verify_paged label render expected backends norm_row page_size w = (Inr result, w')) \<longleftrightarrow>
      (\<forall>rows \<in> set tables. emap norm_row rows = Inr expected)) \<and>
    (\<forall>result w'. verify_paged label render expected backends norm_row page_size w = (Inr result, w') \<longrightarrow>
      w' = w \<and> dget result ''rows'' = JInt (int (length expected)))"
proof -
  obtain r where r: "verify_pages label render norm_row page_size backends expected 0 0 w = (r, w)"
      "(\<exists>p. r = Inr p) \<longleftrightarrow> (\<forall>rows \<in> set tables. emap norm_row rows = Inr expected)" "\<forall>p. r = Inr p \<longrightarrow> fst p = length expected"
    using verify_pages_serve [OF assms(1), of page_size label render norm_row expected 0 0 w] assms(2) by (auto simp: list_all_iff)
  then show ?thesis using assms(2,3) by (cases r) (auto simp: verify_paged_def PAGE_ROWS_def io_bind_def dget_def)
qed

definition serve :: "json list \<Rightarrow> unit fetch" where
  "serve rows offset limit w = (Inr (take limit (drop offset rows)), w)"

abbreviation small_plan :: SourcePlan where
  "small_plan \<equiv> \<lparr>sp_source = [], sp_names = example_names, sp_base_us = 60000000, sp_initial_rows = 2, sp_late_rows = 1,
     sp_source_state = ''passed'', sp_report_sha256 = [], sp_hashes = []\<rparr>"

definition small_table :: "json list" where
  "small_table = map m_varve [late_row 0 60000000, measurement_row 0 60000000, measurement_row 1 60000000]"

theorem verify_paged_iff_witness:
  "\<exists>result w'. verify_paged ''raw'' show_row (expected_rows small_plan) [(''Varve'', serve small_table), (''Timescale'', serve small_table)]
     normalize_raw 2 () = (Inr result, w')"
proof -
  have rows: "emap normalize_raw small_table = Inr (expected_rows small_plan)" by code_simp
  show ?thesis
    by (rule iffD2 [OF conjunct1 [OF verify_paged_iff [of _ "[small_table, small_table]"]]])
      (simp_all add: rows serves_def serve_def)
qed

end
