(* ===== verification/Exact_Main.thy ===== *)
theory Exact_Main
  imports Exact_Rows
begin

text \<open>
  The third part of the exact verifier (\<^verbatim>\<open>verify_exact.py\<close>): the independent minute aggregates, the
  check of the report's fingerprints, the comparison with both servers, and the entry point. The
  verifier's own files, paths and environment are a parameter, as are both servers.
\<close>

section \<open>Independent aggregates\<close>

record QuarterStats =
  qs_count :: int
  qs_sum_q :: int
  qs_min_q :: "int option"
  qs_max_q :: "int option"

definition no_quarters :: QuarterStats where
  "no_quarters = \<lparr>qs_count = 0, qs_sum_q = 0, qs_min_q = None, qs_max_q = None\<rparr>"

definition quarter_add :: "QuarterStats \<Rightarrow> ExactRow \<Rightarrow> QuarterStats" where
  "quarter_add s row =
     (let q = er_value_q row in
      \<lparr>qs_count = qs_count s + 1, qs_sum_q = qs_sum_q s + q,
       qs_min_q = Some (case qs_min_q s of None \<Rightarrow> q | Some m \<Rightarrow> min m q),
       qs_max_q = Some (case qs_max_q s of None \<Rightarrow> q | Some m \<Rightarrow> max m q)\<rparr>)"

text \<open>The division of an integer by 4 is rounded once.\<close>

definition quarter_value :: "int \<Rightarrow> json" where
  "quarter_value q = JFloat (Fin (fl (of_int q / 4)))"

definition quarter_report :: "QuarterStats \<Rightarrow> dict" where
  "quarter_report s = [
     (''count'', JInt (qs_count s)), (''sum'', quarter_value (qs_sum_q s)),
     (''min'', case qs_min_q s of None \<Rightarrow> JNull | Some q \<Rightarrow> quarter_value q),
     (''max'', case qs_max_q s of None \<Rightarrow> JNull | Some q \<Rightarrow> quarter_value q)]"

type_synonym group_key = "int \<times> string \<times> string \<times> string"
type_synonym groups = "(group_key \<times> QuarterStats) list"

definition group_of :: "ExactRow \<Rightarrow> group_key" where
  "group_of row = ((er_timestamp_us row div BUCKET_US) * BUCKET_US, er_tenant row, er_series row, er_tags row)"

fun group_add :: "groups \<Rightarrow> group_key \<Rightarrow> ExactRow \<Rightarrow> groups" where
  "group_add [] key row = [(key, quarter_add no_quarters row)]"
| "group_add ((k, s) # gs) key row = (if k = key then (k, quarter_add s row) # gs else (k, s) # group_add gs key row)"

primrec aggregate_rows :: "'w services \<Rightarrow> Deadline \<Rightarrow> int \<Rightarrow> ExactRow list \<Rightarrow> groups \<Rightarrow> QuarterStats \<Rightarrow> ('w, groups \<times> QuarterStats) io" where
  "aggregate_rows sv deadline index [] gs global = io_return (gs, global)"
| "aggregate_rows sv deadline index (row # rows) gs global =
     (let global' = quarter_add global row; gs' = group_add gs (group_of row) row in
      if int (length gs') > MAX_AGGREGATE_GROUPS
      then io_raise (RuntimeError ''independent aggregate expectation exceeded its group bound'')
      else
        io_then (if index mod PAGE_ROWS = 0 then io_then (io_timeout sv deadline 1) (io_return ()) else io_return ())
        (aggregate_rows sv deadline (index + 1) rows gs' global'))"

definition aggregate_row :: "group_key \<times> QuarterStats \<Rightarrow> AggregateRow result" where
  "aggregate_row = (\<lambda>(key, s). case (qs_min_q s, qs_max_q s) of
     (Some low, Some high) \<Rightarrow> Inr (key, qs_count s, qs_sum_q s, low, high)
   | _ \<Rightarrow> Inl (TypeError ''int() argument must be a string, a bytes-like object or a real number''))"

definition build_aggregates :: "'w services \<Rightarrow> SourcePlan \<Rightarrow> Deadline \<Rightarrow> ('w, AggregateRow list \<times> QuarterStats \<times> int) io" where
  "build_aggregates sv plan deadline =
     io_bind (aggregate_rows sv deadline 1 (expected_rows plan) [] no_quarters) (\<lambda>(gs, global).
     io_bind (io_lift (emap aggregate_row (sort_key fst gs))) (\<lambda>rows.
     io_then (io_timeout sv deadline 1)
     (io_return (rows, global, max_late_class_values plan))))"

section \<open>The fingerprints of the report\<close>

definition backend_fingerprint :: "dict \<Rightarrow> dict \<Rightarrow> string \<Rightarrow> dict result" where
  "backend_fingerprint fingerprints expected_raw backend =
     (let no_identity = RuntimeError ''source final fingerprint identity is absent'' in
      case dget fingerprints backend of
        JObj item \<Rightarrow>
          (case dget item ''database_identity'' of
             JObj identity \<Rightarrow>
               (case dget item ''raw'' of
                  JObj raw \<Rightarrow>
                    ebind (eiter (\<lambda>(k, v). guard (py_eq (dget raw k) v)
                            (RuntimeError ''source final fingerprint differs from reconstruction'')) expected_raw) (\<lambda>_.
                    ebind (canonical_json_sha256 (JObj raw)) (\<lambda>raw_sha256.
                    ebind (guard (py_eq (dget item ''raw_sha256'') (JStr raw_sha256))
                            (RuntimeError ''source final raw hash differs'')) (\<lambda>_.
                    ebind (canonical_json_sha256 (JObj [(''database_identity'', JObj identity), (''raw'', JObj raw)])) (\<lambda>material_sha256.
                    ebind (guard (py_eq (dget item ''fingerprint_sha256'') (JStr material_sha256))
                            (RuntimeError ''source final identity fingerprint differs'')) (\<lambda>_.
                    Inr raw)))))
                | _ \<Rightarrow> Inl (RuntimeError ''source final raw fingerprint is absent''))
           | _ \<Rightarrow> Inl no_identity)
      | _ \<Rightarrow> Inl no_identity)"

definition verify_report_fingerprints :: "SourcePlan \<Rightarrow> QuarterStats \<Rightarrow> unit result" where
  "verify_report_fingerprints plan stats =
     (let expected_raw = quarter_report stats; oracle_differs = RuntimeError ''source global oracle differs from independent reconstruction'' in
      case dget (sp_source plan) ''final_raw_fingerprints'' of
        JObj fingerprints \<Rightarrow>
          (case dget (sp_source plan) ''oracles'' of
             JObj oracle \<Rightarrow>
               ebind (guard (py_eq (dget oracle ''global'') (JObj expected_raw)) oracle_differs) (\<lambda>_.
               ebind (backend_fingerprint fingerprints expected_raw ''varve'') (\<lambda>common_raw.
               ebind (backend_fingerprint fingerprints expected_raw ''timescale'') (\<lambda>raw.
               guard (py_eq (JObj raw) (JObj common_raw)) (RuntimeError ''source backend raw fingerprints differ''))))
           | _ \<Rightarrow> Inl oracle_differs)
      | _ \<Rightarrow> Inl (RuntimeError ''source report lacks final raw fingerprints''))"

section \<open>The comparison with the servers\<close>

definition identity_stmt :: statement where
  "identity_stmt = [Sql (''SELECT current_database() AS database_name, d.oid::bigint AS database_oid, '' @
     ''n.nspname AS schema_name, n.oid::bigint AS schema_oid '' @
     ''FROM pg_database d CROSS JOIN pg_namespace n '' @
     ''WHERE d.datname = current_database() AND n.nspname = %s'')]"

definition current_identities :: "'w services \<Rightarrow> VarveClient \<Rightarrow> TimescaleClient \<Rightarrow> Names \<Rightarrow> ('w, dict) io" where
  "current_identities sv vc pc names =
     io_bind (varve_request sv vc ''GET'' ''/v1/status'' None) (\<lambda>status.
     case (case status of JObj d \<Rightarrow> dget d ''database_id'' | _ \<Rightarrow> JNull) of
       JStr database_id \<Rightarrow>
         if database_id = [] then io_raise (RuntimeError ''Varve database identity is absent'')
         else
           io_bind (pg_query sv pc identity_stmt [JStr (pg_schema names)]) (\<lambda>rows.
           case rows of
             [row] \<Rightarrow> io_return [(''varve'', JObj [(''database_id'', JStr database_id)]), (''timescale'', row)]
           | _ \<Rightarrow> io_raise (RuntimeError ''Timescale database identity is absent''))
     | _ \<Rightarrow> io_raise (RuntimeError ''Varve database identity is absent''))"

text \<open>
  Closing at most \<open>CLEANUP_TIMEOUT\<close> seconds: a cancellation at the limit is a \<^verbatim>\<open>TimeoutError\<close>, any
  exception of a client becomes a \<^verbatim>\<open>RuntimeError\<close>.
\<close>

definition close_clients :: "'w services \<Rightarrow> TimescaleClient \<Rightarrow> ('w, unit) io" where
  "close_clients sv pc =
     io_catch (pg_close sv pc) (\<lambda>e. io_raise (if e = Cancelled then TimeoutError [] else RuntimeError ''verifier client cleanup failed''))"

definition varve_raw_page :: "'w services \<Rightarrow> VarveClient \<Rightarrow> Names \<Rightarrow> 'w fetch" where
  "varve_raw_page sv vc names offset limit =
     varve_sql sv vc (''SELECT timestamp_us, tenant, series, value, tags FROM '' @ varve_table names @ '' '' @
       ''ORDER BY timestamp_us, tenant, series, value, tags '' @
       ''LIMIT '' @ dec_nat limit @ '' OFFSET '' @ dec_nat offset)"

definition pg_page :: "'w services \<Rightarrow> TimescaleClient \<Rightarrow> string \<Rightarrow> sql_part \<Rightarrow> string \<Rightarrow> 'w fetch" where
  "pg_page sv pc columns relation order_by offset limit =
     pg_query sv pc [Sql columns, relation, Sql (order_by @ '' LIMIT ''), Lit (JInt (int limit)), Sql '' OFFSET '', Lit (JInt (int offset))] []"

definition pg_raw_page :: "'w services \<Rightarrow> TimescaleClient \<Rightarrow> Names \<Rightarrow> 'w fetch" where
  "pg_raw_page sv pc names = pg_page sv pc
     (''SELECT (extract(epoch FROM ts)*1000000)::bigint AS timestamp_us, '' @ ''tenant, series, value, tags FROM '')
     (qualified_name (pg_schema names) (pg_table names)) '' ORDER BY ts, tenant, series, value, tags''"

definition varve_aggregate_page :: "'w services \<Rightarrow> VarveClient \<Rightarrow> Names \<Rightarrow> 'w fetch" where
  "varve_aggregate_page sv vc names offset limit =
     varve_sql sv vc (''SELECT bucket_us, tenant, series, tags, count, sum, min, max '' @
       ''FROM '' @ varve_aggregate names @ '' '' @ ''ORDER BY bucket_us, tenant, series, tags '' @
       ''LIMIT '' @ dec_nat limit @ '' OFFSET '' @ dec_nat offset)"

definition pg_aggregate_page :: "'w services \<Rightarrow> TimescaleClient \<Rightarrow> Names \<Rightarrow> 'w fetch" where
  "pg_aggregate_page sv pc names = pg_page sv pc
     (''SELECT (extract(epoch FROM bucket)*1000000)::bigint AS bucket_us, '' @ ''tenant, series, tags, count, sum, min, max FROM '')
     (qualified_name (pg_schema names) (pg_aggregate names)) '' ORDER BY bucket, tenant, series, tags''"

definition same_identity :: "SourcePlan \<Rightarrow> dict \<Rightarrow> string \<Rightarrow> unit result" where
  "same_identity plan identities backend =
     ebind (dindex (sp_source plan) ''final_raw_fingerprints'') (\<lambda>fingerprints.
     ebind (dindex identities backend) (\<lambda>current.
     ebind (ebind (field fingerprints backend) (\<lambda>item. field item ''database_identity'')) (\<lambda>expected.
     guard (py_eq current expected) (RuntimeError (backend @ '' database identity differs from source final fingerprint'')))))"

definition compare_servers :: "'w services \<Rightarrow> VarveClient \<Rightarrow> TimescaleClient \<Rightarrow> SourcePlan \<Rightarrow> AggregateRow list \<Rightarrow> int \<Rightarrow> ('w, dict) io" where
  "compare_servers sv vc pc plan aggregates bound =
     io_bind (current_identities sv vc pc (sp_names plan)) (\<lambda>identities.
     io_then (io_lift (eiter (same_identity plan identities) [''varve'', ''timescale'']))
     (io_bind (verify_paged ''raw identity/multiplicity'' show_row (expected_rows plan)
        [(''Varve'', varve_raw_page sv vc (sp_names plan)), (''Timescale'', pg_raw_page sv pc (sp_names plan))]
        normalize_raw (nat PAGE_ROWS)) (\<lambda>raw_result.
     io_bind (verify_paged ''minute aggregate group'' show_group aggregates
        [(''Varve'', varve_aggregate_page sv vc (sp_names plan)), (''Timescale'', pg_aggregate_page sv pc (sp_names plan))]
        normalize_aggregate (nat PAGE_ROWS)) (\<lambda>aggregate_result.
     io_return [(''database_identities'', JObj identities), (''raw'', JObj raw_result), (''aggregates'', JObj aggregate_result),
       (''expected_iteration_bounds'', JObj [
          (''late_remainder_classes'', JInt (min SERIES_COUNT (sp_late_rows plan))),
          (''max_late_class_values'', JInt bound),
          (''aggregate_groups'', JInt (int (length aggregates))),
          (''aggregate_group_limit'', JInt MAX_AGGREGATE_GROUPS)])]))))"

text \<open>A failure while closing is reported only if the comparison itself did not fail.\<close>

definition close_after :: "'w services \<Rightarrow> TimescaleClient \<Rightarrow> ('w, 'a) io \<Rightarrow> ('w, 'a) io" where
  "close_after sv pc body = (\<lambda>w.
     case body w of (r, w1) \<Rightarrow>
       (case close_clients sv pc w1 of
          (Inr _, w2) \<Rightarrow> (r, w2)
        | (Inl e, w2) \<Rightarrow> (case r of
            Inr _ \<Rightarrow> (Inl e, w2)
          | Inl e1 \<Rightarrow> if is_exception e then (Inl e1, w2) else (Inl e, w2))))"

definition verify_remote :: "'w services \<Rightarrow> SourcePlan \<Rightarrow> credentials \<Rightarrow> Deadline \<Rightarrow> ('w, dict) io" where
  "verify_remote sv plan credentials deadline =
     io_bind (build_aggregates sv plan deadline) (\<lambda>(aggregates, global_stats, bound).
     io_then (io_lift (verify_report_fingerprints plan global_stats))
     (let vc = new_varve_client (cred credentials ''VARVE_URL'') deadline in
      (\<lambda>w. case open_client sv 0 (w, new_timescale_client credentials deadline) of
         (r, (w1, pc)) \<Rightarrow>
           close_after sv pc (case r of Inl e \<Rightarrow> io_raise e | Inr _ \<Rightarrow> compare_servers sv vc pc plan aggregates bound) w1)))"

section \<open>The entry point\<close>

definition result_base :: "SourcePlan \<Rightarrow> string \<Rightarrow> (string \<Rightarrow> nat list option) \<Rightarrow> dict result" where
  "result_base plan utc read_bytes =
     ebind (canonical_json_sha256 (dget (sp_source plan) ''final_raw_fingerprints'')) (\<lambda>fingerprints_sha256.
     ebind (dindex (sp_source plan) ''artifact'') (\<lambda>artifact.
     ebind (file_sha256 read_bytes ''verify_exact.py'') (\<lambda>own.
     Inr [(''format_version'', JInt 1),
          (''kind'', JStr ''supplemental_exact_verification''),
          (''state'', JStr ''running''),
          (''started_at'', JStr utc),
          (''run_id'', dget (sp_source plan) ''run_id''),
          (''source_report_sha256'', JStr (sp_report_sha256 plan)),
          (''source_final_fingerprints_sha256'', JStr fingerprints_sha256),
          (''source_artifact'', artifact),
          (''verifier_artifact'', JObj (dict_update [(''verify_exact.py'', JStr own)] (map (\<lambda>(k, h). (k, JStr h)) (sp_hashes plan)))),
          (''workload'', JObj [(''initial_rows'', JInt (sp_initial_rows plan)), (''acknowledged_late_rows'', JInt (sp_late_rows plan)),
             (''total_rows'', JInt (total_rows plan))]),
          (''verdict'', JObj [(''source_benchmark'', JStr (sp_source_state plan)), (''source_benchmark_preserved'', JBool True),
             (''performance_approval'', JBool False),
             (''statement'', JStr ''Exact verification is diagnostic only and does not promote or approve benchmark performance.'')]),
          (''execution'', JObj [(''query_workers'', JInt 1), (''query_order'', JStr ''sequential Varve then Timescale pages''),
             (''freshness'', JStr ''uses the source report existing fresh barrier; performs no refresh'')]),
          (''claim_boundary'', JObj [(''supplemental_not_replacement'', JBool True),
             (''verified'', JStr ''every deterministic raw identity, exact quarter value, empty tags, multiplicity, and every named minute count/sum/min/max group''),
             (''excluded'', JStr ''first/last/OHLC because independent receipt ordering does not prove equal-timestamp ties''),
             (''mutation_or_refresh'', JBool False), (''automatic_write_retries'', JInt 0)])])))"

record verifier_options =
  vo_report :: "string option"
  vo_output :: "string option"
  vo_max_seconds :: int

definition verifier_table :: "(string \<times> verifier_options action) list" where
  "verifier_table = [
     (''-h'', Help), (''--help'', Help),
     (''--report'', takes (\<lambda>s. Inr (py_path s)) (\<lambda>v. vo_report_update (\<lambda>_. Some v))),
     (''--output'', takes (\<lambda>s. Inr (py_path s)) (\<lambda>v. vo_output_update (\<lambda>_. Some v))),
     (''--max-seconds'', takes (\<lambda>s. parse_bounded_int s ''max-seconds'' 1 1800) (\<lambda>v. vo_max_seconds_update (\<lambda>_. v)))]"

text \<open>The report, the output and the time limit; both paths are required.\<close>

definition verifier_arguments :: "(string \<Rightarrow> bool) \<Rightarrow> (string \<Rightarrow> string) \<Rightarrow> string list \<Rightarrow> (string \<times> string \<times> int) result" where
  "verifier_arguments exists resolve argv =
     ebind (parse_args verifier_table argv False \<lparr>vo_report = None, vo_output = None, vo_max_seconds = 600\<rparr>) (\<lambda>ns.
     case (vo_report ns, vo_output ns) of
       (Some report, Some output) \<Rightarrow>
         if exists output \<or> resolve report = resolve output then usage_error else Inr (report, output, vo_max_seconds ns)
     | _ \<Rightarrow> usage_error)"

text \<open>
  What the process gives to the verifier: the file system as it sees it, whether the output could be
  created, the report and the files beside the verifier, and the environment.
\<close>

record verifier_process =
  vp_exists :: "string \<Rightarrow> bool"
  vp_resolve :: "string \<Rightarrow> string"
  vp_reserve :: "unit result"
  vp_is_file :: bool
  vp_size :: int
  vp_raw :: "nat list"
  vp_bytes :: "string \<Rightarrow> nat list option"
  vp_environ :: "string \<Rightarrow> string option"
  vp_bracket_ok :: "string \<Rightarrow> bool"

text \<open>The body of the result and the writes to the output so far.\<close>

record verifier_state =
  vs_body :: dict
  vs_ops :: "fs_op list"

type_synonym ('w, 'a) verifier = "('w \<times> verifier_state, 'a) io"

definition reserve_output :: "verifier_process \<Rightarrow> string \<Rightarrow> ('w, unit) verifier" where
  "reserve_output vp path =
     io_then (io_lift (vp_reserve vp)) (io_modify (\<lambda>s. s\<lparr>vs_ops := vs_ops s @ [Write path []]\<rparr>))"

definition write_output :: "string \<Rightarrow> ('w, unit) verifier" where
  "write_output path =
     io_bind io_get (\<lambda>s.
     if json_finite (JObj (vs_body s)) then io_modify (\<lambda>s. s\<lparr>vs_ops := vs_ops s @ [Write path (report_text (vs_body s))]\<rparr>)
     else io_raise (ValueError ''Out of range float values are not JSON compliant''))"

definition result_set :: "string \<Rightarrow> json \<Rightarrow> ('w, unit) verifier" where
  "result_set k v = io_modify (\<lambda>s. s\<lparr>vs_body := dset (vs_body s) k v\<rparr>)"

definition prepare_verification :: "'w services \<Rightarrow> verifier_process \<Rightarrow> string \<Rightarrow> ('w, SourcePlan \<times> credentials) verifier" where
  "prepare_verification sv vp output =
     io_bind (io_lift (load_source (vp_is_file vp) (vp_size vp) (vp_raw vp) (vp_bytes vp))) (\<lambda>plan.
     io_bind (io_on (sv_utc sv)) (\<lambda>utc.
     io_bind (io_lift (result_base plan utc (vp_bytes vp))) (\<lambda>body.
     io_then (io_modify (\<lambda>s. s\<lparr>vs_body := body\<rparr>))
     (io_then (write_output output)
     (io_bind (io_lift (load_credentials (vp_bracket_ok vp) (vp_environ vp))) (\<lambda>credentials.
     io_return (plan, credentials)))))))"

definition perform_verification :: "'w services \<Rightarrow> Deadline \<Rightarrow> string \<Rightarrow> int \<Rightarrow> SourcePlan \<Rightarrow> credentials \<Rightarrow> ('w, int) verifier" where
  "perform_verification sv deadline output max_seconds plan credentials =
     io_bind (io_on (io_timeout sv deadline (of_int max_seconds))) (\<lambda>_.
     io_bind (wait_for (io_on (verify_remote sv plan credentials deadline))) (\<lambda>checks.
     io_then (result_set ''checks'' (JObj checks))
     (io_then (result_set ''state'' (JStr ''passed''))
     (io_bind (io_on (sv_utc sv)) (\<lambda>utc.
     io_then (result_set ''finished_at'' (JStr utc))
     (io_then (write_output output) (io_return 0)))))))"

definition verification_failed :: "'w services \<Rightarrow> string \<Rightarrow> credentials \<Rightarrow> pyerror \<Rightarrow> ('w, int) verifier" where
  "verification_failed sv output credentials e =
     (let clean = (if credentials \<noteq> [] then clean_error credentials [e] else error_class e @ '': '' @ error_text e) in
      io_then (result_set ''state'' (JStr ''failed''))
      (io_bind (io_on (sv_utc sv)) (\<lambda>utc.
      io_then (result_set ''finished_at'' (JStr utc))
      (io_then (result_set ''failure'' (JStr (take 2000 clean)))
      (io_then (write_output output) (io_return 1))))))"

definition run_verification :: "'w services \<Rightarrow> verifier_process \<Rightarrow> Deadline \<Rightarrow> string \<Rightarrow> int \<Rightarrow> ('w, int) verifier" where
  "run_verification sv vp deadline output max_seconds = (\<lambda>w.
     case prepare_verification sv vp output w of
       (Inl e, w1) \<Rightarrow> verification_failed sv output [] e w1
     | (Inr (plan, credentials), w1) \<Rightarrow>
         io_catch (perform_verification sv deadline output max_seconds plan credentials) (verification_failed sv output credentials) w1)"

definition initial_result :: "string \<Rightarrow> dict" where
  "initial_result utc = [(''format_version'', JInt 1), (''kind'', JStr ''supplemental_exact_verification''), (''state'', JStr ''running''),
     (''started_at'', JStr utc)]"

definition verifier_main :: "'w services \<Rightarrow> verifier_process \<Rightarrow> string list \<Rightarrow> ('w, int) verifier" where
  "verifier_main sv vp argv =
     io_bind (io_lift (verifier_arguments (vp_exists vp) (vp_resolve vp) argv)) (\<lambda>(report, output, max_seconds).
     io_then (reserve_output vp output)
     (io_bind (io_on (sv_now sv)) (\<lambda>now.
     io_bind (io_lift (new_deadline (of_int max_seconds) now)) (\<lambda>deadline.
     io_bind (io_on (sv_utc sv)) (\<lambda>utc.
     io_then (io_modify (\<lambda>s. s\<lparr>vs_body := initial_result utc\<rparr>))
     (run_verification sv vp deadline output max_seconds))))))"

section \<open>What an accepted comparison means\<close>

text \<open>
  Whatever else the servers do, if each page query that returns gives a page of a fixed list of rows,
  a comparison that returns has seen the expected rows in every list.
\<close>

definition answers :: "'w fetch \<Rightarrow> json list \<Rightarrow> bool" where
  "answers fetch rows \<longleftrightarrow> (\<forall>offset limit w page w'. fetch offset limit w = (Inr page, w') \<longrightarrow> page = take limit (drop offset rows))"

lemma check_page_answers:
  assumes "answers fetch rows" "check_page label render norm_row offset wanted limit (backend, fetch) w = (Inr u, w')"
  shows "page_matches norm_row offset wanted limit rows"
proof -
  obtain page w1 where "fetch offset limit w = (Inr page, w1)" "emap norm_row page = Inr wanted"
    using assms(2) by (auto simp: check_page_def io_bind_Inr_iff split: if_splits)
  moreover from this(1) assms(1) have "page = take limit (drop offset rows)" unfolding answers_def by blast
  ultimately show ?thesis by (simp add: page_matches_def)
qed

lemma check_pages_answer:
  assumes "list_all2 (\<lambda>(_, fetch) rows. answers fetch rows) backends tables"
    "io_iter (check_page label render norm_row offset wanted limit) backends w = (Inr u, w')"
  shows "list_all (page_matches norm_row offset wanted limit) tables"
  using assms
proof (induction arbitrary: w rule: list_all2_induct)
  case (Cons b bs rows tables)
  obtain backend fetch where b: "b = (backend, fetch)" by (cases b)
  from Cons.prems obtain w1 where "check_page label render norm_row offset wanted limit b w = (Inr (), w1)"
      "io_iter (check_page label render norm_row offset wanted limit) bs w1 = (Inr u, w')"
    by (auto simp: io_then_Inr_iff)
  with Cons.IH Cons.hyps(1) check_page_answers show ?case by (auto simp: b)
qed simp

lemma verify_pages_answer:
  assumes "list_all2 (\<lambda>(_, fetch) rows. answers fetch rows) backends tables" "0 < page_size"
    "verify_pages label render norm_row page_size backends expected offset pages w = (Inr p, w')"
  shows "list_all (\<lambda>rows. emap norm_row (drop offset rows) = Inr expected) tables"
  using assms(3)
proof (induction "length expected" arbitrary: expected offset pages w rule: less_induct)
  case less
  let ?wanted = "take page_size expected" and ?limit = "if take page_size expected \<noteq> [] then page_size else 1"
  obtain u w1 where checked: "io_iter (check_page label render norm_row offset ?wanted ?limit) backends w = (Inr u, w1)"
    and rest: "(if ?wanted = [] then io_return (offset, pages)
       else verify_pages label render norm_row page_size backends (drop page_size expected) (offset + length ?wanted) (Suc pages)) w1 = (Inr p, w')"
    using less(2) by (subst (asm) verify_pages.simps) (simp only: Let_def io_then_Inr_iff, blast)
  note page = check_pages_answer [OF assms(1) checked]
  show ?case
  proof (cases "?wanted = []")
    case True
    then have "expected = []" using assms(2) by simp
    moreover have "emap norm_row (drop offset rows) = Inr []" if "page_matches norm_row offset [] 1 rows" for rows
      using that by (cases "drop offset rows") (auto simp: page_matches_def result_simps)
    ultimately show ?thesis using page by (auto simp: list_all_iff)
  next
    case False
    then have "length (drop page_size expected) < length expected" using assms(2) by (cases expected) simp_all
    from less(1) [OF this] rest False
    have "list_all (\<lambda>rows. emap norm_row (drop (offset + length ?wanted) rows) = Inr (drop page_size expected)) tables" by simp
    then show ?thesis using page False unfolding page_split [of norm_row offset _ expected page_size] by (auto simp: list_all_iff)
  qed
qed

lemma verify_paged_answer:
  assumes "list_all2 (\<lambda>(_, fetch) rows. answers fetch rows) backends tables"
    "verify_paged label render expected backends norm_row page_size w = (Inr result, w')"
  shows "list_all (\<lambda>rows. emap norm_row rows = Inr expected) tables"
proof -
  obtain p w1 where "0 < page_size" "verify_pages label render norm_row page_size backends expected 0 0 w = (Inr p, w1)"
    using assms(2) by (auto simp: verify_paged_def io_bind_Inr_iff split: if_splits)
  from verify_pages_answer [OF assms(1) this] show ?thesis by simp
qed

lemma compare_servers_sound:
  assumes "compare_servers sv vc pc plan aggregates bound w = (Inr result, w')"
    and "answers (varve_raw_page sv vc (sp_names plan)) varve_rows" "answers (pg_raw_page sv pc (sp_names plan)) pg_rows"
    and "answers (varve_aggregate_page sv vc (sp_names plan)) varve_groups" "answers (pg_aggregate_page sv pc (sp_names plan)) pg_groups"
  shows "emap normalize_raw varve_rows = Inr (expected_rows plan) \<and> emap normalize_raw pg_rows = Inr (expected_rows plan) \<and>
    emap normalize_aggregate varve_groups = Inr aggregates \<and> emap normalize_aggregate pg_groups = Inr aggregates"
proof -
  obtain r1 w1 w2 r2 w3 where
      raw: "verify_paged ''raw identity/multiplicity'' show_row (expected_rows plan)
        [(''Varve'', varve_raw_page sv vc (sp_names plan)), (''Timescale'', pg_raw_page sv pc (sp_names plan))]
        normalize_raw (nat PAGE_ROWS) w1 = (Inr r1, w2)"
    and agg: "verify_paged ''minute aggregate group'' show_group aggregates
        [(''Varve'', varve_aggregate_page sv vc (sp_names plan)), (''Timescale'', pg_aggregate_page sv pc (sp_names plan))]
        normalize_aggregate (nat PAGE_ROWS) w2 = (Inr r2, w3)"
    using assms(1) unfolding compare_servers_def io_then_def by (elim io_bindE)
  show ?thesis
    using verify_paged_answer [OF _ raw, of "[varve_rows, pg_rows]"] verify_paged_answer [OF _ agg, of "[varve_groups, pg_groups]"] assms(2-5)
    by simp
qed

end
