(* ===== verification/Stress_Client.thy ===== *)
theory Stress_Client
  imports Queries Arguments
begin

text \<open>
  The client of the stress probe (\<^verbatim>\<open>scripts/stress.py\<close>) with its bounded retries, and the read-only
  check of a probe's report (\<^verbatim>\<open>scripts/verify-stress.py\<close>). The opener of \<^verbatim>\<open>urllib\<close>, the clocks, the
  random identifiers and whether a host is a loopback address are parameters.
\<close>

section \<open>Helpers\<close>

definition probe_identifier :: "string \<Rightarrow> string \<Rightarrow> string" where
  "probe_identifier kind hex = kind @ take 16 hex"

definition literal :: "string \<Rightarrow> string" where
  "literal s = sq @ py_replace sq (sq @ sq) s @ sq"

definition probe_percentile :: "rat list \<Rightarrow> rat \<Rightarrow> json" where
  "probe_percentile durations fraction =
     (if durations = [] then JNull
      else JFloat (Fin (sort durations ! nat (percentile_index (length durations) fraction))))"

definition probe_latency :: "rat list \<Rightarrow> json" where
  "probe_latency durations = JObj [
     (''samples'', JInt (int (length durations))),
     (''p50_ms'', probe_percentile durations (fl (1 / 2))),
     (''p95_ms'', probe_percentile durations (fl (95 / 100))),
     (''p99_ms'', probe_percentile durations (fl (99 / 100))),
     (''max_ms'', if durations = [] then JNull else JFloat (Fin (Max (set durations))))]"

text \<open>The value of row \<open>i\<close> is a float division; all its values are exact.\<close>

definition row_value :: "int \<Rightarrow> rat" where
  "row_value i = fl (of_int (i mod 1000) / 8)"

definition probe_row :: "int \<Rightarrow> int \<Rightarrow> json" where
  "probe_row base_us i = JObj [
     (''timestamp_us'', JInt (base_us - i * 100)), (''tenant'', JStr ''stress''),
     (''series'', JStr (''cpu_'' @ dec_int (i mod 8))), (''value'', JFloat (Fin (row_value i))),
     (''tags'', JObj [(''region'', JStr (dec_int (i mod 3)))])]"

definition rows_for :: "int \<Rightarrow> int \<Rightarrow> int \<Rightarrow> json list" where
  "rows_for offset n base_us = map (probe_row base_us) [offset..offset + n - 1]"

text \<open>\<^verbatim>\<open>int(time.time() * 1000000)\<close>, and an identifier issued at that time.\<close>

definition micros :: "rat \<Rightarrow> int" where
  "micros t = trunc (fl (t * 1000000))"

definition timed_request_id :: "int \<Rightarrow> string \<Rightarrow> string" where
  "timed_request_id issued_us nonce = ''v1:'' @ dec_int issued_us @ '':'' @ nonce"

text \<open>\<open>loopback\<close> is \<^verbatim>\<open>ipaddress.ip_address(host).is_loopback\<close>, or nothing if the host is no address.\<close>

definition validate_target :: "(string \<Rightarrow> bool) \<Rightarrow> (string \<Rightarrow> bool option) \<Rightarrow> string \<Rightarrow> unit result" where
  "validate_target bracket_ok loopback url =
     ebind (urlsplit bracket_ok url) (\<lambda>parsed.
     if url_username parsed \<noteq> [] \<or> url_password parsed \<noteq> [] \<or> us_query parsed \<noteq> [] \<or> us_fragment parsed \<noteq> []
     then Inl (ValueError ''URL must not contain credentials, query or fragment'')
     else if us_scheme parsed = ''https'' \<and> url_hostname parsed \<noteq> [] then Inr ()
     else if us_scheme parsed = ''http'' \<and>
       (case loopback (url_hostname parsed) of Some yes \<Rightarrow> yes | None \<Rightarrow> url_hostname parsed = ''localhost'') then Inr ()
     else Inl (ValueError ''HTTPS required except for loopback testing''))"

section \<open>The client\<close>

text \<open>
  What opening a request can give: a response with its bytes, an HTTP error with what can be read of
  its body, a redirect (which the installed handler refuses), a failed or timed out connection, or
  another exception.
\<close>

datatype error_body = NoBody | Body "nat list" | Unreadable

datatype wire_reply = Response "nat list" | HttpFailure int error_body | Redirect | Unreachable | Raises pyerror

record 'w wire =
  wr_open :: "string \<Rightarrow> string option \<Rightarrow> rat \<Rightarrow> 'w \<Rightarrow> wire_reply \<times> 'w"
  wr_sleep :: "rat \<Rightarrow> 'w \<Rightarrow> 'w"
  wr_time :: "('w, rat) io"
  wr_monotonic :: "('w, rat) io"
  wr_hex :: "('w, string) io"

record Client =
  cl_base :: string
  cl_token :: string

text \<open>The programs of the client carry its counter of retries.\<close>

type_synonym ('w, 'a) probe = "('w \<times> nat, 'a) io"

definition new_client :: "(string \<Rightarrow> bool) \<Rightarrow> (string \<Rightarrow> bool option) \<Rightarrow> string \<Rightarrow> string \<Rightarrow> Client result" where
  "new_client bracket_ok loopback base token =
     ebind (validate_target bracket_ok loopback base) (\<lambda>_.
     ebind (guard (32 \<le> length token \<and> list_all (\<lambda>c. 33 \<le> (of_char c :: nat) \<and> (of_char c :: nat) \<le> 126) token)
             (ValueError ''VARVE_API_TOKEN must contain at least 32 visible ASCII characters'')) (\<lambda>_.
     Inr \<lparr>cl_base = rstrip_slash base, cl_token = token\<rparr>))"

definition RESPONSE_LIMIT :: nat where
  "RESPONSE_LIMIT = 2 * 1024 * 1024"

text \<open>\<^verbatim>\<open>json.loads\<close> of bytes; its exceptions are kinds of \<^verbatim>\<open>ValueError\<close>.\<close>

definition loads_bytes :: "nat list \<Rightarrow> json result" where
  "loads_bytes raw = (case utf8_decode raw of
     None \<Rightarrow> Inl (ValueError ''UnicodeDecodeError'')
   | Some s \<Rightarrow> (case loads s of Inl _ \<Rightarrow> Inl (ValueError ''JSONDecodeError'') | Inr v \<Rightarrow> Inr v))"

definition read_response :: "nat list \<Rightarrow> json result" where
  "read_response raw =
     (if RESPONSE_LIMIT < length raw then Inl (RuntimeError ''response exceeds probe limit'') else loads_bytes raw)"

text \<open>The message of the server, empty if there is none that can be read.\<close>

definition server_message :: "error_body \<Rightarrow> string" where
  "server_message body =
     (let of_raw = (\<lambda>raw. if length raw \<le> 2048 then
        (case loads_bytes raw of Inr (JObj d) \<Rightarrow> (case dget d ''error'' of JStr s \<Rightarrow> s | _ \<Rightarrow> []) | _ \<Rightarrow> []) else []) in
      case body of NoBody \<Rightarrow> of_raw [] | Body raw \<Rightarrow> of_raw (take 2049 raw) | Unreadable \<Rightarrow> [])"

definition retryable :: "int \<Rightarrow> bool" where
  "retryable code \<longleftrightarrow> code \<in> {429, 502, 503, 504}"

datatype outcome = Finished "json result" | Again

definition judge :: "bool \<Rightarrow> nat \<Rightarrow> wire_reply \<Rightarrow> outcome" where
  "judge retry attempt reply = (case reply of
     Response raw \<Rightarrow> Finished (read_response (take (RESPONSE_LIMIT + 1) raw))
   | HttpFailure code body \<Rightarrow>
       if \<not> retry \<or> attempt = 3 \<or> \<not> retryable code then Finished (Inl (HttpStatus code (server_message body))) else Again
   | Redirect \<Rightarrow> Finished (Inl (RuntimeError ''redirect refused to protect operator credentials''))
   | Unreachable \<Rightarrow>
       if \<not> retry \<or> attempt = 3
       then Finished (Inl (RuntimeError ''request failed after bounded retries; write outcome may be ambiguous'')) else Again
   | Raises e \<Rightarrow> Finished (Inl e))"

definition backoff :: "nat \<Rightarrow> rat" where
  "backoff attempt = fl (fl (5 / 100) * 2 ^ attempt)"

primrec try_attempts :: "'w wire \<Rightarrow> string \<Rightarrow> string option \<Rightarrow> rat \<Rightarrow> bool \<Rightarrow> nat list \<Rightarrow> ('w, json) probe" where
  "try_attempts wire url encoded timeout retry [] = io_raise (RuntimeError ''retry bound reached'')"
| "try_attempts wire url encoded timeout retry (attempt # rest) = (\<lambda>(w, retries).
     case wr_open wire url encoded timeout w of (reply, w1) \<Rightarrow>
       (case judge retry attempt reply of
          Finished r \<Rightarrow> (r, (w1, retries))
        | Again \<Rightarrow> try_attempts wire url encoded timeout retry rest (wr_sleep wire (backoff attempt) w1, Suc retries)))"

definition request :: "'w wire \<Rightarrow> Client \<Rightarrow> string \<Rightarrow> json option \<Rightarrow> bool \<Rightarrow> ('w, json) probe" where
  "request wire cl path body retry =
     io_bind (io_lift (case body of None \<Rightarrow> Inr None | Some v \<Rightarrow> ebind (dumps False True v) (\<lambda>s. Inr (Some s)))) (\<lambda>encoded.
     try_attempts wire (cl_base cl @ path) encoded 20 retry [0..<(if retry then 4 else 1)])"

definition probe_sql :: "'w wire \<Rightarrow> Client \<Rightarrow> string \<Rightarrow> bool \<Rightarrow> ('w, json) probe" where
  "probe_sql wire cl stmt retry = request wire cl ''/v1/query'' (Some (JObj [(''sql'', JStr stmt)])) retry"

text \<open>\<^verbatim>\<open>str\<close> of an exception of the client.\<close>

definition probe_error_text :: "pyerror \<Rightarrow> string" where
  "probe_error_text e = (case e of HttpStatus code _ \<Rightarrow> ''HTTP request failed with status '' @ dec_int code | _ \<Rightarrow> error_text e)"

text \<open>\<^verbatim>\<open>value[0]\<close>.\<close>

definition first_item :: "json \<Rightarrow> json result" where
  "first_item v = (case v of
     JList (x # _) \<Rightarrow> Inr x
   | JList [] \<Rightarrow> Inl (IndexError ''list index out of range'')
   | JStr (c # _) \<Rightarrow> Inr (JStr [c])
   | JStr [] \<Rightarrow> Inl (IndexError ''string index out of range'')
   | JObj _ \<Rightarrow> Inl (KeyError ''0'')
   | _ \<Rightarrow> Inl (TypeError ''not subscriptable''))"

definition probe_row_of :: "'w wire \<Rightarrow> Client \<Rightarrow> string \<Rightarrow> ('w, json) probe" where
  "probe_row_of wire cl stmt = io_bind (probe_sql wire cl stmt False) (\<lambda>v. io_lift (first_item v))"

definition raw_sql :: "string \<Rightarrow> string" where
  "raw_sql table = ''SELECT count(*) AS n, sum(value) AS total FROM '' @ table"

definition rolled_sql :: "string \<Rightarrow> string" where
  "rolled_sql aggregate = ''SELECT CAST(sum(count) AS BIGINT) AS n, sum(sum) AS total FROM '' @ aggregate"

section \<open>The check of a report\<close>

definition relation_name :: "json \<Rightarrow> string result" where
  "relation_name v =
     (let bad = ValueError ''report contains an invalid relation name'' in
      case v of
        JStr s \<Rightarrow> if s \<noteq> [] \<and> is_lower (hd s) \<and> list_all is_name_char (tl s) \<and> length s \<le> 63 then Inr s else Inl bad
      | _ \<Rightarrow> Inl bad)"

definition report_oracle :: "json \<Rightarrow> (json \<times> json) result" where
  "report_oracle report =
     (let bad = ValueError ''invalid report oracle'' in
      ebind (field report ''completed_rows'') (\<lambda>n.
      ebind (field report ''expected_sum'') (\<lambda>total.
      ebind (guard (case n of JInt i \<Rightarrow> 1 \<le> i \<and> i \<le> 500000 | _ \<Rightarrow> False) bad) (\<lambda>_.
      ebind (case total of
          JInt i \<Rightarrow> ebind (int_to_float i) (\<lambda>_. Inr ()) | JBool _ \<Rightarrow> Inr () | JFloat f \<Rightarrow> guard (is_finite f) bad | _ \<Rightarrow> Inl bad) (\<lambda>_.
      Inr (n, total))))))"

definition persisted_note :: string where
  "persisted_note = ''Read-only persisted-data check; invoke after observing an actual service restart to claim restart recovery.''"

definition verify_probe :: "'w wire \<Rightarrow> Client \<Rightarrow> json \<Rightarrow> ('w, dict) probe" where
  "verify_probe wire cl report =
     io_bind (io_lift (field report ''table'')) (\<lambda>table_json.
     io_bind (io_lift (field report ''aggregate'')) (\<lambda>aggregate_json.
     io_bind (io_lift (relation_name table_json)) (\<lambda>table.
     io_bind (io_lift (relation_name aggregate_json)) (\<lambda>aggregate.
     io_bind (io_lift (report_oracle report)) (\<lambda>(n, total).
     let expired = jget report ''retained_rollup_after_raw_expiration'' \<noteq> JNull;
         expected = JObj [(''n'', n), (''total'', total)];
         expected_raw = (if expired then JObj [(''n'', JInt 0), (''total'', JNull)] else expected) in
     io_bind (probe_row_of wire cl (raw_sql table)) (\<lambda>raw.
     io_bind (probe_row_of wire cl (rolled_sql aggregate)) (\<lambda>derived.
     if \<not> py_eq raw expected_raw \<or> \<not> py_eq derived expected
     then io_raise (RuntimeError ''persisted raw/aggregate oracle mismatch'')
     else
     io_bind (request wire cl ''/v1/status'' None False) (\<lambda>status.
     case status of
       JObj d \<Rightarrow>
         if dget d ''fenced'' \<noteq> JNull then io_raise (RuntimeError ''reopened database is fenced'')
         else io_return [(''table'', JStr table), (''aggregate'', JStr aggregate), (''raw'', raw), (''rollup'', derived),
           (''fenced'', JBool False),
           (''verified'', JList [JStr ''persisted_raw_count_sum'', JStr ''persisted_named_aggregate_count_sum'']),
           (''note'', JStr persisted_note)]
     | _ \<Rightarrow> io_raise (AttributeError ''get'')))))))))"

record check_options =
  co_url :: "string option"
  co_report :: "string option"

definition check_table :: "(string \<times> check_options action) list" where
  "check_table = [
     (''-h'', Help), (''--help'', Help),
     (''--url'', takes Inr (\<lambda>v. co_url_update (\<lambda>_. Some v))),
     (''--report'', takes (\<lambda>s. Inr (py_path s)) (\<lambda>v. co_report_update (\<lambda>_. Some v)))]"

text \<open>\<open>read_report\<close> gives the bytes of the report, of which at most one more than the limit are read.\<close>

definition check_main :: "'w wire \<Rightarrow> (string \<Rightarrow> bool) \<Rightarrow> (string \<Rightarrow> bool option) \<Rightarrow> (string \<Rightarrow> nat list option) \<Rightarrow> string option \<Rightarrow> string list \<Rightarrow> ('w, dict) probe" where
  "check_main wire bracket_ok loopback read_report token argv =
     io_bind (io_lift (
       ebind (parse_args check_table argv False \<lparr>co_url = None, co_report = None\<rparr>) (\<lambda>ns.
       case (co_url ns, co_report ns) of
         (Some url, Some path) \<Rightarrow>
           (case read_report path of
              None \<Rightarrow> Inl (OSError path)
            | Some bytes \<Rightarrow>
                ebind (guard (length (take (RESPONSE_LIMIT + 1) bytes) \<le> RESPONSE_LIMIT) (ValueError ''report exceeds size limit'')) (\<lambda>_.
                ebind (loads_bytes bytes) (\<lambda>report.
                ebind (new_client bracket_ok loopback url (case token of Some t \<Rightarrow> t | None \<Rightarrow> [])) (\<lambda>cl.
                Inr (report, cl)))))
       | _ \<Rightarrow> usage_error))) (\<lambda>(report, cl). verify_probe wire cl report)"

section \<open>Retries are bounded\<close>

text \<open>A wire that also records every request that is opened, with its reply.\<close>

type_synonym call = "string \<times> string option \<times> wire_reply"

definition logged :: "'w wire \<Rightarrow> ('w \<times> call list) wire" where
  "logged wire = \<lparr>
     wr_open = (\<lambda>url encoded timeout (w, calls).
       case wr_open wire url encoded timeout w of (reply, w1) \<Rightarrow> (reply, (w1, calls @ [(url, encoded, reply)]))),
     wr_sleep = (\<lambda>d (w, calls). (wr_sleep wire d w, calls)),
     wr_time = io_on (wr_time wire), wr_monotonic = io_on (wr_monotonic wire), wr_hex = io_on (wr_hex wire)\<rparr>"

definition may_retry :: "call \<Rightarrow> bool" where
  "may_retry = (\<lambda>(_, _, reply). case reply of Unreachable \<Rightarrow> True | HttpFailure code _ \<Rightarrow> retryable code | _ \<Rightarrow> False)"

text \<open>What a sequence of calls for one request looks like.\<close>

definition call_sequence :: "string \<Rightarrow> string option \<Rightarrow> nat \<Rightarrow> call list \<Rightarrow> json result \<Rightarrow> bool" where
  "call_sequence url encoded bound calls r \<longleftrightarrow>
     length calls \<le> bound \<and> list_all (\<lambda>(u, e, _). u = url \<and> e = encoded) calls \<and> list_all may_retry (butlast calls) \<and>
     (\<forall>v. r = Inr v \<longrightarrow> (\<exists>raw. calls \<noteq> [] \<and> last calls = (url, encoded, Response raw) \<and>
        read_response (take (RESPONSE_LIMIT + 1) raw) = Inr v))"

lemma judge_Again: "judge retry k reply = Again \<Longrightarrow> retry \<and> k \<noteq> 3 \<and> may_retry (url, encoded, reply)"
  by (cases reply) (auto simp: judge_def may_retry_def split: if_splits)

lemma judge_Inr: "judge retry k reply = Finished (Inr v) \<Longrightarrow> \<exists>raw. reply = Response raw \<and> read_response (take (RESPONSE_LIMIT + 1) raw) = Inr v"
  by (cases reply) (auto simp: judge_def split: if_splits)

lemma call_sequence_Cons:
  "may_retry (url, encoded, reply) \<Longrightarrow> call_sequence url encoded bound calls r \<Longrightarrow> call_sequence url encoded (Suc bound) ((url, encoded, reply) # calls) r"
  by (auto simp: call_sequence_def)

lemma try_attempts_calls:
  assumes "try_attempts (logged wire) url encoded timeout retry ks ((w, past), n) = (r, ((w', past'), n'))"
    "ks \<noteq> []" "\<not> retry \<or> last ks = 3"
  shows "\<exists>calls. past' = past @ calls \<and> call_sequence url encoded (length ks) calls r \<and> n' + 1 = n + length calls"
  using assms
proof (induction ks arbitrary: w past n)
  case (Cons k ks)
  obtain reply w1 where opened: "wr_open wire url encoded timeout w = (reply, w1)" by (metis prod.exhaust)
  show ?case
  proof (cases "judge retry k reply")
    case (Finished r')
    with Cons.prems(1) opened have "past' = past @ [(url, encoded, reply)]" "r = r'" "n' = n" by (simp_all add: logged_def)
    then show ?thesis using Finished judge_Inr by (auto simp: call_sequence_def)
  next
    case Again
    note again = judge_Again [OF Again, of url encoded]
    have ks: "ks \<noteq> []" "last ks = 3" using Cons.prems(3) again by (auto split: if_splits)
    have "try_attempts (logged wire) url encoded timeout retry ks ((wr_sleep wire (backoff k) w1, past @ [(url, encoded, reply)]), Suc n) =
        (r, ((w', past'), n'))"
      using Cons.prems(1) Again opened by (simp add: logged_def)
    from Cons.IH [OF this ks(1)] ks(2) obtain calls where calls: "past' = (past @ [(url, encoded, reply)]) @ calls"
        "call_sequence url encoded (length ks) calls r" "n' + 1 = Suc n + length calls"
      by auto
    with call_sequence_Cons [OF conjunct2 [OF conjunct2 [OF again]] calls(2)] show ?thesis
      by (intro exI [of _ "(url, encoded, reply) # calls"]) simp
  qed
qed simp


text \<open>A server that refuses the first connection and then answers an empty list.\<close>

definition flaky_wire :: "nat wire" where
  "flaky_wire = \<lparr>wr_open = (\<lambda>_ _ _ w. (if w = 0 then Unreachable else Response (utf8 ''[]''), Suc w)), wr_sleep = (\<lambda>_ w. w),
     wr_time = io_return 0, wr_monotonic = io_return 0, wr_hex = io_return []\<rparr>"


end
