(* ===== verification/Stress.thy ===== *)
theory Stress
  imports Stress_Client
begin

text \<open>
  The stress probe (\<^verbatim>\<open>scripts/stress.py\<close>): its writer and reader threads as a step relation over the
  shared counters, and the run around them. The threads may be scheduled in any way and the clock
  may show any time at each reading. The oracle the probe compares the server with is shown to be
  exact in every reachable state, although it is accumulated in floats in the order of the acknowledgements.
\<close>

section \<open>The command line\<close>

record 'u stress_args =
  sa_url :: 'u
  sa_rows :: int
  sa_batch :: int
  sa_concurrency :: int
  sa_seconds :: pyfloat
  sa_rate :: pyfloat
  sa_window :: int
  sa_expire :: bool

type_synonym stress_options = "string option stress_args"

definition int_arg :: "string \<Rightarrow> int result" where
  "int_arg s = (case py_int s of Some i \<Rightarrow> Inr i | None \<Rightarrow> Inl (ValueError s))"

definition float_arg :: "string \<Rightarrow> pyfloat result" where
  "float_arg s = (case py_float s of Some f \<Rightarrow> Inr f | None \<Rightarrow> Inl (ValueError s))"

definition stress_table :: "(string \<times> stress_options action) list" where
  "stress_table = [
     (''-h'', Help), (''--help'', Help),
     (''--url'', takes Inr (\<lambda>v. sa_url_update (\<lambda>_. Some v))),
     (''--rows'', takes int_arg (\<lambda>v. sa_rows_update (\<lambda>_. v))),
     (''--batch'', takes int_arg (\<lambda>v. sa_batch_update (\<lambda>_. v))),
     (''--concurrency'', takes int_arg (\<lambda>v. sa_concurrency_update (\<lambda>_. v))),
     (''--seconds'', takes float_arg (\<lambda>v. sa_seconds_update (\<lambda>_. v))),
     (''--rate'', takes float_arg (\<lambda>v. sa_rate_update (\<lambda>_. v))),
     (''--idempotency-window-seconds'', takes int_arg (\<lambda>v. sa_window_update (\<lambda>_. v))),
     (''--expire'', Flag (sa_expire_update (\<lambda>_. True)))]"

definition stress_defaults :: stress_options where
  "stress_defaults = \<lparr>sa_url = None, sa_rows = 100000, sa_batch = 256, sa_concurrency = 2, sa_seconds = Fin 60, sa_rate = Fin 4000,
     sa_window = 300, sa_expire = False\<rparr>"

definition float_within :: "rat \<Rightarrow> pyfloat \<Rightarrow> rat \<Rightarrow> bool" where
  "float_within lo f hi = (case f of Fin x \<Rightarrow> lo \<le> x \<and> x \<le> hi | _ \<Rightarrow> False)"

definition stress_limits :: "'u stress_args \<Rightarrow> bool" where
  "stress_limits a \<longleftrightarrow> 1 \<le> sa_rows a \<and> sa_rows a \<le> 500000 \<and> 1 \<le> sa_batch a \<and> sa_batch a \<le> 1000 \<and>
     1 \<le> sa_concurrency a \<and> sa_concurrency a \<le> 8 \<and> float_within 1 (sa_seconds a) 300 \<and> float_within 1 (sa_rate a) 20000 \<and>
     1 \<le> sa_window a \<and> sa_window a \<le> 3600"

definition with_url :: "'u stress_args \<Rightarrow> string \<Rightarrow> string stress_args" where
  "with_url a url = \<lparr>sa_url = url, sa_rows = sa_rows a, sa_batch = sa_batch a, sa_concurrency = sa_concurrency a,
     sa_seconds = sa_seconds a, sa_rate = sa_rate a, sa_window = sa_window a, sa_expire = sa_expire a\<rparr>"

definition stress_arguments :: "string list \<Rightarrow> string stress_args result" where
  "stress_arguments argv =
     ebind (parse_args stress_table argv False stress_defaults) (\<lambda>ns.
     case sa_url ns of
       None \<Rightarrow> usage_error
     | Some url \<Rightarrow> if stress_limits ns then Inr (with_url ns url) else usage_error)"

section \<open>Writers and readers\<close>

text \<open>What the threads share with each other and take from the run: the client, the table, the base time and the limits.\<close>

record 'w stress_job =
  sj_wire :: "'w wire"
  sj_client :: Client
  sj_table :: string
  sj_base_us :: int
  sj_rows :: int
  sj_batch :: int
  sj_started :: rat
  sj_deadline :: rat

datatype writer = Ready | Claimed int int | Gone

text \<open>
  The world and the client's counter of retries, the shared variables of the probe, the state of each
  thread, and a history: the acknowledged batches as offsets with counts.
\<close>

record 'w stress =
  sx_world :: 'w
  sx_retries :: nat
  sx_next :: int
  sx_rows :: int
  sx_sum :: rat
  sx_first :: "json option"
  sx_writes :: "rat list"
  sx_queries :: "rat list"
  sx_failures :: "string list"
  sx_stop :: bool
  sx_writers :: "writer list"
  sx_reading :: bool
  sx_acked :: "(int \<times> int) list"

definition stress_start :: "nat \<Rightarrow> 'w \<Rightarrow> nat \<Rightarrow> 'w stress" where
  "stress_start concurrency w retries = \<lparr>sx_world = w, sx_retries = retries, sx_next = 0, sx_rows = 0, sx_sum = 0, sx_first = None,
     sx_writes = [], sx_queries = [], sx_failures = [], sx_stop = False, sx_writers = replicate concurrency Ready, sx_reading = True,
     sx_acked = []\<rparr>"

text \<open>\<^verbatim>\<open>sum(row["value"] for row in batch)\<close>: floats added from the left. Every partial sum is exact,
  so the compensated summation of later interpreters gives the same sum.\<close>

definition batch_sum :: "int \<Rightarrow> int \<Rightarrow> rat" where
  "batch_sum offset n = foldl (\<lambda>acc i. fl (acc + row_value i)) 0 [offset..offset + n - 1]"

definition write_body :: "'w stress_job \<Rightarrow> int \<Rightarrow> int \<Rightarrow> string \<Rightarrow> json" where
  "write_body job offset n rid = JObj [(''table'', JStr (sj_table job)), (''request_id'', JStr rid),
     (''rows'', JList (rows_for offset n (sj_base_us job)))]"

definition check_receipt :: "json \<Rightarrow> dict result" where
  "check_receipt v = (case v of
     JObj receipt \<Rightarrow> ebind (guard (py_eq (dget receipt ''durability'') (JStr ''local_fsync'')) (RuntimeError ''missing local fsync receipt'')) (\<lambda>_.
       Inr receipt)
   | _ \<Rightarrow> Inl (AttributeError ''get''))"

definition check_duplicate :: "dict \<Rightarrow> json \<Rightarrow> unit result" where
  "check_duplicate receipt v = (case v of
     JObj d \<Rightarrow> guard (truthy (dget d ''duplicate'') \<and> py_eq (dget d ''sequence'') (dget receipt ''sequence''))
       (RuntimeError ''idempotency oracle failed'')
   | _ \<Rightarrow> Inl (AttributeError ''get''))"

text \<open>The write of a batch; the body of the first one is kept before it is submitted a second time.\<close>

definition submit_batch :: "'w stress_job \<Rightarrow> int \<Rightarrow> json \<Rightarrow> ('w \<times> nat) \<Rightarrow> (unit result \<times> json option) \<times> ('w \<times> nat)" where
  "submit_batch job offset body z =
     (case request (sj_wire job) (sj_client job) ''/v1/write'' (Some body) True z of
        (Inl e, z1) \<Rightarrow> ((Inl e, None), z1)
      | (Inr v, z1) \<Rightarrow>
          (case check_receipt v of
             Inl e \<Rightarrow> ((Inl e, None), z1)
           | Inr receipt \<Rightarrow>
               if offset \<noteq> 0 then ((Inr (), None), z1)
               else (case request (sj_wire job) (sj_client job) ''/v1/write'' (Some body) True z1 of
                  (Inl e, z2) \<Rightarrow> ((Inl e, Some body), z2)
                | (Inr v2, z2) \<Rightarrow> ((check_duplicate receipt v2, Some body), z2))))"

definition keep_first :: "json option \<Rightarrow> 'w stress \<Rightarrow> 'w stress" where
  "keep_first first s = (case first of None \<Rightarrow> s | Some body \<Rightarrow> s\<lparr>sx_first := Some body\<rparr>)"

definition at_wire :: "'w \<times> nat \<Rightarrow> 'w stress \<Rightarrow> 'w stress" where
  "at_wire z s = s\<lparr>sx_world := fst z, sx_retries := snd z\<rparr>"

definition claimed_batch :: "'w stress_job \<Rightarrow> 'w stress \<Rightarrow> int" where
  "claimed_batch job s = min (sj_batch job) (sj_rows job - sx_next s)"

definition write_acknowledged :: "nat \<Rightarrow> int \<Rightarrow> int \<Rightarrow> rat \<Rightarrow> 'w stress \<Rightarrow> 'w stress" where
  "write_acknowledged i offset n elapsed s = s\<lparr>sx_writes := sx_writes s @ [elapsed], sx_rows := sx_rows s + n,
     sx_sum := fl (sx_sum s + batch_sum offset n), sx_writers := (sx_writers s)[i := Ready], sx_acked := sx_acked s @ [(offset, n)]\<rparr>"

definition write_failed :: "nat \<Rightarrow> pyerror \<Rightarrow> 'w stress \<Rightarrow> 'w stress" where
  "write_failed i e s = s\<lparr>sx_failures := sx_failures s @ [probe_error_text e], sx_stop := True, sx_writers := (sx_writers s)[i := Gone]\<rparr>"

definition query_failed :: "pyerror \<Rightarrow> 'w stress \<Rightarrow> 'w stress" where
  "query_failed e s = s\<lparr>sx_failures := sx_failures s @ [''concurrent query: '' @ probe_error_text e], sx_stop := True\<rparr>"

text \<open>
  A writer leaves when it sees the stop event or the deadline, or when all rows are claimed; it claims
  the next rows, leaves again if the run ended while it waited for its time, or writes its batch. The
  reader queries until it sees the stop event, which the main thread sets after the writers left.
\<close>

inductive stress_step :: "'w stress_job \<Rightarrow> 'w stress \<Rightarrow> 'w stress \<Rightarrow> bool" for job where
  leave: "i < length (sx_writers s) \<Longrightarrow> sx_writers s ! i = Ready \<Longrightarrow> sx_stop s \<or> sj_deadline job \<le> now \<Longrightarrow>
    stress_step job s (s\<lparr>sx_writers := (sx_writers s)[i := Gone]\<rparr>)"
| exhausted: "i < length (sx_writers s) \<Longrightarrow> sx_writers s ! i = Ready \<Longrightarrow> \<not> sx_stop s \<Longrightarrow> now < sj_deadline job \<Longrightarrow>
    claimed_batch job s \<le> 0 \<Longrightarrow> stress_step job s (s\<lparr>sx_writers := (sx_writers s)[i := Gone]\<rparr>)"
| claim: "i < length (sx_writers s) \<Longrightarrow> sx_writers s ! i = Ready \<Longrightarrow> \<not> sx_stop s \<Longrightarrow> now < sj_deadline job \<Longrightarrow>
    n = claimed_batch job s \<Longrightarrow> 0 < n \<Longrightarrow>
    stress_step job s (s\<lparr>sx_writers := (sx_writers s)[i := Claimed (sx_next s) n], sx_next := sx_next s + n\<rparr>)"
| give_up: "i < length (sx_writers s) \<Longrightarrow> sx_writers s ! i = Claimed offset n \<Longrightarrow> sx_stop s \<or> sj_deadline job \<le> now \<Longrightarrow>
    stress_step job s (s\<lparr>sx_writers := (sx_writers s)[i := Gone]\<rparr>)"
| acknowledge: "i < length (sx_writers s) \<Longrightarrow> sx_writers s ! i = Claimed offset n \<Longrightarrow> \<not> sx_stop s \<Longrightarrow> now < sj_deadline job \<Longrightarrow>
    submit_batch job offset (write_body job offset n rid) (sx_world s, sx_retries s) = ((Inr (), first), z) \<Longrightarrow>
    stress_step job s (write_acknowledged i offset n elapsed (keep_first first (at_wire z s)))"
| failure: "i < length (sx_writers s) \<Longrightarrow> sx_writers s ! i = Claimed offset n \<Longrightarrow> \<not> sx_stop s \<Longrightarrow> now < sj_deadline job \<Longrightarrow>
    submit_batch job offset (write_body job offset n rid) (sx_world s, sx_retries s) = ((Inl e, first), z) \<Longrightarrow>
    stress_step job s (write_failed i e (keep_first first (at_wire z s)))"
| query: "sx_reading s \<Longrightarrow> \<not> sx_stop s \<Longrightarrow>
    probe_sql (sj_wire job) (sj_client job) (raw_sql (sj_table job)) True (sx_world s, sx_retries s) = (Inr v, z) \<Longrightarrow>
    stress_step job s ((at_wire z s)\<lparr>sx_queries := sx_queries s @ [elapsed]\<rparr>)"
| query_failure: "sx_reading s \<Longrightarrow> \<not> sx_stop s \<Longrightarrow>
    probe_sql (sj_wire job) (sj_client job) (raw_sql (sj_table job)) True (sx_world s, sx_retries s) = (Inl e, z) \<Longrightarrow>
    stress_step job s (query_failed e (at_wire z s))"
| reader_ends: "sx_reading s \<Longrightarrow> sx_stop s \<Longrightarrow> stress_step job s (s\<lparr>sx_reading := False\<rparr>)"
| writers_left: "list_all (\<lambda>x. x = Gone) (sx_writers s) \<Longrightarrow> stress_step job s (s\<lparr>sx_stop := True\<rparr>)"

inductive_cases stress_stepE: "stress_step job s s'"

abbreviation stress_run :: "'w stress_job \<Rightarrow> nat \<Rightarrow> 'w \<Rightarrow> nat \<Rightarrow> 'w stress \<Rightarrow> bool" where
  "stress_run job concurrency w retries s \<equiv> (stress_step job)\<^sup>*\<^sup>* (stress_start concurrency w retries) s"

section \<open>The run of the probe\<close>

text \<open>\<^verbatim>\<open>json.dumps\<close> with its default separators, of an object given by its keys and the texts of its values.\<close>

definition object_text :: "(string \<times> string) list \<Rightarrow> string" where
  "object_text items = ''{'' @ join_str '', '' (map (\<lambda>(k, v). enc_str False k @ '': '' @ v) items) @ ''}''"

definition config_text :: "int \<Rightarrow> string" where
  "config_text window_seconds = object_text [
     (''shards'', ''4''), (''window_us'', ''60000000''), (''rollup_widths_us'', ''[1000000, 60000000]''),
     (''archive_after_us'', ''15000000''), (''retention_us'', ''3600000000''),
     (''idempotency_window_us'', dec_int (window_seconds * 1000000))]"

definition create_objects :: "'w wire \<Rightarrow> Client \<Rightarrow> int \<Rightarrow> ('w, string \<times> string \<times> string) probe" where
  "create_objects wire cl window_seconds =
     io_bind (io_on (wr_hex wire)) (\<lambda>a. io_bind (io_on (wr_hex wire)) (\<lambda>b. io_bind (io_on (wr_hex wire)) (\<lambda>c.
     let table = probe_identifier ''stress_'' a; aggregate = probe_identifier ''agg_'' b; job = probe_identifier ''checkpoint_'' c in
     io_bind (probe_sql wire cl (''CALL varve_create_table('' @ literal table @ '','' @ literal (config_text window_seconds) @ '')'') False) (\<lambda>_.
     io_bind (probe_sql wire cl (''CALL varve_create_continuous_aggregate('' @ literal aggregate @ '','' @ literal table @ '',1000000)'') False) (\<lambda>_.
     io_bind (probe_sql wire cl (''CALL varve_create_job('' @ literal job @ '','' @ sq @ ''checkpoint'' @ sq @ '',2500000)'') False) (\<lambda>_.
     io_return (table, aggregate, job)))))))"

definition start_job :: "'w wire \<Rightarrow> Client \<Rightarrow> string stress_args \<Rightarrow> rat \<Rightarrow> string \<Rightarrow> ('w, 'w stress_job) probe" where
  "start_job wire cl a seconds table =
     io_bind (io_on (wr_time wire)) (\<lambda>t.
     io_bind (io_on (wr_monotonic wire)) (\<lambda>started.
     io_bind (io_on (wr_monotonic wire)) (\<lambda>now.
     io_return \<lparr>sj_wire = wire, sj_client = cl, sj_table = table, sj_base_us = micros t - 120000000, sj_rows = sa_rows a,
       sj_batch = sa_batch a, sj_started = started, sj_deadline = fl (now + seconds)\<rparr>)))"

text \<open>
  \<open>threads\<close> is the host: the state in which the pool has left and the wait for the reader has ended,
  with the world and the counter of retries.
\<close>

type_synonym 'w threads = "'w stress_job \<Rightarrow> nat \<Rightarrow> 'w \<times> nat \<Rightarrow> 'w stress"

definition run_threads :: "'w threads \<Rightarrow> 'w stress_job \<Rightarrow> nat \<Rightarrow> ('w, 'w stress) probe" where
  "run_threads threads job concurrency = (\<lambda>z. let s = threads job concurrency z in
     (if sx_reading s then Inl (RuntimeError ''query worker did not stop within its bound'') else Inr s, (sx_world s, sx_retries s)))"

definition check_threads :: "'w stress \<Rightarrow> unit result" where
  "check_threads s =
     (if sx_failures s \<noteq> [] then Inl (RuntimeError (''stress aborted: '' @ join_str ''; '' (take 4 (sx_failures s))))
      else if sx_rows s = 0 then Inl (RuntimeError ''probe did not complete any writes'')
      else Inr ())"

definition check_totals :: "'w stress \<Rightarrow> string \<Rightarrow> json \<Rightarrow> unit result" where
  "check_totals s label v =
     ebind (ebind (field v ''n'') py_to_int) (\<lambda>n.
     ebind (if n \<noteq> sx_rows s then Inr False else ebind (ebind (field v ''total'') py_to_float) (\<lambda>x. Inr (x = Fin (sx_sum s)))) (\<lambda>ok.
     guard ok (RuntimeError (label @ '' correctness oracle failed''))))"

text \<open>\<^verbatim>\<open>int(first_body["request_id"].split(":", 2)[1])\<close>.\<close>

definition issued_us :: "json \<Rightarrow> int result" where
  "issued_us body = ebind (field body ''request_id'') (\<lambda>rid.
     case rid of
       JStr s \<Rightarrow>
         if CHR '':'' \<in> set s then py_to_int (JStr (fst (cut_at (CHR '':'') (snd (cut_at (CHR '':'') s)))))
         else Inl (IndexError ''list index out of range'')
     | _ \<Rightarrow> Inl (AttributeError ''split''))"

definition check_expired :: "'w wire \<Rightarrow> Client \<Rightarrow> string \<Rightarrow> int \<Rightarrow> json option \<Rightarrow> json \<Rightarrow> ('w, bool) probe" where
  "check_expired wire cl table window_seconds first raw = (case first of
     None \<Rightarrow> io_return False
   | Some body \<Rightarrow>
       io_bind (io_lift (issued_us body)) (\<lambda>issued.
       io_bind (io_on (wr_time wire)) (\<lambda>t.
       if micros t \<le> issued + window_seconds * 1000000 then io_return False
       else
         io_bind (\<lambda>z. case request wire cl ''/v1/write'' (Some body) False z of
             (Inr _, z1) \<Rightarrow> (Inl (RuntimeError ''expired request ID was accepted''), z1)
           | (Inl (HttpStatus status message), z1) \<Rightarrow>
               (if status \<noteq> 400 \<or> \<not> sublist ''idempotency window'' message
                then Inl (RuntimeError ''expired request ID did not report the expected rejection'') else Inr (), z1)
           | (Inl e, z1) \<Rightarrow> (Inl e, z1)) (\<lambda>_.
         io_bind (probe_row_of wire cl (raw_sql table)) (\<lambda>again.
         if py_eq again raw then io_return True
         else io_raise (RuntimeError ''expired retry changed retained raw data''))))))"

definition job_controls :: "'w wire \<Rightarrow> Client \<Rightarrow> string \<Rightarrow> ('w, json \<times> json) probe" where
  "job_controls wire cl job =
     io_bind (probe_sql wire cl (''CALL varve_alter_job('' @ literal job @ '','' @ sq @ object_text [(''paused'', ''true'')] @ sq @ '')'') False) (\<lambda>_.
     io_bind (probe_sql wire cl (''CALL varve_run_job('' @ literal job @ '')'') False) (\<lambda>_.
     io_bind (probe_sql wire cl ''SELECT * FROM varve_jobs()'' False) (\<lambda>jobs.
     io_bind (request wire cl ''/v1/maintain'' (Some (JObj [])) False) (\<lambda>_.
     io_bind (request wire cl ''/v1/status'' None False) (\<lambda>status.
     io_return (jobs, status))))))"

definition policy_text :: "int \<Rightarrow> string" where
  "policy_text window_seconds = object_text [(''retention_us'', ''1''), (''idempotency_window_us'', dec_int (window_seconds * 1000000))]"

definition check_retention :: "'w wire \<Rightarrow> Client \<Rightarrow> string \<Rightarrow> string \<Rightarrow> int \<Rightarrow> int \<Rightarrow> ('w, json) probe" where
  "check_retention wire cl table aggregate window_seconds expected_rows =
     io_bind (probe_sql wire cl (''CALL varve_set_policy('' @ literal table @ '','' @ literal (policy_text window_seconds) @ '')'') False) (\<lambda>_.
     io_bind (request wire cl ''/v1/maintain'' (Some (JObj [])) False) (\<lambda>_.
     io_bind (probe_row_of wire cl (''SELECT count(*) AS n FROM '' @ table)) (\<lambda>raw_after.
     io_bind (probe_row_of wire cl (''SELECT CAST(sum(count) AS BIGINT) AS n FROM '' @ aggregate)) (\<lambda>retained.
     io_bind (io_lift (ebind (field raw_after ''n'') py_to_int)) (\<lambda>left.
     io_bind (io_lift (if left \<noteq> 0 then Inr False else ebind (ebind (field retained ''n'') py_to_int) (\<lambda>n. Inr (n = expected_rows)))) (\<lambda>ok.
     if ok then io_return retained
     else io_raise (RuntimeError ''independent raw/aggregate retention oracle failed'')))))))"

text \<open>\<^verbatim>\<open>len(value)\<close>.\<close>

definition json_len :: "json \<Rightarrow> int result" where
  "json_len v = (case v of
     JList xs \<Rightarrow> Inr (int (length xs)) | JObj d \<Rightarrow> Inr (int (length d)) | JStr s \<Rightarrow> Inr (int (length s))
   | _ \<Rightarrow> Inl (TypeError (''object of type '' @ repr_str (type_name v) @ '' has no len()'')))"

definition probe_checks :: "bool \<Rightarrow> json" where
  "probe_checks expire = JList (map JStr ([''auth'', ''sql_controls'', ''out_of_order_ingest'', ''idempotency'', ''concurrent_sql'',
     ''exact_count_sum'', ''named_continuous_aggregate'', ''job_pause_run_drop'', ''maintenance''] @
     (if expire then [''independent_retention''] else [])))"

definition probe_note :: string where
  "probe_note = ''Synthetic data and unique namespaces only. This is bounded workload evidence, '' @
     ''not a production certification or competitive benchmark.''"

definition probe_report ::
  "(string \<Rightarrow> bool) \<Rightarrow> string stress_args \<Rightarrow> string \<Rightarrow> string \<Rightarrow> 'w stress \<Rightarrow> rat \<Rightarrow> nat \<Rightarrow> bool \<Rightarrow> json \<Rightarrow> json \<Rightarrow> json \<Rightarrow> json \<Rightarrow> json \<Rightarrow> dict result" where
  "probe_report bracket_ok a table aggregate s elapsed retries expired raw rolled retained jobs status =
     ebind (urlsplit bracket_ok (sa_url a)) (\<lambda>parsed.
     ebind (float_div (of_int (sx_rows s)) elapsed) (\<lambda>per_second.
     ebind (json_len jobs) (\<lambda>n_jobs.
     Inr [(''target'', JStr (us_netloc parsed)), (''table'', JStr table), (''aggregate'', JStr aggregate),
       (''completed_rows'', JInt (sx_rows s)), (''expected_sum'', JFloat (Fin (sx_sum s))),
       (''elapsed_seconds'', JFloat (Fin elapsed)), (''observed_rows_per_second'', JFloat (Fin per_second)),
       (''concurrency'', JInt (sa_concurrency a)), (''bounded_retries'', JInt (int retries)),
       (''idempotency_window_seconds'', JInt (sa_window a)), (''expired_request_id_rejected'', JBool expired),
       (''writes'', probe_latency (sx_writes s)), (''queries'', probe_latency (sx_queries s)), (''raw'', raw), (''rollup'', rolled),
       (''retained_rollup_after_raw_expiration'', retained), (''jobs_observed'', JInt n_jobs),
       (''status_before_expiration'', status), (''verified'', probe_checks (sa_expire a)), (''note'', JStr probe_note)])))"

text \<open>What follows the threads: the comparisons with the server, the controls of the job and the report.\<close>

definition finish_probe ::
  "'w wire \<Rightarrow> (string \<Rightarrow> bool) \<Rightarrow> Client \<Rightarrow> string stress_args \<Rightarrow> string \<Rightarrow> string \<Rightarrow> string \<Rightarrow> rat \<Rightarrow> 'w stress \<Rightarrow> ('w, dict) probe" where
  "finish_probe wire bracket_ok cl a table aggregate job started s =
     io_bind (io_on (wr_monotonic wire)) (\<lambda>now.
     io_bind (io_lift (check_threads s)) (\<lambda>_.
     io_bind (probe_row_of wire cl (raw_sql table)) (\<lambda>raw.
     io_bind (probe_row_of wire cl (rolled_sql aggregate)) (\<lambda>rolled.
     io_bind (io_lift (check_totals s ''raw'' raw)) (\<lambda>_.
     io_bind (io_lift (check_totals s ''continuous aggregate'' rolled)) (\<lambda>_.
     io_bind (check_expired wire cl table (sa_window a) (sx_first s) raw) (\<lambda>expired.
     io_bind (job_controls wire cl job) (\<lambda>(jobs, status).
     io_bind (if sa_expire a then check_retention wire cl table aggregate (sa_window a) (sx_rows s) else io_return JNull) (\<lambda>retained.
     io_bind (probe_sql wire cl (''CALL varve_drop_job('' @ literal job @ '')'') False) (\<lambda>_.
     io_bind io_get (\<lambda>retries.
     io_lift (probe_report bracket_ok a table aggregate s (fl (now - started)) retries expired raw rolled retained jobs status))))))))))))"

definition stress_program ::
  "'w wire \<Rightarrow> 'w threads \<Rightarrow> (string \<Rightarrow> bool) \<Rightarrow> (string \<Rightarrow> bool option) \<Rightarrow> string option \<Rightarrow> string stress_args \<Rightarrow> rat \<Rightarrow> ('w, dict) probe" where
  "stress_program wire threads bracket_ok loopback token a seconds =
     io_bind (io_lift (new_client bracket_ok loopback (sa_url a) (case token of Some t \<Rightarrow> t | None \<Rightarrow> []))) (\<lambda>cl.
     io_bind (create_objects wire cl (sa_window a)) (\<lambda>(table, aggregate, job).
     io_bind (start_job wire cl a seconds table) (\<lambda>sj.
     io_bind (run_threads threads sj (nat (sa_concurrency a))) (\<lambda>s.
     finish_probe wire bracket_ok cl a table aggregate job (sj_started sj) s))))"

text \<open>\<^verbatim>\<open>json.dumps(run(arguments()), allow_nan=False)\<close>; the limits leave a finite number of seconds.\<close>

definition stress_main ::
  "'w wire \<Rightarrow> 'w threads \<Rightarrow> (string \<Rightarrow> bool) \<Rightarrow> (string \<Rightarrow> bool option) \<Rightarrow> string option \<Rightarrow> string list \<Rightarrow> ('w, dict) probe" where
  "stress_main wire threads bracket_ok loopback token argv =
     io_bind (io_lift (stress_arguments argv)) (\<lambda>a.
     case sa_seconds a of
       Fin seconds \<Rightarrow>
         io_bind (stress_program wire threads bracket_ok loopback token a seconds) (\<lambda>report.
         if json_finite (JObj report) then io_return report
         else io_raise (ValueError ''Out of range float values are not JSON compliant''))
     | _ \<Rightarrow> io_raise (SystemExit 2))"

section \<open>The oracle is exact\<close>

definition span :: "int \<times> int \<Rightarrow> int list" where
  "span b = [fst b..fst b + snd b - 1]"

definition claim_of :: "writer \<Rightarrow> int multiset" where
  "claim_of x = (case x of Claimed offset n \<Rightarrow> mset (span (offset, n)) | _ \<Rightarrow> {#})"

definition acked_rows :: "'w stress \<Rightarrow> int list" where
  "acked_rows s = concat (map span (sx_acked s))"

definition held_rows :: "writer list \<Rightarrow> int multiset" where
  "held_rows ws = sum_list (map claim_of ws)"

text \<open>The exact sum of the values of rows, in eighths.\<close>

definition eighths :: "int list \<Rightarrow> int" where
  "eighths rows = sum_list (map (\<lambda>i. i mod 1000) rows)"

lemma fl_eighths: "\<bar>k\<bar> < 2 ^ 53 \<Longrightarrow> fl (of_int k / 8) = of_int k / 8"
  using fl_dyadic [of k "- 3"] by (simp add: pow2_def)

lemma row_value_exact: "row_value i = of_int (i mod 1000) / 8"
proof -
  have "0 \<le> i mod 1000" "i mod 1000 < 1000" by simp_all
  then show ?thesis unfolding row_value_def by (intro fl_eighths) simp
qed

lemma eighths_simps [simp]: "eighths [] = 0" "eighths (i # rows) = i mod 1000 + eighths rows" "eighths (xs @ ys) = eighths xs + eighths ys"
  by (simp_all add: eighths_def)

lemma mod_1000: "0 \<le> i mod (1000 :: int)" "i mod (1000 :: int) \<le> 999"
  using pos_mod_bound [of 1000 i] by simp_all

lemma eighths_bounds: "0 \<le> eighths rows \<and> eighths rows \<le> 1000 * int (length rows)"
proof (induction rows)
  case (Cons i rows)
  then show ?case using mod_1000 [of i] by (simp only: eighths_simps length_Cons of_nat_Suc distrib_left) linarith
qed simp

lemma float_sum_exact:
  "0 \<le> k \<Longrightarrow> k + 1000 * int (length rows) < 2 ^ 53 \<Longrightarrow>
   foldl (\<lambda>acc i. fl (acc + row_value i)) (of_int k / 8) rows = of_int (k + eighths rows) / 8"
proof (induction rows arbitrary: k)
  case (Cons i rows)
  have k: "0 \<le> k + i mod 1000" "k + i mod 1000 + 1000 * int (length rows) < 2 ^ 53" "\<bar>k + i mod 1000\<bar> < 2 ^ 53"
    using Cons.prems mod_1000 [of i] by simp_all
  have "of_int k / 8 + row_value i = of_int (k + i mod 1000) / 8" by (simp add: row_value_exact add_divide_distrib)
  then have "fl (of_int k / 8 + row_value i) = of_int (k + i mod 1000) / 8" using fl_eighths [OF k(3)] by (simp only:)
  then show ?case using Cons.IH [OF k(1,2)] by (simp only: foldl.simps eighths_simps add.assoc)
qed simp

lemma batch_sum_exact: "n \<le> 1000 \<Longrightarrow> batch_sum offset n = of_int (eighths (span (offset, n))) / 8"
  using float_sum_exact [of 0 "[offset..offset + n - 1]"] by (simp add: batch_sum_def span_def)

lemma held_split:
  assumes "i < length ws"
  shows "\<exists>rest. held_rows ws = claim_of (ws ! i) + rest \<and> (\<forall>x. held_rows (ws[i := x]) = claim_of x + rest)"
proof -
  let ?rest = "held_rows (take i ws) + held_rows (drop (Suc i) ws)"
  have "held_rows (take i ws @ ws ! i # drop (Suc i) ws) = claim_of (ws ! i) + ?rest" by (simp add: held_rows_def)
  moreover have "held_rows (ws[i := x]) = claim_of x + ?rest" for x
    unfolding upd_conv_take_nth_drop [OF assms] by (simp add: held_rows_def)
  ultimately show ?thesis unfolding id_take_nth_drop [OF assms, symmetric] by blast
qed

definition small_claim :: "writer \<Rightarrow> bool" where
  "small_claim x = (case x of Claimed _ n \<Rightarrow> 0 < n \<and> n \<le> 1000 | _ \<Rightarrow> True)"

lemma small_update: "list_all small_claim ws \<Longrightarrow> small_claim x \<Longrightarrow> list_all small_claim (ws[i := x])"
  by (auto simp: list_all_iff dest!: subsetD [OF set_update_subset_insert])

definition stress_inv :: "'w stress_job \<Rightarrow> 'w stress \<Rightarrow> bool" where
  "stress_inv job s \<longleftrightarrow> 0 \<le> sx_next s \<and> sx_next s \<le> sj_rows job \<and>
     mset (acked_rows s) + held_rows (sx_writers s) \<subseteq># mset [0..sx_next s - 1] \<and>
     list_all small_claim (sx_writers s) \<and>
     sx_rows s = int (length (acked_rows s)) \<and> sx_sum s = of_int (eighths (acked_rows s)) / 8"

lemma inv_at_wire [simp]: "stress_inv job (at_wire z s) = stress_inv job s" "sx_writers (at_wire z s) = sx_writers s"
  by (simp_all add: stress_inv_def at_wire_def acked_rows_def)

lemma inv_keep_first [simp]: "stress_inv job (keep_first first s) = stress_inv job s" "sx_writers (keep_first first s) = sx_writers s"
  by (simp_all add: stress_inv_def keep_first_def acked_rows_def split: option.split)

lemma inv_gone:
  assumes "stress_inv job s" "i < length (sx_writers s)"
  shows "stress_inv job (s\<lparr>sx_writers := (sx_writers s)[i := Gone]\<rparr>)"
proof -
  obtain rest where held: "held_rows (sx_writers s) = claim_of (sx_writers s ! i) + rest"
      "\<And>x. held_rows ((sx_writers s)[i := x]) = claim_of x + rest"
    using held_split [OF assms(2)] by blast
  have "mset (acked_rows s) + rest \<subseteq># mset (acked_rows s) + held_rows (sx_writers s)" by (simp add: held)
  also have "\<dots> \<subseteq># mset [0..sx_next s - 1]" using assms(1) by (simp add: stress_inv_def)
  finally show ?thesis using assms(1)
    by (simp add: stress_inv_def acked_rows_def held(2) claim_of_def small_update small_claim_def)
qed

lemma upto_extend: "0 \<le> a \<Longrightarrow> 0 \<le> n \<Longrightarrow> [0..a + n - 1] = [0..a - 1] @ [a..a + n - 1]" for a n :: int
  using upto_split2 [of 0 "a - 1" "a + n - 1"] by (cases "a = 0") simp_all

lemma inv_claim:
  assumes "stress_inv job s" "i < length (sx_writers s)" "sx_writers s ! i = Ready" "n = claimed_batch job s" "0 < n" "sj_batch job \<le> 1000"
  shows "stress_inv job (s\<lparr>sx_writers := (sx_writers s)[i := Claimed (sx_next s) n], sx_next := sx_next s + n\<rparr>)"
proof -
  obtain rest where held: "held_rows (sx_writers s) = rest"
      "\<And>x. held_rows ((sx_writers s)[i := x]) = claim_of x + rest"
    using held_split [OF assms(2)] assms(3) by (auto simp: claim_of_def)
  have n: "n \<le> 1000" "sx_next s + n \<le> sj_rows job" using assms(4,6) by (simp_all add: claimed_batch_def)
  have "mset [0..sx_next s + n - 1] = mset [0..sx_next s - 1] + mset [sx_next s..sx_next s + n - 1]"
    using assms(1,5) by (simp add: upto_extend stress_inv_def)
  moreover have "mset (acked_rows s) + rest \<subseteq># mset [0..sx_next s - 1]" using assms(1) by (simp add: stress_inv_def held(1))
  ultimately have "mset (acked_rows s) + (claim_of (Claimed (sx_next s) n) + rest) \<subseteq># mset [0..sx_next s + n - 1]"
    by (simp add: claim_of_def span_def union_assoc [symmetric] union_commute subset_mset.add_mono)
  then show ?thesis using assms(1,5) n
    by (simp add: stress_inv_def acked_rows_def held(2) small_update small_claim_def)
qed

lemma acked_rows_bound:
  assumes "stress_inv job s" "sj_rows job \<le> 500000"
  shows "int (length (acked_rows s)) \<le> 500000"
proof -
  have "mset (acked_rows s) \<subseteq># mset [0..sx_next s - 1]"
    using assms(1) by (auto simp: stress_inv_def intro: subset_mset.order_trans [OF mset_subset_eq_add_left])
  then have "length (acked_rows s) \<le> length [0..sx_next s - 1]" using size_mset_mono by fastforce
  then have len: "length (acked_rows s) \<le> nat (sx_next s)" by simp
  have "0 \<le> sx_next s" "sx_next s \<le> sj_rows job" using assms(1) by (simp_all add: stress_inv_def)
  moreover from len this(1) have "int (length (acked_rows s)) \<le> sx_next s" by linarith
  ultimately show ?thesis using assms(2) by linarith
qed

lemma inv_acknowledge:
  assumes inv: "stress_inv job s" and i: "i < length (sx_writers s)" and claimed: "sx_writers s ! i = Claimed offset n" and "sj_rows job \<le> 500000"
  shows "stress_inv job (write_acknowledged i offset n elapsed s)"
proof -
  let ?s = "write_acknowledged i offset n elapsed s"
  obtain rest where held: "held_rows (sx_writers s) = mset (span (offset, n)) + rest"
      "\<And>x. held_rows ((sx_writers s)[i := x]) = claim_of x + rest"
    using held_split [OF i] claimed by (auto simp: claim_of_def)
  have "small_claim (sx_writers s ! i)" using inv i by (simp add: stress_inv_def list_all_length)
  then have n: "n \<le> 1000" "0 < n" by (simp_all add: claimed small_claim_def)
  have rows: "acked_rows ?s = acked_rows s @ span (offset, n)" by (simp add: acked_rows_def write_acknowledged_def)
  have len: "int (length (acked_rows s)) \<le> 500000" "length (span (offset, n)) \<le> 1000"
    using acked_rows_bound [OF inv assms(4)] n(1) by (simp_all add: span_def)
  have "sx_sum s + batch_sum offset n = of_int (eighths (acked_rows ?s)) / 8"
    using inv unfolding rows batch_sum_exact [OF n(1)] by (simp add: stress_inv_def add_divide_distrib)
  moreover have "\<bar>eighths (acked_rows ?s)\<bar> < 2 ^ 53"
    using eighths_bounds [of "acked_rows s"] eighths_bounds [of "span (offset, n)"] len unfolding rows by simp
  ultimately have total: "fl (sx_sum s + batch_sum offset n) = of_int (eighths (acked_rows ?s)) / 8" by (simp only: fl_eighths)
  have held_rows: "mset (acked_rows ?s) + held_rows (sx_writers ?s) \<subseteq># mset [0..sx_next s - 1]"
    using inv unfolding rows by (simp add: stress_inv_def held write_acknowledged_def claim_of_def add.assoc)
  have count: "sx_rows ?s = int (length (acked_rows ?s))" using inv n(2) unfolding rows
    by (simp add: stress_inv_def span_def write_acknowledged_def)
  have small: "list_all small_claim (sx_writers ?s)" using inv
    by (simp add: stress_inv_def write_acknowledged_def small_update small_claim_def [of Ready])
  have kept: "sx_next ?s = sx_next s" "sx_sum ?s = fl (sx_sum s + batch_sum offset n)" by (simp_all add: write_acknowledged_def)
  show ?thesis unfolding stress_inv_def kept(1)
    by (intro conjI held_rows count small) (use inv total kept(2) in \<open>simp_all only: stress_inv_def\<close>)
qed

lemma inv_write_failed:
  "stress_inv job s \<Longrightarrow> i < length (sx_writers s) \<Longrightarrow> stress_inv job (write_failed i e s)"
  using inv_gone [of job s i] by (simp add: stress_inv_def write_failed_def acked_rows_def)

lemma inv_other:
  assumes "stress_inv job s"
  shows "stress_inv job (query_failed e s)" "stress_inv job (s\<lparr>sx_queries := qs\<rparr>)" "stress_inv job (s\<lparr>sx_reading := r\<rparr>)" "stress_inv job (s\<lparr>sx_stop := b\<rparr>)"
  using assms by (simp_all add: stress_inv_def query_failed_def acked_rows_def)

lemma stress_inv_step:
  assumes "stress_step job s s'" "stress_inv job s" "sj_rows job \<le> 500000" "sj_batch job \<le> 1000"
  shows "stress_inv job s'"
  using assms
proof (induction rule: stress_step.induct)
  case (acknowledge i s offset n now rid first z elapsed)
  then show ?case by (intro inv_acknowledge) simp_all
next
  case (claim i s now n)
  then show ?case by (intro inv_claim) simp_all
next
  case (query s v z elapsed)
  then show ?case using inv_other(2) [of job "at_wire z s"] by simp
qed (simp_all add: inv_gone inv_write_failed inv_other)

lemma stress_inv_run:
  assumes "stress_run job concurrency w retries s" "0 \<le> sj_rows job" "sj_rows job \<le> 500000" "sj_batch job \<le> 1000"
  shows "stress_inv job s"
  using assms(1)
proof (induction rule: rtranclp_induct)
  case base
  have "held_rows (replicate n Ready) = {#}" for n by (induction n) (simp_all add: held_rows_def claim_of_def)
  then show ?case using assms(2) by (simp add: stress_inv_def stress_start_def acked_rows_def list_all_iff small_claim_def)
next
  case (step y z)
  show ?case by (rule stress_inv_step [OF step(2,3) assms(3,4)])
qed

lemma distinct_sub_mset:
  assumes "mset xs \<subseteq># mset ys" "distinct ys"
  shows "distinct xs"
proof -
  have "count (mset xs) x \<le> 1" for x
  proof -
    have "count (mset ys) x \<le> 1" using assms(2) unfolding distinct_count_atmost_1 by (cases "x \<in> set ys") simp_all
    then show ?thesis using mset_subset_eq_count [OF assms(1), of x] by linarith
  qed
  then show ?thesis unfolding distinct_count_atmost_1
    by (metis One_nat_def count_mset_0_iff le_Suc_eq le_zero_eq)
qed

lemma stress_oracle_exact_state:
  assumes "stress_run job concurrency w retries s" "0 \<le> sj_rows job" "sj_rows job \<le> 500000" "sj_batch job \<le> 1000"
  shows "distinct (acked_rows s) \<and> set (acked_rows s) \<subseteq> {0..<sj_rows job} \<and> sx_rows s = int (length (acked_rows s)) \<and>
    sx_sum s = (\<Sum>i\<leftarrow>acked_rows s. of_int (i mod 1000) / 8)"
proof -
  note inv = stress_inv_run [OF assms]
  have sub: "mset (acked_rows s) \<subseteq># mset [0..sx_next s - 1]"
    using inv by (auto simp: stress_inv_def intro: subset_mset.order_trans [OF mset_subset_eq_add_left])
  have "of_int (eighths rows) / 8 = (\<Sum>i\<leftarrow>rows. of_int (i mod 1000) / 8 :: rat)" for rows
    by (induction rows) (simp_all add: add_divide_distrib)
  moreover have "set (acked_rows s) \<subseteq> set [0..sx_next s - 1]" using set_mset_mono [OF sub] by simp
  ultimately show ?thesis using inv distinct_sub_mset [OF sub] by (auto simp: stress_inv_def)
qed

text \<open>
  C15: however the writer and reader threads of the stress probe are interleaved and wherever they fail
  or stop, the oracle the probe compares the server with is exact: the rows of the acknowledged
  batches are pairwise different rows of the data set, the expected count is their number, and the
  expected sum, accumulated in floats in the order of the acknowledgements, is the exact sum of
  their values.
\<close>

theorem stress_oracle_exact:
  assumes "stress_run job concurrency w retries s" "0 \<le> sj_rows job" "sj_rows job \<le> 500000" "sj_batch job \<le> 1000"
  shows "distinct (acked_rows s) \<and> set (acked_rows s) \<subseteq> {0..<sj_rows job} \<and> sx_rows s = int (length (acked_rows s)) \<and>
    sx_sum s = (\<Sum>i\<leftarrow>acked_rows s. of_int (i mod 1000) / 8)"
  using assms by (rule stress_oracle_exact_state)

text \<open>
  The comparison with an answer of the server passes exactly if its count and its sum are the ones of
  the oracle, and a probe that returns a report has passed it for the raw table and for the aggregate.
\<close>

lemma check_totals_iff:
  "check_totals s label v = Inr u \<longleftrightarrow>
     ebind (field v ''n'') py_to_int = Inr (sx_rows s) \<and> ebind (field v ''total'') py_to_float = Inr (Fin (sx_sum s))"
  unfolding check_totals_def
  by (cases "ebind (field v ''n'') py_to_int"; cases "ebind (field v ''total'') py_to_float") (auto simp: ebind_def guard_def)

lemma probe_report_entries:
  assumes "probe_report bracket_ok a table aggregate s elapsed retries expired raw rolled retained jobs status = Inr report"
  shows "dget report ''completed_rows'' = JInt (sx_rows s)" "dget report ''expected_sum'' = JFloat (Fin (sx_sum s))"
    "dget report ''raw'' = raw" "dget report ''rollup'' = rolled"
  using assms unfolding probe_report_def by (auto elim!: ebindE simp: dget_def)

lemma finish_probe_verified:
  assumes "finish_probe wire bracket_ok cl a table aggregate job started s z = (Inr report, z')"
  shows "sx_failures s = [] \<and> sx_rows s \<noteq> 0 \<and> dget report ''completed_rows'' = JInt (sx_rows s) \<and>
    dget report ''expected_sum'' = JFloat (Fin (sx_sum s)) \<and>
    check_totals s ''raw'' (dget report ''raw'') = Inr () \<and> check_totals s ''continuous aggregate'' (dget report ''rollup'') = Inr ()"
proof -
  obtain z1 raw rolled expired jobs status retained retries elapsed where
    checks: "check_threads s = Inr ()" "check_totals s ''raw'' raw = Inr ()" "check_totals s ''continuous aggregate'' rolled = Inr ()"
    and report: "probe_report bracket_ok a table aggregate s elapsed retries expired raw rolled retained jobs status = Inr report"
    using assms unfolding finish_probe_def by (auto elim!: io_bindE io_liftE simp del: io_run split: prod.splits)
  have "sx_failures s = []" "sx_rows s \<noteq> 0" using checks(1) by (simp_all add: check_threads_def split: if_splits)
  then show ?thesis using checks(2, 3) probe_report_entries [OF report] by simp
qed

lemma stress_program_verified:
  assumes threads: "\<And>job c w n. stress_run job c w n (threads job c (w, n))"
    and "stress_limits a"
    and "stress_program wire threads bracket_ok loopback token a seconds (w, n) = (Inr report, z')"
  obtains rows where "distinct rows" "set rows \<subseteq> {0..<sa_rows a}" "rows \<noteq> []"
    "dget report ''completed_rows'' = JInt (int (length rows))"
    "dget report ''expected_sum'' = JFloat (Fin (\<Sum>i\<leftarrow>rows. of_int (i mod 1000) / 8))"
    "\<And>k. k \<in> {''raw'', ''rollup''} \<Longrightarrow> ebind (field (dget report k) ''n'') py_to_int = Inr (int (length rows)) \<and>
       ebind (field (dget report k) ''total'') py_to_float = Inr (Fin (\<Sum>i\<leftarrow>rows. of_int (i mod 1000) / 8))"
proof -
  obtain cl table aggregate job sj s z1 z2 z3 where
    sj: "start_job wire cl a seconds table z1 = (Inr sj, z2)" and s: "s = threads sj (nat (sa_concurrency a)) z2"
    and finish: "finish_probe wire bracket_ok cl a table aggregate job (sj_started sj) s z3 = (Inr report, z')"
    using assms(3) unfolding stress_program_def
    by (auto elim!: io_bindE io_liftE simp: run_threads_def Let_def simp del: io_run split: prod.splits if_splits)
  have "sj_rows sj = sa_rows a" "sj_batch sj = sa_batch a"
    using sj unfolding start_job_def by (auto elim!: io_bindE io_returnE)
  then have bounds: "0 \<le> sj_rows sj" "sj_rows sj \<le> 500000" "sj_batch sj \<le> 1000" "sj_rows sj = sa_rows a"
    using assms(2) by (simp_all add: stress_limits_def)
  have "stress_run sj (nat (sa_concurrency a)) (fst z2) (snd z2) s" using threads [of sj _ "fst z2" "snd z2"] by (simp add: s)
  note exact = stress_oracle_exact_state [OF this bounds(1-3)]
  note verified = finish_probe_verified [OF finish]
  show ?thesis
    by (rule that [of "acked_rows s"]) (use exact verified bounds(4) in \<open>auto simp: check_totals_iff\<close>)
qed

text \<open>A server that acknowledges every write, and a writer that submits the only batch of two rows.\<close>

definition example_ack :: json where
  "example_ack = JObj [(''durability'', JStr ''local_fsync''), (''duplicate'', JBool True), (''sequence'', JInt 1)]"

definition durable_wire :: "nat wire" where
  "durable_wire = \<lparr>wr_open = (\<lambda>_ _ _ w. (Response (utf8 (json_text False True example_ack)), w)), wr_sleep = (\<lambda>_ w. w),
     wr_time = io_return 0, wr_monotonic = io_return 0, wr_hex = io_return []\<rparr>"

definition tiny_job :: "nat stress_job" where
  "tiny_job = \<lparr>sj_wire = durable_wire, sj_client = \<lparr>cl_base = [], cl_token = []\<rparr>, sj_table = ''t'', sj_base_us = 0, sj_rows = 2, sj_batch = 256,
     sj_started = 0, sj_deadline = 1\<rparr>"

lemma durable_request:
  assumes "json_finite body"
  shows "request durable_wire cl path (Some body) True z = (Inr example_ack, z)"
proof -
  define raw where "raw = utf8 (json_text False True example_ack)"
  have len: "length raw < 100" unfolding raw_def by code_simp
  have loads: "loads_bytes raw = Inr example_ack"
    unfolding raw_def loads_bytes_def utf8_decode_utf8 loads_def option.case
    by (subst loads_with_printed) (simp_all add: example_ack_def)
  have "take (RESPONSE_LIMIT + 1) raw = raw" by (rule take_all) (use len in \<open>simp add: RESPONSE_LIMIT_def\<close>)
  then have read: "read_response (take (RESPONSE_LIMIT + 1) raw) = Inr example_ack"
    using len loads by (simp add: read_response_def RESPONSE_LIMIT_def)
  have opened: "wr_open durable_wire url encoded timeout w = (Response raw, w)" for url encoded timeout w
    by (simp add: durable_wire_def raw_def)
  have "try_attempts durable_wire url encoded timeout True [0..<4] (w, n) = (Inr example_ack, (w, n))" for url encoded timeout w n
    using read by (simp only: upt_rec [of 0 4] try_attempts.simps) (simp add: opened judge_def)
  then show ?thesis using assms by (cases z) (simp add: request_def dumps_def)
qed

lemma tiny_submit: "submit_batch tiny_job 0 (write_body tiny_job 0 2 rid) z = ((Inr (), Some (write_body tiny_job 0 2 rid)), z)"
proof -
  have "json_finite (write_body tiny_job 0 2 rid)" by (simp add: write_body_def rows_for_def probe_row_def list_all_iff)
  note ack = durable_request [OF this]
  have w: "sj_wire tiny_job = durable_wire" by (simp add: tiny_job_def)
  have "check_receipt example_ack = Inr [(''durability'', JStr ''local_fsync''), (''duplicate'', JBool True), (''sequence'', JInt 1)]"
    "check_duplicate [(''durability'', JStr ''local_fsync''), (''duplicate'', JBool True), (''sequence'', JInt 1)] example_ack = Inr ()"
    by (simp_all add: example_ack_def check_receipt_def check_duplicate_def dget_def truthy_def)
  note checks = this
  have "(0::int) \<noteq> 0 \<longleftrightarrow> False" by simp
  then show ?thesis unfolding submit_batch_def w ack prod.case sum.case checks by (simp only: if_False)
qed

lemma tiny_bounds: "sj_deadline tiny_job = 1" "sj_rows tiny_job = 2" "sj_batch tiny_job = 256"
  by (simp_all add: tiny_job_def)

lemma tiny_claim: "stress_step tiny_job (stress_start 1 0 0) ((stress_start 1 0 0)\<lparr>sx_writers := [Claimed 0 2], sx_next := 2\<rparr>)"
  using stress_step.claim [of 0 "stress_start 1 0 0" 0 tiny_job 2] by (simp add: stress_start_def tiny_bounds claimed_batch_def)

lemma tiny_acknowledge:
  assumes "s1 = (stress_start 1 0 0)\<lparr>sx_writers := [Claimed 0 2], sx_next := 2\<rparr>"
    and "s2 = write_acknowledged 0 0 2 1 (keep_first (Some (write_body tiny_job 0 2 [])) (at_wire (0, 0) s1))"
  shows "stress_step tiny_job s1 s2" "acked_rows s2 = [0, 1]"
proof -
  have now: "(0::rat) < sj_deadline tiny_job" by (simp add: tiny_bounds)
  have s1: "0 < length (sx_writers s1)" "sx_writers s1 ! 0 = Claimed 0 2" "\<not> sx_stop s1" "sx_world s1 = 0" "sx_retries s1 = 0"
    by (simp_all add: assms(1) stress_start_def)
  show "stress_step tiny_job s1 s2"
    unfolding assms(2) by (rule stress_step.acknowledge [OF s1(1-3) now]) (simp only: s1 tiny_submit)
  have "sx_acked s2 = [(0, 2)]"
    by (simp add: assms write_acknowledged_def keep_first_def at_wire_def stress_start_def)
  then show "acked_rows s2 = [0, 1]" by (simp add: acked_rows_def span_def upto_rec1)
qed

theorem stress_oracle_exact_witness:
  "\<exists>s. stress_run tiny_job 1 0 0 s \<and> sx_rows s = 2 \<and> sx_sum s = 1 / 8"
proof -
  note ack = tiny_acknowledge [OF refl refl]
  note run = rtranclp.rtrancl_into_rtrancl [where r = "stress_step tiny_job", OF r_into_rtranclp [where r = "stress_step tiny_job", OF tiny_claim] ack(1)]
  have "0 \<le> sj_rows tiny_job" "sj_rows tiny_job \<le> 500000" "sj_batch tiny_job \<le> 1000" by (simp_all add: tiny_bounds)
  note exact = stress_oracle_exact [OF run this, unfolded ack(2)]
  show ?thesis by (rule exI, rule conjI, rule run) (use exact in simp)
qed

end
