(* ===== verification/Spec2Isabelle.thy ===== *)
theory Spec2Isabelle
  imports Dataset Percentiles Digests Exact_Main Stress
begin

text \<open>Verification of the benchmark driver.\<close>

end
